(* ===== verification/Zask_Prelude.thy ===== *)
theory Zask_Prelude
  imports Main "HOL-Library.Word"
begin

text \<open>
  Shared vocabulary of the development: the fixed-width integer types of \<open>bpf/vmlinux.h\<close>,
  byte lists and their little-endian reading, NUL-terminated strings, buffers of fixed
  length, and the collections of facts the component theories add to. Nothing here is
  about one component; the lemmas are the ones several components use.
\<close>

unbundle bit_operations_syntax

section \<open>Machine integers (vmlinux.h)\<close>

type_synonym u8 = "8 word"
type_synonym u16 = "16 word"
type_synonym u32 = "32 word"
type_synonym u64 = "64 word"

section \<open>Collections\<close>

named_theorems kdefs \<open>definitions of the kernel hooks, unfolded together\<close>
named_theorems kframe \<open>what an operation leaves unchanged\<close>
named_theorems kwf \<open>length and well-formedness facts\<close>

section \<open>Buffers of a fixed length\<close>

text \<open>
  Writing \<open>bs\<close> at the start of a buffer \<open>dst\<close>: the buffer keeps its length, the bytes
  behind the written ones keep their old value.
\<close>

definition store_bytes :: "'a list \<Rightarrow> 'a list \<Rightarrow> 'a list" where
  "store_bytes dst bs = take (length dst) bs @ drop (length bs) dst"

lemma length_store_bytes [simp, kwf]: "length (store_bytes dst bs) = length dst"
  by (simp add: store_bytes_def)

lemma store_bytes_Nil [simp]: "store_bytes dst [] = dst"
  by (simp add: store_bytes_def)

lemma take_store_bytes: "length bs \<le> length dst \<Longrightarrow> take (length bs) (store_bytes dst bs) = bs"
  by (simp add: store_bytes_def)

lemma drop_store_bytes:
  "length bs \<le> length dst \<Longrightarrow> drop (length bs) (store_bytes dst bs) = drop (length bs) dst"
  by (simp add: store_bytes_def)

lemma store_bytes_full: "length bs = length dst \<Longrightarrow> store_bytes dst bs = bs"
  by (simp add: store_bytes_def)

lemma sum_list_list_update:
  fixes xs :: "'a::ab_group_add list"
  shows "k < length xs \<Longrightarrow> sum_list (xs[k := x]) = sum_list xs + (x - xs ! k)"
proof (induction xs arbitrary: k)
  case Nil
  then show ?case by simp
next
  case (Cons y ys)
  then show ?case by (cases k) (simp_all add: algebra_simps)
qed

section \<open>NUL-terminated strings\<close>

text \<open>The index of the first NUL byte, the length when there is none.\<close>

fun first_nul :: "u8 list \<Rightarrow> nat" where
  "first_nul [] = 0"
| "first_nul (b # bs) = (if b = 0 then 0 else Suc (first_nul bs))"

lemma first_nul_le: "first_nul bs \<le> length bs"
  by (induction bs) auto

lemma first_nul_append_zero: "0 \<notin> set bs \<Longrightarrow> first_nul (bs @ 0 # cs) = length bs"
  by (induction bs) auto

lemma first_nul_no_zero: "0 \<notin> set bs \<Longrightarrow> first_nul bs = length bs"
  by (induction bs) auto

lemma first_nul_mem: "0 \<in> set bs \<Longrightarrow> first_nul bs < length bs \<and> bs ! first_nul bs = 0"
  by (induction bs) auto

lemma take_first_nul_no_zero: "0 \<notin> set (take (first_nul bs) bs)"
  by (induction bs) auto

text \<open>The reading of a byte as a character of a Go string, and back.\<close>

definition byte_char :: "u8 \<Rightarrow> char" where
  "byte_char b = char_of (unat b)"

definition char_byte :: "char \<Rightarrow> u8" where
  "char_byte c = word_of_nat (of_char c)"

lemma byte_char_byte [simp]: "byte_char (char_byte c) = c"
proof -
  have "unat (word_of_nat (of_char c) :: u8) = (of_char c :: nat)"
    using nat_of_char_less_256 [of c] by (simp add: unat_of_nat)
  then show ?thesis by (simp add: byte_char_def char_byte_def)
qed

lemma char_byte_char [simp]: "char_byte (byte_char b) = b"
proof -
  have "unat b < 2 ^ LENGTH(8)" by (rule unsigned_less)
  then show ?thesis by (simp add: byte_char_def char_byte_def)
qed

lemma char_byte_inj: "char_byte c = char_byte d \<longleftrightarrow> c = d"
  by (metis byte_char_byte)

section \<open>Little-endian bytes of a word\<close>

text \<open>
  The byte order of the compiled program: \<open>generate.go\<close> builds for the target
  \<open>bpfel\<close>, and \<open>DecodeEvent\<close> reads with \<open>binary.LittleEndian\<close>. Byte \<open>i\<close> of an
  \<open>n\<close>-byte integer holds its bits \<open>8 * i\<close> to \<open>8 * i + 7\<close>.
\<close>

definition le_encode :: "nat \<Rightarrow> 'a::len word \<Rightarrow> u8 list" where
  "le_encode n w = map (\<lambda>i. ucast (drop_bit (8 * i) w)) [0..<n]"

fun le_decode :: "u8 list \<Rightarrow> 'a::len word" where
  "le_decode [] = 0"
| "le_decode (b # bs) = ucast b OR push_bit 8 (le_decode bs)"

lemma length_le_encode [simp, kwf]: "length (le_encode n w) = n"
  by (simp add: le_encode_def)

lemma bit_le_decode:
  "bit (le_decode bs :: 'a::len word) i \<longleftrightarrow>
     i < LENGTH('a) \<and> i div 8 < length bs \<and> bit (bs ! (i div 8)) (i mod 8)"
proof (induction bs arbitrary: i)
  case Nil
  then show ?case by simp
next
  case (Cons b bs)
  show ?case
  proof (cases "i < 8")
    case True
    then show ?thesis
      by (auto simp: bit_or_iff bit_push_bit_iff bit_ucast_iff)
  next
    case False
    then have "i div 8 = Suc ((i - 8) div 8)" "(i - 8) mod 8 = i mod 8"
      by (simp_all add: le_div_geq le_mod_geq)
    with False show ?thesis
      by (auto simp: bit_or_iff bit_push_bit_iff bit_ucast_iff Cons.IH dest: bit_imp_le_length)
  qed
qed

lemma le_decode_encode:
  fixes w :: "'a::len word"
  assumes "LENGTH('a) \<le> 8 * n"
  shows "le_decode (le_encode n w) = w"
proof (rule bit_word_eqI)
  fix i
  assume i: "i < LENGTH('a)"
  with assms have "i div 8 < n" by (simp add: less_mult_imp_div_less mult.commute)
  then show "bit (le_decode (le_encode n w) :: 'a word) i \<longleftrightarrow> bit w i"
    using i by (simp add: bit_le_decode le_encode_def bit_ucast_iff bit_drop_bit_eq)
qed

lemma le_encode_decode:
  assumes "length bs = n" and "8 * n \<le> LENGTH('a::len)"
  shows "le_encode n (le_decode bs :: 'a word) = bs"
proof (rule nth_equalityI)
  show "length (le_encode n (le_decode bs :: 'a word)) = length bs"
    using assms by simp
next
  fix k
  assume "k < length (le_encode n (le_decode bs :: 'a word))"
  then have k: "k < n" by simp
  show "le_encode n (le_decode bs :: 'a word) ! k = bs ! k"
  proof (rule bit_word_eqI)
    fix i
    assume "i < LENGTH(8)"
    then have i: "i < 8" by simp
    then have "(8 * k + i) div 8 = k" "(8 * k + i) mod 8 = i" by simp_all
    moreover have "8 * k + i < LENGTH('a)" using k i assms by linarith
    ultimately show "bit (le_encode n (le_decode bs :: 'a word) ! k) i = bit (bs ! k) i"
      using k i assms by (simp add: le_encode_def bit_ucast_iff bit_drop_bit_eq bit_le_decode)
  qed
qed

section \<open>Runs of a machine\<close>

text \<open>
  A component that is a step function over labelled operations, with an invariant that
  every admissible operation keeps and a quantity every admissible operation raises by its
  weight. The runs are \<open>fold step\<close>.
\<close>

locale step_invariant =
  fixes step :: "'o \<Rightarrow> 's \<Rightarrow> 's"
    and ok :: "'o \<Rightarrow> bool"
    and inv :: "'s \<Rightarrow> bool"
  assumes step_inv: "inv s \<Longrightarrow> ok a \<Longrightarrow> inv (step a s)"
begin

lemma run_inv: "inv s \<Longrightarrow> list_all ok as \<Longrightarrow> inv (fold step as s)"
  by (induction as arbitrary: s) (auto intro: step_inv)

end

locale step_measure = step_invariant +
  fixes total :: "'s \<Rightarrow> 'n::comm_monoid_add"
    and weight :: "'o \<Rightarrow> 'n"
  assumes step_total: "inv s \<Longrightarrow> ok a \<Longrightarrow> total (step a s) = total s + weight a"
begin

lemma run_total:
  "inv s \<Longrightarrow> list_all ok as \<Longrightarrow> total (fold step as s) = total s + sum_list (map weight as)"
proof (induction as arbitrary: s)
  case Nil
  then show ?case by simp
next
  case (Cons a as)
  then have "total (fold step as (step a s)) = total (step a s) + sum_list (map weight as)"
    by (intro Cons.IH) (auto intro: step_inv)
  then show ?case using Cons.prems by (simp add: step_total add.assoc)
qed

end

section \<open>Bounded queues\<close>

text \<open>
  The sending end of a buffered Go channel behind a \<open>select\<close> with a default: an element is
  taken while there is room and dropped otherwise.
\<close>

locale bounded_queue =
  fixes send :: "'e \<Rightarrow> 's \<Rightarrow> 's"
    and queue :: "'s \<Rightarrow> 'e list"
    and capacity :: "'s \<Rightarrow> nat"
  assumes send_room: "length (queue s) < capacity s \<Longrightarrow> queue (send e s) = queue s @ [e]"
    and send_full: "capacity s \<le> length (queue s) \<Longrightarrow> queue (send e s) = queue s"
    and send_capacity: "capacity (send e s) = capacity s"
begin

lemma send_queue:
  "queue (send e s) = queue s @ take (capacity s - length (queue s)) [e]"
proof (cases "length (queue s) < capacity s")
  case True
  then have "take (capacity s - length (queue s)) [e] = [e]" by (simp add: take_Cons')
  then show ?thesis by (simp only: send_room [OF True])
next
  case False
  then have "take (capacity s - length (queue s)) [e] = []" by simp
  then show ?thesis using False by (simp only: send_full not_less append_Nil2)
qed

lemma send_bounded:
  "length (queue s) \<le> capacity s \<Longrightarrow> length (queue (send e s)) \<le> capacity (send e s)"
  by (simp add: send_queue send_capacity)

text \<open>Of a burst of elements exactly the first that fit are taken.\<close>

lemma burst:
  assumes "length (queue s) \<le> capacity s"
  shows "queue (fold send es s) = queue s @ take (capacity s - length (queue s)) es"
  using assms
proof (induction es arbitrary: s)
  case Nil
  then show ?case by simp
next
  case (Cons e es)
  have room: "capacity s - length (queue s @ take (capacity s - length (queue s)) [e])
      = capacity s - length (queue s) - 1"
    by (simp add: min_def)
  have "queue (fold send (e # es) s) = queue (fold send es (send e s))" by simp
  also have "\<dots> = queue s @ take (capacity s - length (queue s)) [e]
      @ take (capacity s - length (queue s) - 1) es"
    using Cons.IH [OF send_bounded [OF Cons.prems, of e], unfolded send_queue send_capacity]
    room by (simp only: append_assoc)
  also have "\<dots> = queue s @ take (capacity s - length (queue s)) (e # es)"
    by (cases "capacity s - length (queue s)") simp_all
  finally show ?case .
qed

end

end
