(* ===== verification/Go_Std.thy ===== *)
theory Go_Std
  imports Zask_Prelude "HOL-Library.Sublist"
begin

text \<open>
  The functions of the Go standard library that the daemon calls on strings and byte
  slices. A Go string is its bytes, one \<open>char\<close> each; a byte slice is a list of bytes, and
  \<open>string(bytes)\<close> is \<open>map byte_char\<close>.
\<close>

section \<open>Package strings\<close>

definition HasPrefix :: "string \<Rightarrow> string \<Rightarrow> bool" where
  "HasPrefix s p \<longleftrightarrow> take (length p) s = p"

text \<open>The position of the first and of the last occurrence of a substring.\<close>

fun Index :: "string \<Rightarrow> string \<Rightarrow> nat option" where
  "Index [] sub = (if sub = [] then Some 0 else None)"
| "Index (c # s) sub =
     (if HasPrefix (c # s) sub then Some 0 else map_option Suc (Index s sub))"

fun LastIndex :: "string \<Rightarrow> string \<Rightarrow> nat option" where
  "LastIndex [] sub = (if sub = [] then Some 0 else None)"
| "LastIndex (c # s) sub =
     (case LastIndex s sub of
        Some i \<Rightarrow> Some (Suc i)
      | None \<Rightarrow> if HasPrefix (c # s) sub then Some 0 else None)"

section \<open>Package path/filepath\<close>

definition slash :: char where "slash = CHR ''/''"

definition Base :: "string \<Rightarrow> string" where
  "Base path =
     (if path = [] then ''.''
      else let stripped = rev (dropWhile (\<lambda>c. c = slash) (rev path));
               name = rev (takeWhile (\<lambda>c. c \<noteq> slash) (rev stripped))
           in if name = [] then ''/'' else name)"

section \<open>Package bytes\<close>

text \<open>\<open>bytes.Split(data, []byte{0})\<close>: the pieces between the NUL bytes, at least one.\<close>

fun Split_nul :: "u8 list \<Rightarrow> u8 list list" where
  "Split_nul [] = [[]]"
| "Split_nul (b # bs) =
     (if b = 0 then [] # Split_nul bs
      else case Split_nul bs of
             piece # pieces \<Rightarrow> (b # piece) # pieces
           | [] \<Rightarrow> [[b]])"

section \<open>Lemmas\<close>

lemma append_sep_inject:
  "c \<notin> set a \<Longrightarrow> c \<notin> set b \<Longrightarrow> a @ c # x = b @ c # y \<longleftrightarrow> a = b \<and> x = y"
proof (induction a arbitrary: b)
  case Nil
  then show ?case by (cases b) auto
next
  case (Cons d a)
  then show ?case by (cases b) auto
qed

lemma HasPrefix_prefix: "HasPrefix s p \<longleftrightarrow> prefix p s"
  unfolding HasPrefix_def prefix_def by (metis append_eq_conv_conj)

lemma HasPrefix_single [simp]: "HasPrefix s [c] \<longleftrightarrow> s \<noteq> [] \<and> hd s = c"
  by (cases s) (auto simp: HasPrefix_def)

lemma Index_Some: "Index s sub = Some i \<Longrightarrow> i \<le> length s \<and> take (length sub) (drop i s) = sub"
  by (induction s arbitrary: i) (auto simp: HasPrefix_def split: if_splits)

lemma LastIndex_Some:
  "LastIndex s sub = Some i \<Longrightarrow> i \<le> length s \<and> take (length sub) (drop i s) = sub"
  by (induction s arbitrary: i) (auto simp: HasPrefix_def split: if_splits option.splits)

lemma Base_rev:
  assumes "name \<noteq> []" "slash \<notin> set name" "takeWhile (\<lambda>c. c \<noteq> slash) rest = []"
  shows "Base (rev rest @ name) = name"
proof -
  obtain c cs where c: "rev name = c # cs" "c \<noteq> slash"
    using assms(1,2) by (cases "rev name") (auto simp: in_set_conv_decomp dest!: arg_cong [of _ _ set])
  have "takeWhile (\<lambda>c. c \<noteq> slash) (rev name @ rest) = rev name"
    using assms(2,3) by (subst takeWhile_append2) auto
  moreover have "dropWhile (\<lambda>c. c = slash) (rev name @ rest) = rev name @ rest"
    using c by simp
  ultimately show ?thesis using assms(1) by (simp add: Base_def)
qed

lemma Base_noslash: "s \<noteq> [] \<Longrightarrow> slash \<notin> set s \<Longrightarrow> Base s = s"
  using Base_rev [of s "[]"] by simp

lemma Base_path: "name \<noteq> [] \<Longrightarrow> slash \<notin> set name \<Longrightarrow> Base (dir @ [slash] @ name) = name"
  using Base_rev [of name "slash # rev dir"] by simp

lemma Split_nul_ne [simp]: "Split_nul bs \<noteq> []"
  by (induction bs) (auto split: list.split)

lemma Split_nul_no_zero: "0 \<notin> set a \<Longrightarrow> Split_nul (a @ 0 # bs) = a # Split_nul bs"
  by (induction a) auto

lemma Split_nul_args:
  "\<forall>a \<in> set args. 0 \<notin> set a \<Longrightarrow>
     Split_nul (concat (map (\<lambda>a. a @ [0]) args)) = args @ [[]]"
  by (induction args) (simp_all add: Split_nul_no_zero)

end
