(* ===== verification/Script_Resolver.thy ===== *)
theory Script_Resolver
  imports Go_Std
begin

text \<open>
  \<open>internal/ebpf/resolver.go\<close>: finding the script an interpreter runs from the NUL-separated
  argument list in \<open>/proc/[pid]/cmdline\<close>. The content of the file, or that it cannot be
  read, is an argument.
\<close>

section \<open>Definitions\<close>

fun findScriptInArgs :: "u8 list list \<Rightarrow> string" where
  "findScriptInArgs [] = ''''"
| "findScriptInArgs (arg # args) =
     (let s = map byte_char arg in
      if s = '''' then findScriptInArgs args
      else if HasPrefix s ''-'' then findScriptInArgs args
      else if HasPrefix s ''/'' \<or> HasPrefix s ''./'' \<or> HasPrefix s ''../'' then s
      else s)"

definition FindScriptPath :: "u32 \<Rightarrow> u8 list option \<Rightarrow> string" where
  "FindScriptPath pid cmdline =
     (if pid = 0 then ''''
      else case cmdline of
             None \<Rightarrow> ''''
           | Some bytes \<Rightarrow>
               let args = Split_nul bytes in
               if length args > 1 then findScriptInArgs (drop 1 args) else '''')"

section \<open>Lemmas\<close>

definition script_candidate :: "string \<Rightarrow> bool" where
  "script_candidate s \<longleftrightarrow> s \<noteq> '''' \<and> hd s \<noteq> CHR ''-''"

lemma findScriptInArgs_find:
  "findScriptInArgs args =
     (case find script_candidate (map (map byte_char) args) of None \<Rightarrow> '''' | Some s \<Rightarrow> s)"
  by (induction args) (auto simp: script_candidate_def Let_def)

lemma findScriptInArgs_append_empty: "findScriptInArgs (args @ [[]]) = findScriptInArgs args"
  by (induction args) (auto simp: Let_def)

lemma FindScriptPath_args:
  assumes "pid \<noteq> 0" "args \<noteq> []" "\<forall>a \<in> set args. 0 \<notin> set a"
  shows "FindScriptPath pid (Some (concat (map (\<lambda>a. a @ [0]) args))) = findScriptInArgs (tl args)"
  using assms
  by (cases args) (simp_all add: FindScriptPath_def Split_nul_args [simplified]
      Split_nul_no_zero findScriptInArgs_append_empty)

lemma findScriptInArgs_candidate:
  "findScriptInArgs args \<noteq> '''' \<Longrightarrow> script_candidate (findScriptInArgs args)"
  by (induction args) (auto simp: script_candidate_def Let_def split: if_splits)

end
