(* ===== verification/Kernel_Types.thy ===== *)
theory Kernel_Types
  imports Zask_Prelude "HOL-Library.AList"
begin

text \<open>
  The data of the kernel side: the kernel structures of \<open>bpf/vmlinux.h\<close> that the hooks
  read, the constants, structs and maps of \<open>bpf/zask.c\<close>, and what the kernel supplies to one
  invocation of a hook (the results of the helpers that observe the running system). A
  pointer is a 64-bit address; the kernel's objects are stores from addresses to structs,
  so a read through a pointer that is not mapped is a case of its own.
\<close>

section \<open>Constants of zask.c\<close>

definition ARGV_MAX :: nat where "ARGV_MAX = 256"
definition HASH_SIZE :: nat where "HASH_SIZE = 32"
definition VERDICT_ALLOW :: u32 where "VERDICT_ALLOW = 0"
definition VERDICT_BLOCK :: u32 where "VERDICT_BLOCK = 1"
definition SIG_KILL :: u32 where "SIG_KILL = 9"
definition SIG_TERM :: u32 where "SIG_TERM = 15"
definition EPERM :: int where "EPERM = 1"

lemmas zask_consts = ARGV_MAX_def HASH_SIZE_def VERDICT_ALLOW_def VERDICT_BLOCK_def
  SIG_KILL_def SIG_TERM_def EPERM_def

lemma verdict_distinct [simp]:
  "VERDICT_ALLOW \<noteq> VERDICT_BLOCK" "VERDICT_BLOCK \<noteq> VERDICT_ALLOW"
  by (simp_all add: zask_consts)

section \<open>Kernel structures (vmlinux.h)\<close>

type_synonym ptr = u64

record super_block =
  s_dev :: u32

record inode =
  i_ino :: u64
  i_sb :: ptr

record kfile =
  f_inode :: ptr

record linux_binprm =
  bprm_file :: ptr
  bprm_argc :: u32
  bprm_envc :: u32
  bprm_filename :: ptr

record mm_struct =
  arg_start :: u64
  arg_end :: u64

record task_struct =
  t_pid :: u32
  t_tgid :: u32
  t_flags :: u32
  t_mm :: ptr
  t_parent :: ptr
  t_real_parent :: ptr

text \<open>The structures behind the parameters the hooks do not look at.\<close>

record path =
  pa_mnt :: ptr
  pa_dentry :: ptr

record cred =
  cr_uid :: u32
  cr_gid :: u32
  cr_euid :: u32
  cr_egid :: u32

record kernel_siginfo =
  si_signo :: "32 word"

text \<open>
  Memory as the hooks can read it: one store per kernel structure, kernel bytes (for
  \<open>bprm->filename\<close>) and the bytes of the current task's user memory. What a failed read
  leaves in its destination is not documented by \<open>bpf_helper_defs.h\<close>, so it is a
  component of the memory that no definition fixes.
\<close>

record kmem =
  km_file :: "ptr \<Rightarrow> kfile option"
  km_inode :: "ptr \<Rightarrow> inode option"
  km_sb :: "ptr \<Rightarrow> super_block option"
  km_task :: "ptr \<Rightarrow> task_struct option"
  km_mm :: "ptr \<Rightarrow> mm_struct option"
  km_byte :: "ptr \<Rightarrow> u8 option"
  um_byte :: "ptr \<Rightarrow> u8 option"
  fault_word :: u64
  fault_bytes :: "u8 list"

section \<open>Structs of zask.c\<close>

type_synonym hash = "u8 list"

record exec_key =
  ek_parent :: hash
  ek_child :: hash

record event =
  e_inode_number :: u64
  e_cgroup_id :: u64
  e_pid :: u32
  e_ppid :: u32
  e_uid :: u32
  e_device_id :: u32
  e_is_map_hit :: u8
  e_hash_available :: u8
  e_hash :: hash
  e_parent_hash_available :: u8
  e_parent_hash :: hash
  e_argv :: "u8 list"
  e_script_argv :: "u8 list"

definition zero_hash :: hash where
  "zero_hash = replicate HASH_SIZE 0"

definition hash_wf :: "hash \<Rightarrow> bool" where
  "hash_wf h \<longleftrightarrow> length h = HASH_SIZE"

definition exec_key_wf :: "exec_key \<Rightarrow> bool" where
  "exec_key_wf k \<longleftrightarrow> hash_wf (ek_parent k) \<and> hash_wf (ek_child k)"

definition event_wf :: "event \<Rightarrow> bool" where
  "event_wf e \<longleftrightarrow> hash_wf (e_hash e) \<and> hash_wf (e_parent_hash e)
     \<and> length (e_argv e) = ARGV_MAX \<and> length (e_script_argv e) = ARGV_MAX"

lemma zero_hash_wf [simp, kwf]: "hash_wf zero_hash"
  by (simp add: hash_wf_def zero_hash_def)

lemma event_wfD [kwf]:
  assumes "event_wf e"
  shows "hash_wf (e_hash e)" "hash_wf (e_parent_hash e)"
    "length (e_argv e) = ARGV_MAX" "length (e_script_argv e) = ARGV_MAX"
  using assms by (simp_all add: event_wf_def)

section \<open>Maps of zask.c\<close>

text \<open>
  A hash map is the list of its entries (keys distinct), a per-CPU array is the list over
  the CPUs of that CPU's cells, the ring buffer is the list of the submitted records in the
  order of submission. The capacities are those of the map definitions.
\<close>

type_synonym ('k, 'v) bpf_map = "('k \<times> 'v) list"
type_synonym percpu_array = "u64 list list"

definition VERDICT_MAP_MAX :: nat where "VERDICT_MAP_MAX = 10000"
definition PID_HASH_MAP_MAX :: nat where "PID_HASH_MAP_MAX = 65536"
definition EVENTS_BYTES :: nat where "EVENTS_BYTES = 256 * 1024"
definition PROTECTED_PIDS_MAX :: nat where "PROTECTED_PIDS_MAX = 16"
definition COUNTER_ENTRIES :: nat where "COUNTER_ENTRIES = 1"

record kmaps =
  verdict_map :: "(exec_key, u32) bpf_map"
  pid_hash_map :: "(u32, hash) bpf_map"
  events :: "event list"
  protected_pids :: "(u32, u32) bpf_map"
  drop_counter :: percpu_array
  baseline_allow_counter :: percpu_array

text \<open>The maps of a freshly loaded program on a machine with \<open>n\<close> CPUs.\<close>

definition fresh_kmaps :: "nat \<Rightarrow> kmaps" where
  "fresh_kmaps n = \<lparr>verdict_map = [], pid_hash_map = [], events = [], protected_pids = [],
     drop_counter = replicate n (replicate COUNTER_ENTRIES 0),
     baseline_allow_counter = replicate n (replicate COUNTER_ENTRIES 0)\<rparr>"

section \<open>What the kernel supplies to one invocation\<close>

text \<open>
  \<open>he_ima\<close> is the result of \<open>bpf_ima_file_hash\<close> on a file: the return value and the
  bytes the helper writes. \<open>he_reserve\<close> is the record that \<open>bpf_ringbuf_reserve\<close>
  returns, with the bytes that the memory held before, or \<open>None\<close> for NULL.
  \<open>he_lru_victims\<close> and \<open>he_lru_ok\<close> are the choices of the LRU map on an update: the
  keys it evicts and whether it finds an element.
\<close>

record hook_env =
  he_cpu :: nat
  he_pid_tgid :: u64
  he_uid_gid :: u64
  he_cgroup_id :: u64
  he_task :: ptr
  he_mem :: kmem
  he_ima :: "ptr \<Rightarrow> int \<times> u8 list"
  he_lru_victims :: "u32 list"
  he_lru_ok :: bool
  he_reserve :: "event option"

end
