(* ===== verification/Content_Cache.thy ===== *)
theory Content_Cache
  imports Kernel_Types "HOL-Library.Multiset"
begin

text \<open>
  Tier 1 of the policy engine, \<open>ContentCache\<close> of \<open>internal/engine/engine.go\<close>: the
  exec-chain keys already judged harmless, each with the time at which it expires. Times
  are nanoseconds; every \<open>time.Now()\<close> is an argument. Go iterates over a map in an
  unspecified order, so the iteration order is an argument too: a function that arranges
  the entries.
\<close>

section \<open>Definitions\<close>

type_synonym cache_entries = "(exec_key \<times> int) list"

record ContentCache =
  cc_entries :: cache_entries
  cc_ttl :: int
  cc_maxSize :: int

definition NewContentCache :: "int \<Rightarrow> int \<Rightarrow> ContentCache" where
  "NewContentCache maxSize ttl = \<lparr>cc_entries = [], cc_ttl = ttl, cc_maxSize = maxSize\<rparr>"

definition Contains :: "int \<Rightarrow> exec_key \<Rightarrow> ContentCache \<Rightarrow> bool \<times> ContentCache" where
  "Contains now key c =
     (case map_of (cc_entries c) key of
        None \<Rightarrow> (False, c)
      | Some expiry \<Rightarrow>
          if now > expiry then (False, c\<lparr>cc_entries := AList.delete key (cc_entries c)\<rparr>)
          else (True, c))"

fun evict_expired :: "int \<Rightarrow> cache_entries \<Rightarrow> cache_entries \<Rightarrow> cache_entries" where
  "evict_expired now [] m = m"
| "evict_expired now ((k, exp) # rest) m =
     evict_expired now rest (if now > exp then AList.delete k m else m)"

text \<open>The loop variables \<open>first\<close>, \<open>oldestKey\<close> and \<open>oldestTime\<close>.\<close>

fun find_oldest :: "cache_entries \<Rightarrow> bool \<times> exec_key \<times> int \<Rightarrow> bool \<times> exec_key \<times> int" where
  "find_oldest [] acc = acc"
| "find_oldest ((k, exp) # rest) (first, oldestKey, oldestTime) =
     find_oldest rest
       (if first \<or> exp < oldestTime then (False, k, exp) else (first, oldestKey, oldestTime))"

definition zero_exec_key :: exec_key where
  "zero_exec_key = \<lparr>ek_parent = zero_hash, ek_child = zero_hash\<rparr>"

definition Add :: "(cache_entries \<Rightarrow> cache_entries) \<Rightarrow> int \<Rightarrow> int \<Rightarrow> exec_key \<Rightarrow> ContentCache
    \<Rightarrow> ContentCache" where
  "Add order now now' key c =
     (let m = cc_entries c;
          m1 = (if int (length m) \<ge> cc_maxSize c then evict_expired now (order m) m else m);
          m2 = (if int (length m1) \<ge> cc_maxSize c then
                  let (first, oldestKey, oldestTime) =
                        find_oldest (order m1) (True, zero_exec_key, 0)
                  in AList.delete oldestKey m1
                else m1)
      in c\<lparr>cc_entries := AList.update key (now' + cc_ttl c) m2\<rparr>)"

definition Size :: "ContentCache \<Rightarrow> int" where
  "Size c = int (length (cc_entries c))"

definition Clear :: "ContentCache \<Rightarrow> ContentCache" where
  "Clear c = c\<lparr>cc_entries := []\<rparr>"

text \<open>An iteration visits every entry once.\<close>

definition order_ok :: "(cache_entries \<Rightarrow> cache_entries) \<Rightarrow> bool" where
  "order_ok order \<longleftrightarrow> (\<forall>m. mset (order m) = mset m)"

definition cache_wf :: "ContentCache \<Rightarrow> bool" where
  "cache_wf c \<longleftrightarrow> distinct (map fst (cc_entries c)) \<and> Size c \<le> max 1 (cc_maxSize c)"

section \<open>The eviction loops\<close>

lemma order_set: "order_ok order \<Longrightarrow> set (order m) = set m"
  unfolding order_ok_def by (metis set_mset_mset)

lemma evict_expired_filter:
  "evict_expired now its m =
     filter (\<lambda>(k, e). \<not> (\<exists>e'. (k, e') \<in> set its \<and> e' < now)) m"
proof (induction its arbitrary: m)
  case Nil
  then show ?case by (simp add: case_prod_unfold)
next
  case (Cons it its)
  obtain k e where "it = (k, e)" by (cases it)
  then show ?case
    by (auto simp: Cons.IH AList.delete_eq filter_filter intro!: filter_cong)
qed

lemma evict_expired_self:
  assumes "distinct (map fst m)" "set its = set m"
  shows "evict_expired now its m = filter (\<lambda>(k, e). now \<le> e) m"
proof -
  have "e' = e" if "(k, e) \<in> set m" "(k, e') \<in> set m" for k e e'
    using that assms(1) by (metis Some_eq_map_of_iff option.inject)
  then have "(\<exists>e'. (k, e') \<in> set its \<and> e' < now) \<longleftrightarrow> e < now" if "(k, e) \<in> set m" for k e
    using that assms(2) by blast
  note iff = this
  show ?thesis
    unfolding evict_expired_filter
    by (rule filter_cong) (use iff in \<open>auto simp: not_less [symmetric] simp del: not_less\<close>)
qed

lemma find_oldest_acc:
  assumes "find_oldest its (False, k, t) = (f, k', t')"
  shows "\<not> f \<and> (k', t') \<in> insert (k, t) (set its) \<and> (\<forall>(j, e) \<in> insert (k, t) (set its). t' \<le> e)"
  using assms
proof (induction its arbitrary: k t)
  case Nil
  then show ?case by auto
next
  case (Cons it its)
  obtain j e where it: "it = (j, e)" by (cases it)
  show ?case
  proof (cases "e < t")
    case True
    then show ?thesis using Cons.IH [of j e] Cons.prems it by fastforce
  next
    case False
    then show ?thesis using Cons.IH [of k t] Cons.prems it by fastforce
  qed
qed

lemma find_oldest_min:
  assumes "its \<noteq> []" "find_oldest its (True, k0, t0) = (f, k, t)"
  shows "(k, t) \<in> set its" "(j, e) \<in> set its \<Longrightarrow> t \<le> e"
proof -
  obtain j' e' rest where its: "its = (j', e') # rest" using assms(1) by (cases its) auto
  from find_oldest_acc [of rest j' e' f k t] assms(2) its
  show "(k, t) \<in> set its" "(j, e) \<in> set its \<Longrightarrow> t \<le> e" by auto
qed

lemma length_alist_delete_mem:
  "distinct (map fst m) \<Longrightarrow> k \<in> fst ` set m \<Longrightarrow> length (AList.delete k m) = length m - 1"
proof (induction m)
  case (Cons a m)
  have "AList.delete k m = m" if "k \<notin> fst ` set m"
    using that by (force simp: AList.delete_eq filter_id_conv)
  moreover have "m \<noteq> []" if "k \<in> fst ` set m" using that by auto
  ultimately show ?case
    using Cons by (cases "k \<in> fst ` set m"; cases a; cases m) auto
qed simp

section \<open>Effect of the operations\<close>

text \<open>What stays in the cache when room is made.\<close>

definition make_room :: "(cache_entries \<Rightarrow> cache_entries) \<Rightarrow> int \<Rightarrow> int \<Rightarrow> cache_entries \<Rightarrow> cache_entries"
  where
  "make_room order now cap m =
     (let m1 = (if int (length m) \<ge> cap then evict_expired now (order m) m else m)
      in if int (length m1) \<ge> cap
         then AList.delete (fst (snd (find_oldest (order m1) (True, zero_exec_key, 0)))) m1
         else m1)"

lemma Add_make_room:
  "Add order now now' key c =
     c\<lparr>cc_entries := AList.update key (now' + cc_ttl c)
        (make_room order now (cc_maxSize c) (cc_entries c))\<rparr>"
  by (simp add: Add_def make_room_def Let_def case_prod_unfold)

lemma evict_expired_lookup: "map_of (evict_expired now its m) k \<in> {None, map_of m k}"
proof (induction its arbitrary: m)
  case (Cons it its)
  show ?case
    using Cons [of m] Cons [of "AList.delete (fst it) m"]
    by (cases it) (auto simp: delete_conv')
qed simp

lemma make_room_lookup: "map_of (make_room order now cap m) k \<in> {None, map_of m k}"
  using evict_expired_lookup [of now "order m" m k]
  by (auto simp: make_room_def Let_def delete_conv')

lemma evict_expired_distinct:
  "distinct (map fst m) \<Longrightarrow> distinct (map fst (evict_expired now its m))"
  unfolding evict_expired_filter by (rule distinct_map_filter)

lemma make_room_distinct:
  "distinct (map fst m) \<Longrightarrow> distinct (map fst (make_room order now cap m))"
  by (simp add: make_room_def Let_def evict_expired_distinct distinct_delete)

lemma make_room_length:
  assumes "distinct (map fst m)" "order_ok order" "int (length m) \<le> max 1 cap"
  shows "int (length (make_room order now cap m)) < max 1 cap"
proof -
  define r where "r = (if int (length m) \<ge> cap then evict_expired now (order m) m else m)"
  have r: "distinct (map fst r)"
    using assms(1) by (simp add: r_def evict_expired_distinct)
  have le: "length r \<le> length m" by (simp add: r_def evict_expired_filter)
  have room: "make_room order now cap m =
      (if int (length r) \<ge> cap
       then AList.delete (fst (snd (find_oldest (order r) (True, zero_exec_key, 0)))) r else r)"
    unfolding make_room_def Let_def r_def by (rule refl)
  show ?thesis
  proof (cases "int (length r) \<ge> cap \<and> r \<noteq> []")
    case False
    then show ?thesis
      using le assms(3) by (auto simp: room)
  next
    case True
    obtain f k t where fo: "find_oldest (order r) (True, zero_exec_key, 0) = (f, k, t)"
      by (metis prod_cases3)
    have "order r \<noteq> []" using True order_set [OF assms(2), of r] by auto
    then have "(k, t) \<in> set r"
      using find_oldest_min(1) [OF _ fo] order_set [OF assms(2), of r] by simp
    then have "length (AList.delete k r) = length r - 1"
      using r by (intro length_alist_delete_mem) force+
    then show ?thesis
      using True le assms(3) fo by (cases r) (auto simp: room)
  qed
qed

lemma Contains_lookup:
  "fst (Contains now key c) \<longleftrightarrow> (\<exists>e. map_of (cc_entries c) key = Some e \<and> now \<le> e)"
  by (auto simp: Contains_def split: option.split)

lemma Contains_entries:
  "map_of (cc_entries (snd (Contains now key c))) k =
     (if k = key \<and> \<not> fst (Contains now key c) then None else map_of (cc_entries c) k)"
  by (auto simp: Contains_def delete_conv' split: option.split)

lemma Add_lookup_same: "map_of (cc_entries (Add order now now' key c)) key = Some (now' + cc_ttl c)"
  by (simp add: Add_make_room update_conv')

lemma Add_lookup_other:
  "k \<noteq> key \<Longrightarrow> map_of (cc_entries (Add order now now' key c)) k \<in> {None, map_of (cc_entries c) k}"
  using make_room_lookup [of order now "cc_maxSize c" "cc_entries c" k]
  by (simp add: Add_make_room update_conv')

lemma cache_frame [simp]:
  "cc_ttl (snd (Contains now key c)) = cc_ttl c"
  "cc_maxSize (snd (Contains now key c)) = cc_maxSize c"
  "cc_ttl (Add order now now' key c) = cc_ttl c"
  "cc_maxSize (Add order now now' key c) = cc_maxSize c"
  "cc_ttl (Clear c) = cc_ttl c" "cc_maxSize (Clear c) = cc_maxSize c"
  "cc_entries (Clear c) = []"
  by (auto simp: Contains_def Add_make_room Clear_def split: option.split)

section \<open>The invariant\<close>

lemma cache_wf_new: "cache_wf (NewContentCache maxSize ttl)"
  by (simp add: cache_wf_def NewContentCache_def Size_def)

lemma length_alist_delete_le: "length (AList.delete k m) \<le> length m"
  by (simp add: AList.delete_eq)

lemma Contains_wf: "cache_wf c \<Longrightarrow> cache_wf (snd (Contains now key c))"
  using length_alist_delete_le [of key "cc_entries c"]
  by (auto simp: cache_wf_def Contains_def Size_def distinct_delete split: option.split)

lemma length_alist_update_le: "length (AList.update k v m) \<le> Suc (length m)"
  by (induction m) auto

lemma Add_wf: "cache_wf c \<Longrightarrow> order_ok order \<Longrightarrow> cache_wf (Add order now now' key c)"
  using make_room_length [of "cc_entries c" order "cc_maxSize c" now]
    length_alist_update_le [of key "now' + cc_ttl c"
      "make_room order now (cc_maxSize c) (cc_entries c)"]
  by (auto simp: cache_wf_def Size_def Add_make_room make_room_distinct distinct_update)

lemma Clear_wf: "cache_wf c \<Longrightarrow> cache_wf (Clear c)"
  by (simp add: cache_wf_def Clear_def Size_def)

section \<open>Histories\<close>

text \<open>
  A store of keys with an expiry, as its clients see it: an operation may add a key with
  an expiry, may forget everything, and may drop entries, but invents none. Then an entry
  is always the trace of an addition that no later operation undid.
\<close>

locale expiring_store = step_invariant step ok inv
  for step :: "'o \<Rightarrow> 'c \<Rightarrow> 'c" and ok :: "'o \<Rightarrow> bool" and inv :: "'c \<Rightarrow> bool" +
  fixes expiry :: "'c \<Rightarrow> 'k \<Rightarrow> int option"
    and adds :: "'o \<Rightarrow> ('k \<times> int) option"
    and clears :: "'o \<Rightarrow> bool"
  assumes step_expiry: "inv c \<Longrightarrow> ok a \<Longrightarrow> expiry (step a c) k = Some t \<Longrightarrow>
      adds a = Some (k, t) \<or> (\<not> clears a \<and> expiry c k = Some t)"
begin

lemma run_expiry:
  assumes "inv c" "list_all ok as" "expiry (fold step as c) k = Some t"
  shows "(\<exists>as1 a as2. as = as1 @ a # as2 \<and> adds a = Some (k, t) \<and> \<not> list_ex clears as2)
    \<or> (\<not> list_ex clears as \<and> expiry c k = Some t)"
  using assms
proof (induction as arbitrary: c)
  case Nil
  then show ?case by simp
next
  case (Cons a as)
  have "inv (step a c)" using Cons.prems by (auto intro: step_inv)
  from Cons.IH [OF this] Cons.prems
  consider (later) as1 b as2 where "as = as1 @ b # as2" "adds b = Some (k, t)" "\<not> list_ex clears as2"
    | (before) "\<not> list_ex clears as" "expiry (step a c) k = Some t"
    by auto
  then show ?case
  proof cases
    case later
    then have "a # as = (a # as1) @ b # as2" by simp
    with later show ?thesis by blast
  next
    case before
    with Cons.prems step_expiry [of c a k t] consider
      (here) "adds a = Some (k, t)" | (old) "\<not> clears a" "expiry c k = Some t" by auto
    then show ?thesis
    proof cases
      case here
      with before show ?thesis by (metis append_Nil)
    next
      case old
      with before show ?thesis by simp
    qed
  qed
qed

end

datatype cache_op =
    Cache_Contains int exec_key
  | Cache_Add "cache_entries \<Rightarrow> cache_entries" int int exec_key
  | Cache_Clear

fun cache_step :: "cache_op \<Rightarrow> ContentCache \<Rightarrow> ContentCache" where
  "cache_step (Cache_Contains now key) c = snd (Contains now key c)"
| "cache_step (Cache_Add order now now' key) c = Add order now now' key c"
| "cache_step Cache_Clear c = Clear c"

fun cache_op_ok :: "cache_op \<Rightarrow> bool" where
  "cache_op_ok (Cache_Add order now now' key) \<longleftrightarrow> order_ok order"
| "cache_op_ok _ \<longleftrightarrow> True"

fun cache_adds :: "int \<Rightarrow> cache_op \<Rightarrow> (exec_key \<times> int) option" where
  "cache_adds ttl (Cache_Add order now now' key) = Some (key, now' + ttl)"
| "cache_adds ttl _ = None"

fun cache_clears :: "cache_op \<Rightarrow> bool" where
  "cache_clears Cache_Clear \<longleftrightarrow> True"
| "cache_clears _ \<longleftrightarrow> False"

definition cache_of :: "int \<Rightarrow> int \<Rightarrow> ContentCache \<Rightarrow> bool" where
  "cache_of maxSize ttl c \<longleftrightarrow> cache_wf c \<and> cc_maxSize c = maxSize \<and> cc_ttl c = ttl"

lemma cache_of_new: "cache_of maxSize ttl (NewContentCache maxSize ttl)"
  using cache_wf_new by (simp add: cache_of_def) (simp add: NewContentCache_def)

interpretation ccache: expiring_store cache_step cache_op_ok "cache_of maxSize ttl"
  "\<lambda>c. map_of (cc_entries c)" "cache_adds ttl" cache_clears
  for maxSize ttl
proof unfold_locales
  fix c a
  assume "cache_of maxSize ttl c" "cache_op_ok a"
  then show "cache_of maxSize ttl (cache_step a c)"
    by (cases a) (auto simp: cache_of_def Contains_wf Add_wf Clear_wf)
next
  fix c a k t
  assume "cache_of maxSize ttl c" "map_of (cc_entries (cache_step a c)) k = Some t"
  then show "cache_adds ttl a = Some (k, t) \<or> \<not> cache_clears a \<and> map_of (cc_entries c) k = Some t"
  proof (cases a)
    case (Cache_Add order now now' key)
    then show ?thesis
      using \<open>cache_of maxSize ttl c\<close> \<open>map_of (cc_entries (cache_step a c)) k = Some t\<close>
        Add_lookup_other [of k key order now now' c]
      by (cases "k = key") (auto simp: Add_lookup_same cache_of_def)
  qed (auto simp: Contains_entries split: if_splits)
qed

end
