(* ===== verification/Event_Codec.thy ===== *)
theory Event_Codec
  imports Kernel_Types
begin

text \<open>
  The contract between the C \<open>struct event\<close> and the Go \<open>ZaskEvent\<close>: the bytes the kernel
  program leaves in the ring buffer (the target is \<open>bpfel\<close>, the layout that of the C
  struct, padded to a multiple of 8), and \<open>internal/ebpf/event.go\<close>, which reads them back
  field by field and derives strings and keys from the event.
\<close>

section \<open>The layout of struct event\<close>

definition EVENT_SIZE :: nat where "EVENT_SIZE = 616"

text \<open>\<open>pad\<close> are the five bytes of tail padding, which nobody writes.\<close>

definition event_bytes :: "u8 list \<Rightarrow> event \<Rightarrow> u8 list" where
  "event_bytes pad e =
     le_encode 8 (e_inode_number e) @ le_encode 8 (e_cgroup_id e) @
     le_encode 4 (e_pid e) @ le_encode 4 (e_ppid e) @
     le_encode 4 (e_uid e) @ le_encode 4 (e_device_id e) @
     [e_is_map_hit e, e_hash_available e] @ e_hash e @
     [e_parent_hash_available e] @ e_parent_hash e @
     e_argv e @ e_script_argv e @ pad"

section \<open>event.go\<close>

datatype decode_error = EOF | UnexpectedEOF

definition slice :: "nat \<Rightarrow> nat \<Rightarrow> 'a list \<Rightarrow> 'a list" where
  "slice off len xs = take len (drop off xs)"

text \<open>
  \<open>binary.Read\<close> into a struct of fixed size: the reader must hold that many bytes (what
  follows is not read), then the fields are taken in order.
\<close>

definition DecodeEvent :: "u8 list \<Rightarrow> decode_error + event" where
  "DecodeEvent raw =
     (if raw = [] then Inl EOF
      else if length raw < EVENT_SIZE then Inl UnexpectedEOF
      else Inr \<lparr>e_inode_number = le_decode (slice 0 8 raw),
                e_cgroup_id = le_decode (slice 8 8 raw),
                e_pid = le_decode (slice 16 4 raw),
                e_ppid = le_decode (slice 20 4 raw),
                e_uid = le_decode (slice 24 4 raw),
                e_device_id = le_decode (slice 28 4 raw),
                e_is_map_hit = le_decode (slice 32 1 raw),
                e_hash_available = le_decode (slice 33 1 raw),
                e_hash = slice 34 HASH_SIZE raw,
                e_parent_hash_available = le_decode (slice 66 1 raw),
                e_parent_hash = slice 67 HASH_SIZE raw,
                e_argv = slice 99 ARGV_MAX raw,
                e_script_argv = slice 355 ARGV_MAX raw\<rparr>)"

definition nullTerminatedInt8ToString :: "u8 list \<Rightarrow> string" where
  "nullTerminatedInt8ToString data = map byte_char (take (first_nul data) data)"

definition GetArgv :: "event \<Rightarrow> string" where
  "GetArgv e = nullTerminatedInt8ToString (e_argv e)"

definition GetScriptArgv :: "event \<Rightarrow> string" where
  "GetScriptArgv e = nullTerminatedInt8ToString (e_script_argv e)"

definition HashKey :: "event \<Rightarrow> hash" where
  "HashKey e = e_hash e"

definition ExecKey :: "event \<Rightarrow> exec_key" where
  "ExecKey e = \<lparr>ek_parent = e_parent_hash e, ek_child = e_hash e\<rparr>"

record ZaskInodeKey =
  ik_inode_number :: u64
  ik_device_id :: u32

definition InodeKey :: "event \<Rightarrow> ZaskInodeKey" where
  "InodeKey e = \<lparr>ik_inode_number = e_inode_number e, ik_device_id = e_device_id e\<rparr>"

section \<open>Identities of files (resolver.go)\<close>

text \<open>
  \<open>st\<close> is the inode and the device of the file that \<open>stat\<close> finds. The device is cut to 32
  bits. For the hash, \<open>contents\<close> is what opening and reading give, and \<open>sha256\<close> the digest.
\<close>

definition ResolvePathToInode :: "(u64 \<times> u64) option \<Rightarrow> ZaskInodeKey option" where
  "ResolvePathToInode st = map_option
     (\<lambda>(ino, dev). \<lparr>ik_inode_number = ino, ik_device_id = ucast dev\<rparr>) st"

datatype hash_error = Open_File | Hash_File

definition ComputeFileHash :: "(u8 list \<Rightarrow> u8 list) \<Rightarrow> u8 list option option \<Rightarrow> hash_error + hash" where
  "ComputeFileHash sha256 contents =
     (case contents of
        None \<Rightarrow> Inl Open_File
      | Some None \<Rightarrow> Inl Hash_File
      | Some (Some data) \<Rightarrow> Inr (store_bytes (replicate HASH_SIZE 0) (sha256 data)))"

section \<open>Lemmas\<close>

lemma ComputeFileHash_wf: "ComputeFileHash sha256 contents = Inr h \<Longrightarrow> hash_wf h"
  by (auto simp: ComputeFileHash_def hash_wf_def split: option.splits)

lemma ComputeFileHash_digest:
  "length (sha256 data) = HASH_SIZE \<Longrightarrow> ComputeFileHash sha256 (Some (Some data)) = Inr (sha256 data)"
  by (simp add: ComputeFileHash_def store_bytes_full)

text \<open>
  The key of an event and that of its file on disk are the same only as far as the device
  number fits into 32 bits.
\<close>

lemma InodeKey_on_disk:
  "ResolvePathToInode (Some (e_inode_number e, dev)) = Some (InodeKey e)
     \<longleftrightarrow> e_device_id e = ucast dev"
  by (auto simp: ResolvePathToInode_def InodeKey_def)

lemma slice_at:
  "length pre = off \<Longrightarrow> length mid = len \<Longrightarrow> slice off len (pre @ mid @ post) = mid"
  by (simp add: slice_def)

lemma length_slice: "off + len \<le> length xs \<Longrightarrow> length (slice off len xs) = len"
  by (simp add: slice_def)

lemma slice_slice_append:
  "slice off len xs @ slice (off + len) len' xs = slice off (len + len') xs"
  by (simp add: slice_def take_add add.commute)

lemma slice_append_left: "length pre = n \<Longrightarrow> n \<le> off \<Longrightarrow> slice off len (pre @ xs) = slice (off - n) len xs"
  by (simp add: slice_def)

lemma slice_prefix: "length pre = len \<Longrightarrow> slice 0 len (pre @ xs) = pre"
  by (simp add: slice_def)

lemma length_event_bytes:
  assumes "event_wf e"
  shows "length (event_bytes pad e) = 611 + length pad"
  using assms by (simp add: event_bytes_def event_wf_def hash_wf_def zask_consts)

lemma le_decode_single [simp]: "le_decode [b] = (b :: u8)"
  by simp

text \<open>Each field of the struct at its offset.\<close>

lemma event_bytes_fields:
  assumes "event_wf e"
  shows
    "slice 0 8 (event_bytes pad e) = le_encode 8 (e_inode_number e)"
    "slice 8 8 (event_bytes pad e) = le_encode 8 (e_cgroup_id e)"
    "slice 16 4 (event_bytes pad e) = le_encode 4 (e_pid e)"
    "slice 20 4 (event_bytes pad e) = le_encode 4 (e_ppid e)"
    "slice 24 4 (event_bytes pad e) = le_encode 4 (e_uid e)"
    "slice 28 4 (event_bytes pad e) = le_encode 4 (e_device_id e)"
    "slice 32 1 (event_bytes pad e) = [e_is_map_hit e]"
    "slice 33 1 (event_bytes pad e) = [e_hash_available e]"
    "slice 34 32 (event_bytes pad e) = e_hash e"
    "slice 66 1 (event_bytes pad e) = [e_parent_hash_available e]"
    "slice 67 32 (event_bytes pad e) = e_parent_hash e"
    "slice 99 256 (event_bytes pad e) = e_argv e"
    "slice 355 256 (event_bytes pad e) = e_script_argv e"
  using assms
  by (simp_all add: event_bytes_def event_wf_def hash_wf_def zask_consts slice_def)

lemma DecodeEvent_ok:
  "EVENT_SIZE \<le> length raw \<Longrightarrow> \<exists>e. DecodeEvent raw = Inr e \<and> event_wf e"
  by (auto simp: DecodeEvent_def EVENT_SIZE_def event_wf_def hash_wf_def zask_consts length_slice)

text \<open>Strings: what is stored before the first NUL comes back, whatever lies behind it.\<close>

lemma nullTerminated_string:
  assumes "0 \<notin> set s"
  shows "nullTerminatedInt8ToString (s @ 0 # rest) = map byte_char s"
  using assms by (simp add: nullTerminatedInt8ToString_def first_nul_append_zero)

lemma nullTerminated_full: "0 \<notin> set s \<Longrightarrow> nullTerminatedInt8ToString s = map byte_char s"
  by (simp add: nullTerminatedInt8ToString_def first_nul_no_zero)

lemma nullTerminated_store:
  assumes "0 \<notin> set s" "length s < length dst"
  shows "nullTerminatedInt8ToString (store_bytes dst (s @ [0])) = map byte_char s"
proof -
  have "store_bytes dst (s @ [0]) = s @ 0 # drop (Suc (length s)) dst"
    using assms by (simp add: store_bytes_def)
  then show ?thesis using assms by (simp add: nullTerminated_string)
qed

end
