(* ===== verification/Rule_Engine.thy ===== *)
theory Rule_Engine
  imports Event_Codec
begin

text \<open>
  Tier 2 of the policy engine: the static rules of \<open>internal/engine/engine.go\<close> and the
  reload loop of \<open>watcher.go\<close>. The CEL library, the YAML parser and the file watcher are
  not part of the repository; what the code uses of them is an argument: the record
  \<open>cel\<close>, a parser from the file's content to rules, and the watcher's events.
\<close>

section \<open>Rules\<close>

record rule_spec =
  rl_name :: string
  rl_description :: string
  rl_condition :: string
  rl_action :: string
  rl_severity :: string

record 'p rule = rule_spec +
  rl_program :: 'p

record activation =
  act_argv :: string
  act_script_path :: string
  act_pid :: int
  act_ppid :: int
  act_uid :: int
  act_cgroup_id :: int
  act_inode :: int

text \<open>An evaluation fails, gives \<open>types.True\<close>, or gives another value.\<close>

datatype cel_result = Eval_Error | Eval_True | Eval_Other

record ('a, 'p) cel =
  cel_Compile :: "string \<Rightarrow> 'a option"
  cel_OutputType_bool :: "'a \<Rightarrow> bool"
  cel_Program :: "'a \<Rightarrow> 'p option"
  cel_Eval :: "'p \<Rightarrow> activation \<Rightarrow> cel_result"

datatype rule_error =
    Read_Rules_File
  | Parse_Rules
  | Condition_Required string
  | Compile_Condition string
  | Condition_Not_Bool string
  | Create_Program string

section \<open>Loading\<close>

definition compile_rule :: "('a, 'p) cel \<Rightarrow> rule_spec \<Rightarrow> rule_error + 'p rule" where
  "compile_rule cel r =
     (if rl_condition r = '''' then Inl (Condition_Required (rl_name r))
      else case cel_Compile cel (rl_condition r) of
             None \<Rightarrow> Inl (Compile_Condition (rl_name r))
           | Some ast \<Rightarrow>
               if \<not> cel_OutputType_bool cel ast then Inl (Condition_Not_Bool (rl_name r))
               else case cel_Program cel ast of
                      None \<Rightarrow> Inl (Create_Program (rl_name r))
                    | Some prg \<Rightarrow>
                        Inr (rule_spec.extend (rule_spec.truncate r) \<lparr>rl_program = prg\<rparr>))"

fun compile_rules :: "('a, 'p) cel \<Rightarrow> rule_spec list \<Rightarrow> rule_error + 'p rule list" where
  "compile_rules cel [] = Inr []"
| "compile_rules cel (r # rs) =
     (case compile_rule cel r of
        Inl err \<Rightarrow> Inl err
      | Inr c \<Rightarrow>
          (case compile_rules cel rs of
             Inl err \<Rightarrow> Inl err
           | Inr cs \<Rightarrow> Inr (c # cs)))"

record 'p RuleEngine =
  re_rules :: "'p rule list"
  re_stopped :: bool

definition NewRuleEngine :: "'p RuleEngine" where
  "NewRuleEngine = \<lparr>re_rules = [], re_stopped = False\<rparr>"

text \<open>
  \<open>onReload\<close> acts on the state of the rule engine's owner and may be nil. The result is
  the error, if any, with the rule engine and the owner after the call.
\<close>

definition LoadFromBytes ::
    "('a, 'p) cel \<Rightarrow> ('d \<Rightarrow> rule_spec list option) \<Rightarrow> ('c \<Rightarrow> 'c) option \<Rightarrow> 'd
     \<Rightarrow> 'p RuleEngine \<times> 'c \<Rightarrow> rule_error option \<times> 'p RuleEngine \<times> 'c" where
  "LoadFromBytes cel unmarshal onReload data s =
     (case unmarshal data of
        None \<Rightarrow> (Some Parse_Rules, s)
      | Some specs \<Rightarrow>
          (case compile_rules cel specs of
             Inl err \<Rightarrow> (Some err, s)
           | Inr rules \<Rightarrow>
               (None, (fst s)\<lparr>re_rules := rules\<rparr>,
                case onReload of None \<Rightarrow> snd s | Some f \<Rightarrow> f (snd s))))"

definition LoadFromFile ::
    "('a, 'p) cel \<Rightarrow> ('d \<Rightarrow> rule_spec list option) \<Rightarrow> ('c \<Rightarrow> 'c) option \<Rightarrow> 'd option
     \<Rightarrow> 'p RuleEngine \<times> 'c \<Rightarrow> rule_error option \<times> 'p RuleEngine \<times> 'c" where
  "LoadFromFile cel unmarshal onReload content s =
     (case content of
        None \<Rightarrow> (Some Read_Rules_File, s)
      | Some data \<Rightarrow> LoadFromBytes cel unmarshal onReload data s)"

section \<open>Matching\<close>

definition activation_of :: "event \<Rightarrow> activation" where
  "activation_of ev =
     \<lparr>act_argv = GetArgv ev, act_script_path = GetScriptArgv ev,
      act_pid = uint (e_pid ev), act_ppid = uint (e_ppid ev), act_uid = uint (e_uid ev),
      act_cgroup_id = sint (e_cgroup_id ev), act_inode = sint (e_inode_number ev)\<rparr>"

fun match_loop :: "('a, 'p) cel \<Rightarrow> activation \<Rightarrow> 'p rule list \<Rightarrow> 'p rule option" where
  "match_loop cel act [] = None"
| "match_loop cel act (rule # rules) =
     (case cel_Eval cel (rl_program rule) act of
        Eval_Error \<Rightarrow> match_loop cel act rules
      | Eval_True \<Rightarrow> Some rule
      | Eval_Other \<Rightarrow> match_loop cel act rules)"

definition Match :: "('a, 'p) cel \<Rightarrow> event \<Rightarrow> 'p RuleEngine \<Rightarrow> 'p rule option" where
  "Match cel ev re = match_loop cel (activation_of ev) (re_rules re)"

section \<open>The watcher\<close>

text \<open>
  One iteration of the goroutine of \<open>watchFileInternal\<close>: the alternative the \<open>select\<close>
  takes, with the content of the rules file at that moment where the file is read. The
  result is \<open>None\<close> when the goroutine returns.
\<close>

datatype 'd watch_input =
    Stop_Closed
  | Fs_Event bool bool "'d option"
  | Events_Closed
  | Fs_Error
  | Errors_Closed
  | Sighup "'d option"

fun watch_step ::
    "('a, 'p) cel \<Rightarrow> ('d \<Rightarrow> rule_spec list option) \<Rightarrow> ('c \<Rightarrow> 'c) option \<Rightarrow> 'd watch_input
     \<Rightarrow> 'p RuleEngine \<times> 'c \<Rightarrow> ('p RuleEngine \<times> 'c) option" where
  "watch_step cel um f Stop_Closed s = None"
| "watch_step cel um f (Fs_Event is_write is_create content) s =
     Some (if is_write \<or> is_create then snd (LoadFromFile cel um f content s) else s)"
| "watch_step cel um f Events_Closed s = None"
| "watch_step cel um f Fs_Error s = Some s"
| "watch_step cel um f Errors_Closed s = None"
| "watch_step cel um f (Sighup content) s = Some (snd (LoadFromFile cel um f content s))"

text \<open>The state the goroutine leaves after a sequence of inputs.\<close>

fun watch_run ::
    "('a, 'p) cel \<Rightarrow> ('d \<Rightarrow> rule_spec list option) \<Rightarrow> ('c \<Rightarrow> 'c) option \<Rightarrow> 'd watch_input list
     \<Rightarrow> 'p RuleEngine \<times> 'c \<Rightarrow> 'p RuleEngine \<times> 'c" where
  "watch_run cel um f [] s = s"
| "watch_run cel um f (i # is) s =
     (case watch_step cel um f i s of None \<Rightarrow> s | Some s' \<Rightarrow> watch_run cel um f is s')"

definition Close_rules :: "'p RuleEngine \<Rightarrow> 'p RuleEngine" where
  "Close_rules re = (if \<not> re_stopped re then re\<lparr>re_stopped := True\<rparr> else re)"

section \<open>Lemmas\<close>

lemma match_loop_find:
  "match_loop cel act rules = find (\<lambda>r. cel_Eval cel (rl_program r) act = Eval_True) rules"
  by (induction rules) (auto split: cel_result.split)

lemma match_loop_skip:
  "\<forall>q \<in> set pre. cel_Eval cel (rl_program q) act \<noteq> Eval_True \<Longrightarrow>
     match_loop cel act (pre @ rules) = match_loop cel act rules"
  by (induction pre) (auto split: cel_result.split)

lemma match_loop_split:
  "match_loop cel act rules = Some r \<Longrightarrow>
     \<exists>pre post. rules = pre @ r # post \<and> cel_Eval cel (rl_program r) act = Eval_True
        \<and> (\<forall>q \<in> set pre. cel_Eval cel (rl_program q) act \<noteq> Eval_True)"
proof (induction rules)
  case (Cons q rules)
  show ?case
  proof (cases "cel_Eval cel (rl_program q) act = Eval_True")
    case True
    then have "q # rules = [] @ r # rules" using Cons.prems by simp
    with True Cons.prems show ?thesis by (intro exI [of _ "[]"] exI [of _ rules]) simp
  next
    case False
    then have "match_loop cel act rules = Some r"
      using Cons.prems by (cases "cel_Eval cel (rl_program q) act") simp_all
    then obtain pre post where "rules = pre @ r # post" "cel_Eval cel (rl_program r) act = Eval_True"
      "\<forall>q \<in> set pre. cel_Eval cel (rl_program q) act \<noteq> Eval_True"
      using Cons.IH by blast
    with False show ?thesis by (intro exI [of _ "q # pre"] exI [of _ post]) simp
  qed
qed simp

lemma match_loop_Some:
  "match_loop cel act rules = Some r \<longleftrightarrow>
     (\<exists>pre post. rules = pre @ r # post \<and> cel_Eval cel (rl_program r) act = Eval_True
        \<and> (\<forall>q \<in> set pre. cel_Eval cel (rl_program q) act \<noteq> Eval_True))"
  using match_loop_split [of cel act rules r]
  by (auto simp: match_loop_skip)

lemma match_loop_None:
  "match_loop cel act rules = None \<longleftrightarrow>
     (\<forall>r \<in> set rules. cel_Eval cel (rl_program r) act \<noteq> Eval_True)"
  unfolding match_loop_find find_None_iff by blast

lemma LoadFromBytes_error: "fst (LoadFromBytes cel um f data s) = Some e \<Longrightarrow>
    snd (LoadFromBytes cel um f data s) = s"
  by (auto simp: LoadFromBytes_def split: option.splits sum.splits)

lemma LoadFromFile_error: "fst (LoadFromFile cel um f content s) = Some e \<Longrightarrow>
    snd (LoadFromFile cel um f content s) = s"
  by (auto simp: LoadFromFile_def LoadFromBytes_error split: option.splits)

text \<open>What a compiled rule keeps of its source.\<close>

lemma compile_rule_Inr:
  assumes "compile_rule cel r = Inr c"
  shows "rule_spec.truncate c = rule_spec.truncate r" "rl_condition r \<noteq> ''''"
    "\<exists>ast. cel_Compile cel (rl_condition r) = Some ast \<and> cel_OutputType_bool cel ast
       \<and> cel_Program cel ast = Some (rl_program c)"
  using assms
  by (auto simp: compile_rule_def rule_spec.defs split: if_splits option.splits)

lemma compile_rules_Inr:
  "compile_rules cel rs = Inr cs \<Longrightarrow>
     list_all2 (\<lambda>r c. compile_rule cel r = Inr c) rs cs"
  by (induction rs arbitrary: cs) (auto split: sum.splits)

lemma compile_rules_names:
  "compile_rules cel rs = Inr cs \<Longrightarrow> map rule_spec.truncate cs = map rule_spec.truncate rs"
  by (induction rs arbitrary: cs) (auto dest: compile_rule_Inr(1) split: sum.splits)

lemma compile_rules_app:
  "compile_rules cel (pre @ r # post) = Inl e"
  if "compile_rules cel pre = Inr cs" "compile_rule cel r = Inl e"
  using that by (induction pre arbitrary: cs) (auto split: sum.splits)

lemma compile_rules_Inl:
  "compile_rules cel rs = Inl e \<Longrightarrow>
     \<exists>pre r post cs. rs = pre @ r # post \<and> compile_rules cel pre = Inr cs
       \<and> compile_rule cel r = Inl e"
proof (induction rs)
  case (Cons r rs)
  show ?case
  proof (cases "compile_rule cel r")
    case (Inl e')
    then have "r # rs = [] @ r # rs \<and> compile_rules cel [] = Inr [] \<and> compile_rule cel r = Inl e"
      using Cons.prems by simp
    then show ?thesis by blast
  next
    case (Inr c)
    then have "compile_rules cel rs = Inl e" using Cons.prems by (simp split: sum.splits)
    then obtain pre q post cs where rs: "rs = pre @ q # post" "compile_rules cel pre = Inr cs"
      "compile_rule cel q = Inl e"
      using Cons.IH by blast
    then have "r # rs = (r # pre) @ q # post \<and> compile_rules cel (r # pre) = Inr (c # cs)"
      using Inr by simp
    with rs(3) show ?thesis by blast
  qed
qed simp

end
