(* ===== verification/Bpf_Helpers.thy ===== *)
theory Bpf_Helpers
  imports Kernel_Types
begin

text \<open>
  The BPF helpers the hooks call, as \<open>bpf/headers/bpf/bpf_helper_defs.h\<close> documents them:
  lookup, update and delete on maps, the safe reads of kernel and user memory, and the
  \<open>BPF_CORE_READ\<close> macro of \<open>bpf_core_read.h\<close>. The laws of a map are stated once, as
  the locale \<open>bpf_hash\<close>, and both kinds of map the program declares interpret it.
\<close>

section \<open>Maps\<close>

definition bpf_map_lookup_elem :: "('k, 'v) bpf_map \<Rightarrow> 'k \<Rightarrow> 'v option" where
  "bpf_map_lookup_elem m k = map_of m k"

definition bpf_map_delete_elem :: "('k, 'v) bpf_map \<Rightarrow> 'k \<Rightarrow> ('k, 'v) bpf_map" where
  "bpf_map_delete_elem m k = AList.delete k m"

text \<open>
  \<open>bpf_map_update_elem\<close> with \<open>BPF_ANY\<close> on a map of type \<open>BPF_MAP_TYPE_HASH\<close>: an existing
  entry is overwritten, a new one needs a free slot; \<open>None\<close> is the negative return value,
  and then the map is as before.
\<close>

definition bpf_hash_update :: "nat \<Rightarrow> ('k, 'v) bpf_map \<Rightarrow> 'k \<Rightarrow> 'v \<Rightarrow> ('k, 'v) bpf_map option" where
  "bpf_hash_update cap m k v =
     (if map_of m k \<noteq> None \<or> length m < cap then Some (AList.update k v m) else None)"

text \<open>
  The same on a map of type \<open>BPF_MAP_TYPE_LRU_HASH\<close>: the map first evicts entries of its
  own choice (\<open>victims\<close>), then stores the new one if it has an element for it (\<open>ok\<close>
  and a free slot). The hook ignores the return value, so the result is the map.
\<close>

definition bpf_lru_evict :: "'k list \<Rightarrow> ('k, 'v) bpf_map \<Rightarrow> ('k, 'v) bpf_map" where
  "bpf_lru_evict victims m = filter (\<lambda>e. fst e \<notin> set victims) m"

definition bpf_lru_update ::
  "nat \<Rightarrow> 'k list \<Rightarrow> bool \<Rightarrow> ('k, 'v) bpf_map \<Rightarrow> 'k \<Rightarrow> 'v \<Rightarrow> ('k, 'v) bpf_map" where
  "bpf_lru_update cap victims ok m k v =
     (let m' = bpf_lru_evict victims m
      in if ok then (case bpf_hash_update cap m' k v of Some m'' \<Rightarrow> m'' | None \<Rightarrow> m') else m')"

subsection \<open>The laws of a map\<close>

definition bpf_map_wf :: "nat \<Rightarrow> ('k, 'v) bpf_map \<Rightarrow> bool" where
  "bpf_map_wf cap m \<longleftrightarrow> distinct (map fst m) \<and> length m \<le> cap"

text \<open>
  What a client of a map relies on: an update that succeeds is seen by the next lookup of
  the key, and an update or a deletion creates no entry under another key; deletion
  removes the key. Nothing promises that another key is still there (an LRU map may have
  evicted it).
\<close>

locale bpf_hash =
  fixes lookup :: "'m \<Rightarrow> 'k \<Rightarrow> 'v option"
    and update :: "'m \<Rightarrow> 'k \<Rightarrow> 'v \<Rightarrow> 'm option"
    and delete :: "'m \<Rightarrow> 'k \<Rightarrow> 'm"
    and invar :: "'m \<Rightarrow> bool"
  assumes update_same: "update m k v = Some m' \<Longrightarrow> lookup m' k = Some v"
    and update_other: "update m k v = Some m' \<Longrightarrow> k' \<noteq> k \<Longrightarrow>
      lookup m' k' = None \<or> lookup m' k' = lookup m k'"
    and delete_same: "invar m \<Longrightarrow> lookup (delete m k) k = None"
    and delete_other: "k' \<noteq> k \<Longrightarrow> lookup (delete m k) k' = lookup m k'"
    and update_invar: "invar m \<Longrightarrow> update m k v = Some m' \<Longrightarrow> invar m'"
    and delete_invar: "invar m \<Longrightarrow> invar (delete m k)"
begin

lemma update_back: "update m k v = Some m' \<Longrightarrow> lookup m' k' = Some w \<Longrightarrow>
    (k' = k \<and> w = v) \<or> (k' \<noteq> k \<and> lookup m k' = Some w)"
  using update_same [of m k v m'] update_other [of m k v m' k'] by (cases "k' = k") auto

lemma delete_back: "invar m \<Longrightarrow> lookup (delete m k) k' = Some w \<Longrightarrow> lookup m k' = Some w"
  using delete_same [of m k] delete_other [of k' k m] by (cases "k' = k") auto

lemma update_delete: "invar m \<Longrightarrow> update m k v = Some m' \<Longrightarrow> lookup (delete m' k) k = None"
  by (blast intro: delete_same update_invar)

end

text \<open>A map that evicts nothing on its own keeps every other entry.\<close>

locale bpf_stable_hash = bpf_hash +
  assumes update_keep: "update m k v = Some m' \<Longrightarrow> k' \<noteq> k \<Longrightarrow> lookup m' k' = lookup m k'"
begin

lemma update_lookup: "update m k v = Some m' \<Longrightarrow>
    lookup m' k' = (if k' = k then Some v else lookup m k')"
  using update_same update_keep by auto

end

lemma delete_distinct: "distinct (map fst m) \<Longrightarrow> distinct (map fst (AList.delete k m))"
  by (rule distinct_delete)

lemma length_alist_delete: "length (AList.delete k m) \<le> length m"
  by (simp add: AList.delete_eq)

lemma length_alist_update:
  "length (AList.update k v m) = (if map_of m k = None then Suc (length m) else length m)"
  by (induction m) auto

lemma bpf_hash_update_Some:
  assumes "bpf_hash_update cap m k v = Some m'"
  shows "map_of m' = (map_of m)(k \<mapsto> v)" "m' = AList.update k v m"
  using assms by (auto simp: bpf_hash_update_def update_conv' split: if_splits)

lemma bpf_hash_update_wf:
  assumes "bpf_map_wf cap m" "bpf_hash_update cap m k v = Some m'"
  shows "bpf_map_wf cap m'"
  using assms
  by (auto simp: bpf_map_wf_def bpf_hash_update_def length_alist_update distinct_update
      split: if_splits)

lemma bpf_map_delete_elem_wf: "bpf_map_wf cap m \<Longrightarrow> bpf_map_wf cap (bpf_map_delete_elem m k)"
  using length_alist_delete [of k m]
  by (auto simp: bpf_map_wf_def bpf_map_delete_elem_def delete_distinct)

lemma lookup_delete [simp]:
  "bpf_map_lookup_elem (bpf_map_delete_elem m k) k' =
     (if k' = k then None else bpf_map_lookup_elem m k')"
  by (simp add: bpf_map_lookup_elem_def bpf_map_delete_elem_def delete_conv')

lemma map_of_evict:
  "map_of (bpf_lru_evict vs m) k = (if k \<in> set vs then None else map_of m k)"
  by (induction m) (auto simp: bpf_lru_evict_def)

lemma bpf_lru_evict_wf: "bpf_map_wf cap m \<Longrightarrow> bpf_map_wf cap (bpf_lru_evict vs m)"
proof -
  assume "bpf_map_wf cap m"
  moreover have "distinct (map fst m) \<Longrightarrow> distinct (map fst (bpf_lru_evict vs m))"
    by (simp add: bpf_lru_evict_def distinct_map_filter)
  moreover have "length (bpf_lru_evict vs m) \<le> length m"
    by (simp add: bpf_lru_evict_def)
  ultimately show ?thesis by (simp add: bpf_map_wf_def)
qed

interpretation hmap: bpf_stable_hash bpf_map_lookup_elem "bpf_hash_update cap"
  bpf_map_delete_elem "bpf_map_wf cap"
  for cap
  by unfold_locales
    (auto simp: bpf_map_lookup_elem_def bpf_map_delete_elem_def delete_conv'
      bpf_hash_update_Some(1) bpf_hash_update_wf bpf_map_delete_elem_wf [unfolded bpf_map_delete_elem_def])

text \<open>
  An LRU map is the same interface where an update first evicts: the update below is
  \<open>bpf_lru_update\<close> with its return value.
\<close>

definition bpf_lru_try ::
  "nat \<Rightarrow> 'k list \<Rightarrow> ('k, 'v) bpf_map \<Rightarrow> 'k \<Rightarrow> 'v \<Rightarrow> ('k, 'v) bpf_map option" where
  "bpf_lru_try cap victims m k v = bpf_hash_update cap (bpf_lru_evict victims m) k v"

lemma bpf_lru_update_try:
  "bpf_lru_update cap vs ok m k v =
     (case (if ok then bpf_lru_try cap vs m k v else None) of
        Some m' \<Rightarrow> m' | None \<Rightarrow> bpf_lru_evict vs m)"
  by (simp add: bpf_lru_update_def bpf_lru_try_def Let_def)

interpretation lmap: bpf_hash bpf_map_lookup_elem "bpf_lru_try cap vs"
  bpf_map_delete_elem "bpf_map_wf cap"
  for cap vs
  by unfold_locales
    (auto simp: bpf_lru_try_def bpf_map_lookup_elem_def bpf_map_delete_elem_def delete_conv'
      bpf_hash_update_Some(1) map_of_evict bpf_lru_evict_wf
      bpf_map_delete_elem_wf [unfolded bpf_map_delete_elem_def] elim!: bpf_hash_update_wf [rotated])

lemma bpf_lru_update_wf: "bpf_map_wf cap m \<Longrightarrow> bpf_map_wf cap (bpf_lru_update cap vs ok m k v)"
  by (auto simp: bpf_lru_update_try bpf_lru_evict_wf lmap.update_invar
      split: option.splits if_splits)

text \<open>An entry found after an LRU update is the new one or was there before.\<close>

lemma bpf_lru_update_back:
  assumes "bpf_map_lookup_elem (bpf_lru_update cap vs ok m k v) k' = Some w"
  shows "(k' = k \<and> w = v) \<or> bpf_map_lookup_elem m k' = Some w"
proof (cases "if ok then bpf_lru_try cap vs m k v else None")
  case None
  with assms show ?thesis
    by (auto simp: bpf_lru_update_try bpf_map_lookup_elem_def map_of_evict split: if_splits)
next
  case (Some m')
  then have "bpf_lru_try cap vs m k v = Some m'" by (simp split: if_splits)
  moreover from Some assms have "bpf_map_lookup_elem m' k' = Some w"
    by (simp add: bpf_lru_update_try)
  ultimately show ?thesis by (blast dest: lmap.update_back)
qed

section \<open>Per-CPU arrays\<close>

definition percpu_lookup :: "nat \<Rightarrow> percpu_array \<Rightarrow> u32 \<Rightarrow> u64 option" where
  "percpu_lookup cpu a idx =
     (if cpu < length a \<and> unat idx < length (a ! cpu) then Some (a ! cpu ! unat idx) else None)"

text \<open>
  \<open>cnt = bpf_map_lookup_elem(&counter, &idx); if (cnt) __sync_fetch_and_add(cnt, 1);\<close> with
  \<open>idx = 0\<close>: the cell of the running CPU goes up by one, modulo \<open>2 ^ 64\<close>.
\<close>

definition percpu_inc :: "nat \<Rightarrow> percpu_array \<Rightarrow> percpu_array" where
  "percpu_inc cpu a =
     (case percpu_lookup cpu a 0 of
        None \<Rightarrow> a
      | Some cnt \<Rightarrow> a[cpu := (a ! cpu)[0 := cnt + 1]])"

definition percpu_wf :: "nat \<Rightarrow> percpu_array \<Rightarrow> bool" where
  "percpu_wf n a \<longleftrightarrow> length a = n \<and> (\<forall>c \<in> set a. length c = COUNTER_ENTRIES)"

lemma percpu_inc_wf: "percpu_wf n a \<Longrightarrow> percpu_wf n (percpu_inc cpu a)"
  by (auto simp: percpu_wf_def percpu_inc_def percpu_lookup_def dest!: set_update_subset_insert [THEN subsetD]
      split: option.splits)

section \<open>Reading memory\<close>

text \<open>
  \<open>BPF_CORE_READ(src, field)\<close>: \<open>bpf_probe_read_kernel\<close> into a local whose value is
  returned, the return value of the helper being ignored. Where the address is not
  mapped the local holds whatever the failed read left there.
\<close>

definition core_read :: "kmem \<Rightarrow> (ptr \<Rightarrow> 's option) \<Rightarrow> ptr \<Rightarrow> ('s \<Rightarrow> 'a::len word) \<Rightarrow> 'a word" where
  "core_read km store p sel =
     (case store p of Some x \<Rightarrow> sel x | None \<Rightarrow> ucast (fault_word km))"

lemma core_read_mapped [simp]: "store p = Some x \<Longrightarrow> core_read km store p sel = sel x"
  by (simp add: core_read_def)

text \<open>
  \<open>bpf_probe_read_kernel_str\<close> and \<open>bpf_probe_read_user_str\<close>: the bytes up to the first
  NUL, \<open>sz - 1\<close> of them at most, followed by a NUL; \<open>None\<close> is the error return.
\<close>

fun read_cstr :: "(ptr \<Rightarrow> u8 option) \<Rightarrow> nat \<Rightarrow> ptr \<Rightarrow> u8 list option" where
  "read_cstr mem 0 p = Some []"
| "read_cstr mem (Suc n) p =
     (case mem p of
        None \<Rightarrow> None
      | Some b \<Rightarrow> if b = 0 then Some [] else map_option (Cons b) (read_cstr mem n (p + 1)))"

definition bpf_probe_read_str :: "(ptr \<Rightarrow> u8 option) \<Rightarrow> nat \<Rightarrow> ptr \<Rightarrow> u8 list option" where
  "bpf_probe_read_str mem sz p = map_option (\<lambda>s. s @ [0]) (read_cstr mem (sz - 1) p)"

definition read_str_into :: "kmem \<Rightarrow> (ptr \<Rightarrow> u8 option) \<Rightarrow> u8 list \<Rightarrow> ptr \<Rightarrow> u8 list" where
  "read_str_into km mem dst p =
     (case bpf_probe_read_str mem (length dst) p of
        Some bs \<Rightarrow> store_bytes dst bs
      | None \<Rightarrow> store_bytes dst (fault_bytes km))"

lemma length_read_str_into [simp, kwf]: "length (read_str_into km mem dst p) = length dst"
  by (simp add: read_str_into_def split: option.split)

lemma length_read_cstr: "read_cstr mem n p = Some s \<Longrightarrow> length s \<le> n"
  by (induction n arbitrary: p s) (auto split: option.splits if_splits)

lemma read_cstr_no_nul: "read_cstr mem n p = Some s \<Longrightarrow> 0 \<notin> set s"
  by (induction n arbitrary: p s) (auto split: option.splits if_splits)

text \<open>The string that lies at an address: its bytes and the NUL behind them.\<close>

definition cstr_at :: "(ptr \<Rightarrow> u8 option) \<Rightarrow> ptr \<Rightarrow> u8 list \<Rightarrow> bool" where
  "cstr_at mem p s \<longleftrightarrow> 0 \<notin> set s
     \<and> (\<forall>i < length s. mem (p + word_of_nat i) = Some (s ! i))
     \<and> mem (p + word_of_nat (length s)) = Some 0"

lemma cstr_at_Nil: "cstr_at mem p [] \<longleftrightarrow> mem p = Some 0"
  by (simp add: cstr_at_def)

lemma cstr_at_Cons:
  "cstr_at mem p (b # s) \<longleftrightarrow> b \<noteq> 0 \<and> mem p = Some b \<and> cstr_at mem (p + 1) s"
  unfolding cstr_at_def
  by (simp add: All_less_Suc2 add.assoc) blast

lemma read_cstr_at: "cstr_at mem p s \<Longrightarrow> read_cstr mem n p = Some (take n s)"
proof (induction n arbitrary: p s)
  case 0
  then show ?case by simp
next
  case (Suc n)
  then show ?case by (cases s) (simp_all add: cstr_at_Nil cstr_at_Cons)
qed

text \<open>A string read into a buffer is the string there, cut at the buffer's length less one.\<close>

lemma read_str_into_at:
  assumes "cstr_at mem p s" "0 < length dst"
  shows "read_str_into km mem dst p = store_bytes dst (take (length dst - 1) s @ [0])"
  using assms by (simp add: read_str_into_def bpf_probe_read_str_def read_cstr_at)

lemma first_nul_store_str:
  assumes "0 \<notin> set s" "length s < length dst"
  shows "first_nul (store_bytes dst (s @ [0])) = length s"
    "take (length s) (store_bytes dst (s @ [0])) = s"
  using assms by (simp_all add: store_bytes_def first_nul_append_zero)

end
