(* ===== verification/Verdict_Loader.thy ===== *)
theory Verdict_Loader
  imports Bpf_Helpers
begin

text \<open>
  The operations of \<open>internal/ebpf/loader.go\<close> on the maps the kernel program shares with the
  daemon: writing verdicts, registering protected PIDs and summing the per-CPU counters.
  The interface the policy engine and the worker pool use (\<open>loaderFace\<close>) is the locale
  \<open>verdict_store\<close>; the loader interprets it.
\<close>

section \<open>Errors\<close>

datatype loader_error =
    WriteVerdictMap
  | RegisterProtected
  | ReadCounter

section \<open>Writing to the maps\<close>

text \<open>
  \<open>Map.Put\<close> is the \<open>bpf(2)\<close> update with \<open>BPF_ANY\<close>: it fails when the system call fails
  (\<open>sys_ok\<close>, an input of the model) or when a new key meets a full map.
\<close>

definition map_put :: "bool \<Rightarrow> nat \<Rightarrow> ('k, 'v) bpf_map \<Rightarrow> 'k \<Rightarrow> 'v \<Rightarrow> ('k, 'v) bpf_map option" where
  "map_put sys_ok cap m k v = (if sys_ok then bpf_hash_update cap m k v else None)"

definition AllowExec :: "bool \<Rightarrow> exec_key \<Rightarrow> kmaps \<Rightarrow> loader_error + kmaps" where
  "AllowExec sys_ok key st =
     (case map_put sys_ok VERDICT_MAP_MAX (verdict_map st) key VERDICT_ALLOW of
        None \<Rightarrow> Inl WriteVerdictMap
      | Some m \<Rightarrow> Inr (st\<lparr>verdict_map := m\<rparr>))"

definition BlockExec :: "bool \<Rightarrow> exec_key \<Rightarrow> kmaps \<Rightarrow> loader_error + kmaps" where
  "BlockExec sys_ok key st =
     (case map_put sys_ok VERDICT_MAP_MAX (verdict_map st) key VERDICT_BLOCK of
        None \<Rightarrow> Inl WriteVerdictMap
      | Some m \<Rightarrow> Inr (st\<lparr>verdict_map := m\<rparr>))"

definition RegisterProtectedPID :: "bool \<Rightarrow> u32 \<Rightarrow> kmaps \<Rightarrow> loader_error + kmaps" where
  "RegisterProtectedPID sys_ok pid st =
     (case map_put sys_ok PROTECTED_PIDS_MAX (protected_pids st) pid 1 of
        None \<Rightarrow> Inl RegisterProtected
      | Some m \<Rightarrow> Inr (st\<lparr>protected_pids := m\<rparr>))"

section \<open>Reading the counters\<close>

text \<open>
  The lookup of entry 0 of a per-CPU array returns one value per CPU; it fails with
  \<open>ErrNotExist\<close>, which counts as zero, or with another error.
\<close>

datatype lookup_result = Values "u64 list" | Not_Exist | Lookup_Failed

definition percpu_values :: "bool \<Rightarrow> percpu_array \<Rightarrow> lookup_result" where
  "percpu_values sys_ok a =
     (if \<not> sys_ok then Lookup_Failed
      else if list_all (\<lambda>cells. cells \<noteq> []) a then Values (map hd a) else Not_Exist)"

fun sum_loop :: "u64 \<Rightarrow> u64 list \<Rightarrow> u64" where
  "sum_loop acc [] = acc"
| "sum_loop acc (v # vs) = sum_loop (acc + v) vs"

definition ReadCounter_of :: "lookup_result \<Rightarrow> loader_error + u64" where
  "ReadCounter_of r =
     (case r of
        Lookup_Failed \<Rightarrow> Inl ReadCounter
      | Not_Exist \<Rightarrow> Inr 0
      | Values vs \<Rightarrow> Inr (sum_loop 0 vs))"

definition ReadBaselineAllowCounter :: "bool \<Rightarrow> kmaps \<Rightarrow> loader_error + u64" where
  "ReadBaselineAllowCounter sys_ok st =
     ReadCounter_of (percpu_values sys_ok (baseline_allow_counter st))"

definition ReadDropCounter :: "bool \<Rightarrow> kmaps \<Rightarrow> loader_error + u64" where
  "ReadDropCounter sys_ok st = ReadCounter_of (percpu_values sys_ok (drop_counter st))"

section \<open>The interface of a verdict store\<close>

text \<open>
  What the clients of \<open>loaderFace\<close> rely on. \<open>verdict s k\<close> is the verdict the kernel
  would find for \<open>k\<close>.
\<close>

locale verdict_store =
  fixes block_exec :: "'k \<Rightarrow> 's \<Rightarrow> 'e + 's"
    and allow_exec :: "'k \<Rightarrow> 's \<Rightarrow> 'e + 's"
    and verdict :: "'s \<Rightarrow> 'k \<Rightarrow> u32 option"
  assumes block_verdict: "block_exec k s = Inr s' \<Longrightarrow>
      verdict s' k' = (if k' = k then Some VERDICT_BLOCK else verdict s k')"
    and allow_verdict: "allow_exec k s = Inr s' \<Longrightarrow>
      verdict s' k' = (if k' = k then Some VERDICT_ALLOW else verdict s k')"
begin

definition write_verdict :: "'k \<times> bool \<Rightarrow> 's \<Rightarrow> 's" where
  "write_verdict w s =
     (case (if snd w then block_exec (fst w) s else allow_exec (fst w) s) of
        Inl _ \<Rightarrow> s | Inr s' \<Rightarrow> s')"

lemma write_other: "fst w \<noteq> k \<Longrightarrow> verdict (write_verdict w s) k = verdict s k"
  by (auto simp: write_verdict_def block_verdict allow_verdict split: sum.split if_splits)

lemma writes_other:
  "k \<notin> fst ` set ws \<Longrightarrow> verdict (fold write_verdict ws s) k = verdict s k"
  by (induction ws arbitrary: s) (auto simp: write_other)

text \<open>A successful block stands until the next write for the same key.\<close>

lemma block_stands:
  assumes "block_exec k s = Inr s'" "k \<notin> fst ` set ws"
  shows "verdict (fold write_verdict ws s') k = Some VERDICT_BLOCK"
  using assms by (simp add: writes_other block_verdict)

lemma allow_then_block:
  assumes "allow_exec k s = Inr s1" "block_exec k s1 = Inr s2"
  shows "verdict s2 k = Some VERDICT_BLOCK"
  using assms by (simp add: block_verdict)

end

lemma AllowExec_verdict:
  "AllowExec ok key st = Inr st' \<Longrightarrow>
     bpf_map_lookup_elem (verdict_map st') k =
       (if k = key then Some VERDICT_ALLOW else bpf_map_lookup_elem (verdict_map st) k)"
  by (auto simp: AllowExec_def map_put_def hmap.update_lookup split: option.splits if_splits)

lemma BlockExec_verdict:
  "BlockExec ok key st = Inr st' \<Longrightarrow>
     bpf_map_lookup_elem (verdict_map st') k =
       (if k = key then Some VERDICT_BLOCK else bpf_map_lookup_elem (verdict_map st) k)"
  by (auto simp: BlockExec_def map_put_def hmap.update_lookup split: option.splits if_splits)

interpretation vstore: verdict_store "BlockExec ok" "AllowExec ok'"
  "\<lambda>st. bpf_map_lookup_elem (verdict_map st)"
  for ok ok'
  by unfold_locales (simp_all add: AllowExec_verdict BlockExec_verdict)

section \<open>Frames and failures\<close>

lemma AllowExec_frame [kframe]:
  assumes "AllowExec ok key st = Inr st'"
  shows "pid_hash_map st' = pid_hash_map st" "events st' = events st"
    "protected_pids st' = protected_pids st" "drop_counter st' = drop_counter st"
    "baseline_allow_counter st' = baseline_allow_counter st"
  using assms by (auto simp: AllowExec_def split: option.splits)

lemma BlockExec_frame [kframe]:
  assumes "BlockExec ok key st = Inr st'"
  shows "pid_hash_map st' = pid_hash_map st" "events st' = events st"
    "protected_pids st' = protected_pids st" "drop_counter st' = drop_counter st"
    "baseline_allow_counter st' = baseline_allow_counter st"
  using assms by (auto simp: BlockExec_def split: option.splits)

lemma RegisterProtectedPID_frame [kframe]:
  assumes "RegisterProtectedPID ok pid st = Inr st'"
  shows "pid_hash_map st' = pid_hash_map st" "events st' = events st"
    "verdict_map st' = verdict_map st" "drop_counter st' = drop_counter st"
    "baseline_allow_counter st' = baseline_allow_counter st"
  using assms by (auto simp: RegisterProtectedPID_def split: option.splits)

lemma RegisterProtectedPID_lookup:
  "RegisterProtectedPID ok pid st = Inr st' \<Longrightarrow>
     bpf_map_lookup_elem (protected_pids st') p =
       (if p = pid then Some 1 else bpf_map_lookup_elem (protected_pids st) p)"
  by (auto simp: RegisterProtectedPID_def map_put_def hmap.update_lookup
      split: option.splits if_splits)

lemma BlockExec_ok_iff:
  "(\<exists>st'. BlockExec ok key st = Inr st') \<longleftrightarrow>
     ok \<and> (bpf_map_lookup_elem (verdict_map st) key \<noteq> None
            \<or> length (verdict_map st) < VERDICT_MAP_MAX)"
  by (auto simp: BlockExec_def map_put_def bpf_hash_update_def bpf_map_lookup_elem_def
      split: option.splits)

lemma AllowExec_ok_iff:
  "(\<exists>st'. AllowExec ok key st = Inr st') \<longleftrightarrow>
     ok \<and> (bpf_map_lookup_elem (verdict_map st) key \<noteq> None
            \<or> length (verdict_map st) < VERDICT_MAP_MAX)"
  by (auto simp: AllowExec_def map_put_def bpf_hash_update_def bpf_map_lookup_elem_def
      split: option.splits)

section \<open>Counters\<close>

definition percpu_total :: "percpu_array \<Rightarrow> u64" where
  "percpu_total a = sum_list (map hd a)"

lemma sum_loop_eq: "sum_loop acc vs = acc + sum_list vs"
  by (induction vs arbitrary: acc) (simp_all add: add.assoc)

lemma ReadCounter_total:
  assumes "percpu_wf n a"
  shows "ReadCounter_of (percpu_values True a) = Inr (percpu_total a)"
proof -
  have "list_all (\<lambda>cells. cells \<noteq> []) a"
    using assms by (auto simp: percpu_wf_def COUNTER_ENTRIES_def list_all_iff)
  then show ?thesis
    by (simp add: ReadCounter_of_def percpu_values_def sum_loop_eq percpu_total_def)
qed

lemma percpu_inc_total:
  assumes "percpu_wf n a" "cpu < n"
  shows "percpu_total (percpu_inc cpu a) = percpu_total a + 1"
proof -
  have cell: "length (a ! cpu) = 1" and len: "cpu < length a"
    using assms by (auto simp: percpu_wf_def COUNTER_ENTRIES_def)
  then obtain c where c: "a ! cpu = [c]" by (auto simp: length_Suc_conv)
  have "percpu_inc cpu a = a[cpu := [c + 1]]"
    using len by (simp add: percpu_inc_def percpu_lookup_def c)
  then have "map hd (percpu_inc cpu a) = (map hd a)[cpu := c + 1]"
    by (simp add: map_update)
  moreover have "(map hd a) ! cpu = c" using len by (simp add: c)
  ultimately show ?thesis
    using len by (simp add: percpu_total_def sum_list_list_update)
qed

end
