(* ===== verification/Policy_Engine.thy ===== *)
theory Policy_Engine
  imports Script_Resolver Content_Cache Rule_Engine Verdict_Loader
begin

text \<open>
  The decision cascade of \<open>internal/engine/engine.go\<close>: \<open>New\<close>, \<open>Process\<close> and what they call.
  The daemon's world is the kernel maps it shares with the hooks, the SIGKILLs it sends and
  the queue of the AI workers; what one call of \<open>Process\<close> learns from outside (clock,
  procfs, results of system calls, the rate limiter, the context) is the record
  \<open>process_env\<close>. The rate and burst of the rate limiter are handed on to its library and
  have no field here; whether it lets an event through is part of \<open>process_env\<close>.
\<close>

section \<open>Types\<close>

definition ModeLockdown :: string where "ModeLockdown = ''lockdown''"
definition ModeMonitor :: string where "ModeMonitor = ''monitor''"

datatype Action = ActionAllow | ActionBlock | ActionAlert | ActionAIQueue

definition actionBlockLabel :: string where "actionBlockLabel = ''BLOCK''"
definition actionAllowLabel :: string where "actionAllowLabel = ''ALLOW''"

fun Action_String :: "Action \<Rightarrow> string" where
  "Action_String ActionAllow = ''ALLOW''"
| "Action_String ActionBlock = actionBlockLabel"
| "Action_String ActionAlert = ''ALERT''"
| "Action_String ActionAIQueue = ''AI_QUEUE''"

record Verdict =
  ve_RuleName :: string
  ve_ScriptPath :: string
  ve_Action :: Action
  ve_Tier :: nat

record 'p Engine =
  en_cache :: ContentCache
  en_rules :: "'p RuleEngine"
  en_loader :: bool
  en_aiQueue :: bool
  en_interpreters :: "string \<Rightarrow> bool option"
  en_mode :: string

record daemon =
  dm_maps :: kmaps
  dm_kills :: "u32 list"
  dm_queue :: "event list"
  dm_queue_cap :: nat

record process_env =
  pe_cmdline :: "u8 list option"
  pe_now_lookup :: int
  pe_now_evict :: int
  pe_now_add :: int
  pe_order :: "cache_entries \<Rightarrow> cache_entries"
  pe_sys_ok :: bool
  pe_limiter_allow :: bool
  pe_ctx_done :: bool
  pe_select_send :: bool

section \<open>Construction\<close>

definition defaultInterpreters :: "string list" where
  "defaultInterpreters =
     [''python3'', ''python'', ''python2'', ''bash'', ''sh'', ''zsh'', ''dash'', ''fish'',
      ''node'', ''nodejs'', ''ruby'', ''perl'', ''php'', ''lua'']"

definition buildInterpreterSet :: "string list \<Rightarrow> string \<Rightarrow> bool option" where
  "buildInterpreterSet entries = fold (\<lambda>e m. m(Base e \<mapsto> True)) entries Map.empty"

record EngineOptions =
  op_Loader :: bool
  op_AIQueue :: bool
  op_RulesPath :: string
  op_Mode :: string
  op_Interpreters :: "string list"
  op_CacheTTL :: int
  op_CacheSize :: int
  op_HotReload :: bool

datatype engine_error = Load_Rules rule_error | Watch_Rules

definition New ::
    "('a, 'p) cel \<Rightarrow> ('d \<Rightarrow> rule_spec list option) \<Rightarrow> 'd option \<Rightarrow> bool \<Rightarrow> EngineOptions
     \<Rightarrow> engine_error + 'p Engine" where
  "New cel unmarshal content watch_ok opts =
     (let mode = (if op_Mode opts = '''' then ModeLockdown else op_Mode opts);
          cacheTTL = (if op_CacheTTL opts = 0 then 5 * 60 * 1000000000 else op_CacheTTL opts);
          cacheSize = (if op_CacheSize opts = 0 then 10000 else op_CacheSize opts);
          cache = NewContentCache cacheSize cacheTTL;
          loaded = (if op_RulesPath opts \<noteq> ''''
                    then LoadFromFile cel unmarshal None content (NewRuleEngine, cache)
                    else (None, NewRuleEngine, cache));
          interps = (if op_Interpreters opts = [] then defaultInterpreters
                     else op_Interpreters opts)
      in case fst loaded of
           Some err \<Rightarrow> Inl (Load_Rules err)
         | None \<Rightarrow>
             if op_RulesPath opts \<noteq> '''' \<and> op_HotReload opts \<and> \<not> watch_ok then Inl Watch_Rules
             else Inr \<lparr>en_cache = cache, en_rules = fst (snd loaded),
                       en_loader = op_Loader opts, en_aiQueue = op_AIQueue opts,
                       en_interpreters = buildInterpreterSet interps, en_mode = mode\<rparr>)"

text \<open>A reload through the watcher: \<open>onReload\<close> clears the cache.\<close>

definition reload ::
    "('a, 'p) cel \<Rightarrow> ('d \<Rightarrow> rule_spec list option) \<Rightarrow> 'd watch_input \<Rightarrow> 'p Engine \<Rightarrow> 'p Engine" where
  "reload cel unmarshal i en =
     (case watch_step cel unmarshal (Some Clear) i (en_rules en, en_cache en) of
        None \<Rightarrow> en
      | Some (rules, cache) \<Rightarrow> en\<lparr>en_rules := rules, en_cache := cache\<rparr>)"

definition Close_engine :: "'p Engine \<Rightarrow> 'p Engine" where
  "Close_engine en = en\<lparr>en_rules := Close_rules (en_rules en)\<rparr>"

section \<open>Process\<close>

definition setScriptArgv :: "event \<Rightarrow> string \<Rightarrow> event" where
  "setScriptArgv ev path =
     ev\<lparr>e_script_argv := store_bytes (replicate (length (e_script_argv ev)) 0) (map char_byte path)\<rparr>"

definition is_interpreter :: "'p Engine \<Rightarrow> string \<Rightarrow> bool" where
  "is_interpreter en name = (case en_interpreters en name of Some b \<Rightarrow> b | None \<Rightarrow> False)"

definition script_path_of :: "process_env \<Rightarrow> event \<Rightarrow> string" where
  "script_path_of env ev =
     (let scriptPath = FindScriptPath (e_pid ev) (pe_cmdline env) in
      if scriptPath = '''' then
        (if HasPrefix (GetScriptArgv ev) ''-'' then '''' else GetScriptArgv ev)
      else scriptPath)"

text \<open>The script an interpreter runs, and the event the rules see.\<close>

definition resolve_script :: "process_env \<Rightarrow> 'p Engine \<Rightarrow> event \<Rightarrow> string \<times> event" where
  "resolve_script env en ev =
     (if is_interpreter en (Base (GetArgv ev)) then
        let scriptPath = script_path_of env ev in
        if scriptPath \<noteq> '''' then
          (scriptPath, if scriptPath \<noteq> GetScriptArgv ev then setScriptArgv ev scriptPath else ev)
        else ('''', ev)
      else ('''', ev))"

definition enforce :: "process_env \<Rightarrow> 'p Engine \<Rightarrow> event \<Rightarrow> exec_key \<Rightarrow> daemon \<Rightarrow> daemon" where
  "enforce env en ev key dm =
     (if en_mode en = ModeMonitor then dm
      else let dm1 = dm\<lparr>dm_kills := dm_kills dm @ [e_pid ev]\<rparr> in
           if en_loader en \<and> e_hash_available ev \<noteq> 0 then
             (case BlockExec (pe_sys_ok env) key (dm_maps dm1) of
                Inl _ \<Rightarrow> dm1
              | Inr maps \<Rightarrow> dm1\<lparr>dm_maps := maps\<rparr>)
           else dm1)"

text \<open>An ALLOW becomes known to the cache and, where there is a loader, to the kernel.\<close>

definition remember :: "process_env \<Rightarrow> bool \<Rightarrow> exec_key \<Rightarrow> 'p Engine \<Rightarrow> 'p Engine" where
  "remember env hashUnavailable key en =
     (if \<not> hashUnavailable then
        en\<lparr>en_cache := Add (pe_order env) (pe_now_evict env) (pe_now_add env) key (en_cache en)\<rparr>
      else en)"

definition promote :: "process_env \<Rightarrow> bool \<Rightarrow> exec_key \<Rightarrow> 'p Engine \<Rightarrow> daemon \<Rightarrow> daemon" where
  "promote env hashUnavailable key en dm =
     (if en_loader en \<and> \<not> hashUnavailable then
        (case AllowExec (pe_sys_ok env) key (dm_maps dm) of
           Inl _ \<Rightarrow> dm
         | Inr maps \<Rightarrow> dm\<lparr>dm_maps := maps\<rparr>)
      else dm)"

text \<open>
  Tier 3. The \<open>select\<close> sends when the queue has room, takes \<open>ctx.Done()\<close> when the context
  is over, either when both are ready, and the default when neither is.
\<close>

definition route :: "process_env \<Rightarrow> 'p Engine \<Rightarrow> event \<Rightarrow> daemon \<Rightarrow> Action \<times> daemon" where
  "route env en ev dm =
     (if en_aiQueue en \<and> pe_limiter_allow env then
        let room = length (dm_queue dm) < dm_queue_cap dm in
        if room \<and> (pe_select_send env \<or> \<not> pe_ctx_done env)
        then (ActionAIQueue, dm\<lparr>dm_queue := dm_queue dm @ [ev]\<rparr>)
        else (ActionAllow, dm)
      else (ActionAllow, dm))"

definition rule_outcome :: "process_env \<Rightarrow> bool \<Rightarrow> event \<Rightarrow> exec_key \<Rightarrow> 'p rule \<Rightarrow> 'p Engine
    \<Rightarrow> daemon \<Rightarrow> Action \<times> 'p Engine \<times> daemon" where
  "rule_outcome env hashUnavailable ev key rule en dm =
     (if rl_action rule = actionBlockLabel then (ActionBlock, en, enforce env en ev key dm)
      else if rl_action rule = actionAllowLabel then
        (ActionAllow, remember env hashUnavailable key en, promote env hashUnavailable key en dm)
      else (ActionAlert, en, dm))"

definition Process :: "('a, 'p) cel \<Rightarrow> process_env \<Rightarrow> event \<Rightarrow> 'p Engine \<Rightarrow> daemon
    \<Rightarrow> Verdict \<times> 'p Engine \<times> daemon" where
  "Process cel env ev en dm =
     (let hashUnavailable = (e_hash_available ev = 0);
          key = ExecKey ev;
          (resolvedScript, ev1) = resolve_script env en ev;
          (hit, cache1) = (if \<not> hashUnavailable then Contains (pe_now_lookup env) key (en_cache en)
                           else (False, en_cache en));
          en1 = en\<lparr>en_cache := cache1\<rparr>
      in if hit then
           (\<lparr>ve_RuleName = '''', ve_ScriptPath = resolvedScript, ve_Action = ActionAllow,
             ve_Tier = 1\<rparr>, en1, dm)
         else case Match cel ev1 (en_rules en1) of
           Some rule \<Rightarrow>
             let (action, en2, dm2) = rule_outcome env hashUnavailable ev1 key rule en1 dm
             in (\<lparr>ve_RuleName = rl_name rule, ve_ScriptPath = resolvedScript, ve_Action = action,
                  ve_Tier = 2\<rparr>, en2, dm2)
         | None \<Rightarrow>
             let en2 = remember env hashUnavailable key en1;
                 dm2 = promote env hashUnavailable key en1 dm;
                 (action, dm3) = route env en2 ev1 dm2
             in (\<lparr>ve_RuleName = '''', ve_ScriptPath = resolvedScript, ve_Action = action,
                  ve_Tier = 3\<rparr>, en2, dm3))"

section \<open>What the parts leave alone\<close>

lemma remember_frame [simp]:
  "en_rules (remember env h key en) = en_rules en" "en_mode (remember env h key en) = en_mode en"
  "en_loader (remember env h key en) = en_loader en"
  "en_aiQueue (remember env h key en) = en_aiQueue en"
  "en_interpreters (remember env h key en) = en_interpreters en"
  by (simp_all add: remember_def)

lemma promote_frame [simp]:
  "dm_kills (promote env h key en dm) = dm_kills dm"
  "dm_queue (promote env h key en dm) = dm_queue dm"
  "dm_queue_cap (promote env h key en dm) = dm_queue_cap dm"
  by (auto simp: promote_def split: sum.split)

lemma enforce_frame [simp]:
  "dm_queue (enforce env en ev key dm) = dm_queue dm"
  "dm_queue_cap (enforce env en ev key dm) = dm_queue_cap dm"
  by (auto simp: enforce_def Let_def split: sum.split)

lemma route_frame [simp]:
  "dm_maps (snd (route env en ev dm)) = dm_maps dm"
  "dm_kills (snd (route env en ev dm)) = dm_kills dm"
  by (simp_all add: route_def Let_def)

lemma route_action: "fst (route env en ev dm) \<in> {ActionAllow, ActionAIQueue}"
  by (simp add: route_def Let_def)

lemma rule_outcome_frame [simp]:
  "en_rules (fst (snd (rule_outcome env h ev key rule en dm))) = en_rules en"
  "en_mode (fst (snd (rule_outcome env h ev key rule en dm))) = en_mode en"
  by (simp_all add: rule_outcome_def)

lemma setScriptArgv_frame [simp]:
  "e_pid (setScriptArgv ev s) = e_pid ev" "e_argv (setScriptArgv ev s) = e_argv ev"
  "e_hash_available (setScriptArgv ev s) = e_hash_available ev"
  "ExecKey (setScriptArgv ev s) = ExecKey ev"
  "length (e_script_argv (setScriptArgv ev s)) = length (e_script_argv ev)"
  by (simp_all add: setScriptArgv_def ExecKey_def)

lemma resolve_script_frame [simp]:
  "e_pid (snd (resolve_script env en ev)) = e_pid ev"
  "e_argv (snd (resolve_script env en ev)) = e_argv ev"
  "e_hash_available (snd (resolve_script env en ev)) = e_hash_available ev"
  "ExecKey (snd (resolve_script env en ev)) = ExecKey ev"
  by (simp_all add: resolve_script_def Let_def)

section \<open>Process, tier by tier\<close>

definition cached :: "process_env \<Rightarrow> event \<Rightarrow> 'p Engine \<Rightarrow> bool" where
  "cached env ev en \<longleftrightarrow> e_hash_available ev \<noteq> 0
     \<and> fst (Contains (pe_now_lookup env) (ExecKey ev) (en_cache en))"

definition rule_for :: "('a, 'p) cel \<Rightarrow> process_env \<Rightarrow> event \<Rightarrow> 'p Engine \<Rightarrow> 'p rule option" where
  "rule_for cel env ev en = Match cel (snd (resolve_script env en ev)) (en_rules en)"

text \<open>The engine after the cache lookup, which may have dropped an expired entry.\<close>

definition looked_up :: "process_env \<Rightarrow> event \<Rightarrow> 'p Engine \<Rightarrow> 'p Engine" where
  "looked_up env ev en =
     (if e_hash_available ev \<noteq> 0
      then en\<lparr>en_cache := snd (Contains (pe_now_lookup env) (ExecKey ev) (en_cache en))\<rparr>
      else en)"

lemma looked_up_frame [simp]:
  "en_rules (looked_up env ev en) = en_rules en" "en_mode (looked_up env ev en) = en_mode en"
  "en_loader (looked_up env ev en) = en_loader en"
  "en_aiQueue (looked_up env ev en) = en_aiQueue en"
  "en_interpreters (looked_up env ev en) = en_interpreters en"
  by (simp_all add: looked_up_def)

lemma Process_tiers:
  "Process cel env ev en dm =
     (let hU = (e_hash_available ev = 0); key = ExecKey ev; en1 = looked_up env ev en;
          script = fst (resolve_script env en ev); ev1 = snd (resolve_script env en ev)
      in if cached env ev en then
           (\<lparr>ve_RuleName = '''', ve_ScriptPath = script, ve_Action = ActionAllow, ve_Tier = 1\<rparr>,
            en1, dm)
         else case rule_for cel env ev en of
           Some rule \<Rightarrow>
             (\<lparr>ve_RuleName = rl_name rule, ve_ScriptPath = script,
               ve_Action = fst (rule_outcome env hU ev1 key rule en1 dm), ve_Tier = 2\<rparr>,
              snd (rule_outcome env hU ev1 key rule en1 dm))
         | None \<Rightarrow>
             (let en2 = remember env hU key en1; dm2 = promote env hU key en1 dm
              in (\<lparr>ve_RuleName = '''', ve_ScriptPath = script,
                   ve_Action = fst (route env en2 ev1 dm2), ve_Tier = 3\<rparr>,
                  en2, snd (route env en2 ev1 dm2))))"
proof (cases "e_hash_available ev = 0")
  case True
  then have "looked_up env ev en = en" "\<not> cached env ev en"
    by (simp_all add: looked_up_def cached_def)
  with True show ?thesis
    by (simp add: Process_def rule_for_def case_prod_unfold Let_def split: option.split)
next
  case False
  then have "looked_up env ev en =
      en\<lparr>en_cache := snd (Contains (pe_now_lookup env) (ExecKey ev) (en_cache en))\<rparr>"
    "cached env ev en \<longleftrightarrow> fst (Contains (pe_now_lookup env) (ExecKey ev) (en_cache en))"
    by (simp_all add: looked_up_def cached_def)
  with False show ?thesis
    by (simp add: Process_def rule_for_def case_prod_unfold Let_def split: option.split)
qed

lemma Process_cached:
  "cached env ev en \<Longrightarrow> Process cel env ev en dm =
     (\<lparr>ve_RuleName = '''', ve_ScriptPath = fst (resolve_script env en ev),
       ve_Action = ActionAllow, ve_Tier = 1\<rparr>, looked_up env ev en, dm)"
  by (simp add: Process_tiers Let_def)

lemma promote_verdict:
  "bpf_map_lookup_elem (verdict_map (dm_maps (promote env h key en dm))) k =
     (if en_loader en \<and> \<not> h \<and> k = key \<and> (\<exists>m. AllowExec (pe_sys_ok env) key (dm_maps dm) = Inr m)
      then Some VERDICT_ALLOW else bpf_map_lookup_elem (verdict_map (dm_maps dm)) k)"
  by (auto simp: promote_def AllowExec_verdict split: sum.split)

lemma enforce_verdict:
  "bpf_map_lookup_elem (verdict_map (dm_maps (enforce env en ev key dm))) k =
     (if en_mode en \<noteq> ModeMonitor \<and> en_loader en \<and> e_hash_available ev \<noteq> 0 \<and> k = key
        \<and> (\<exists>m. BlockExec (pe_sys_ok env) key (dm_maps dm) = Inr m)
      then Some VERDICT_BLOCK else bpf_map_lookup_elem (verdict_map (dm_maps dm)) k)"
  by (auto simp: enforce_def BlockExec_verdict Let_def split: sum.split)

lemma enforce_kills:
  "dm_kills (enforce env en ev key dm) =
     (if en_mode en = ModeMonitor then dm_kills dm else dm_kills dm @ [e_pid ev])"
  by (auto simp: enforce_def Let_def split: sum.split)

text \<open>The maps that a step of the daemon leaves as the kernel programs made them.\<close>

definition verdicts_only :: "kmaps \<Rightarrow> kmaps \<Rightarrow> bool" where
  "verdicts_only st st' \<longleftrightarrow> pid_hash_map st' = pid_hash_map st \<and> events st' = events st
     \<and> protected_pids st' = protected_pids st \<and> drop_counter st' = drop_counter st
     \<and> baseline_allow_counter st' = baseline_allow_counter st"

lemma verdicts_only_refl [simp]: "verdicts_only st st"
  by (simp add: verdicts_only_def)

lemma promote_verdicts_only: "verdicts_only (dm_maps dm) (dm_maps (promote env h key en dm))"
  by (auto simp: promote_def verdicts_only_def AllowExec_frame split: sum.split)

lemma enforce_verdicts_only: "verdicts_only (dm_maps dm) (dm_maps (enforce env en ev key dm))"
  by (auto simp: enforce_def verdicts_only_def BlockExec_frame Let_def split: sum.split)

lemma rule_outcome_verdicts_only:
  "verdicts_only (dm_maps dm) (dm_maps (snd (snd (rule_outcome env h ev key rule en dm))))"
  by (simp add: rule_outcome_def promote_verdicts_only enforce_verdicts_only)

lemma Process_verdicts_only:
  "verdicts_only (dm_maps dm) (dm_maps (snd (snd (Process cel env ev en dm))))"
  by (simp add: Process_tiers Let_def rule_outcome_verdicts_only promote_verdicts_only
      split: option.split)

section \<open>The interpreter set and the script field\<close>

lemma buildInterpreterSet_lookup:
  "buildInterpreterSet entries name = (if name \<in> Base ` set entries then Some True else None)"
proof -
  have "fold (\<lambda>e m. m(Base e \<mapsto> True)) entries m name =
      (if name \<in> Base ` set entries then Some True else m name)" for m
    by (induction entries arbitrary: m) auto
  then show ?thesis by (simp add: buildInterpreterSet_def)
qed

lemma char_byte_zero: "char_byte c = 0 \<longleftrightarrow> c = CHR 0x00"
proof -
  have "char_byte (CHR 0x00) = 0" by (simp add: char_byte_def)
  then show ?thesis using char_byte_inj by metis
qed

lemma setScriptArgv_read:
  assumes "length (e_script_argv ev) = ARGV_MAX" "CHR 0x00 \<notin> set path"
  shows "GetScriptArgv (setScriptArgv ev path) = take ARGV_MAX path"
proof -
  have bytes: "e_script_argv (setScriptArgv ev path) =
      map char_byte (take ARGV_MAX path) @ replicate (ARGV_MAX - length path) 0"
    using assms(1) by (simp add: setScriptArgv_def store_bytes_def take_map)
  have "CHR 0x00 \<notin> set (take ARGV_MAX path)" using assms(2) by (auto dest: in_set_takeD)
  then have n: "0 \<notin> set (map char_byte (take ARGV_MAX path))"
    by (force simp: char_byte_zero)
  show ?thesis
  proof (cases "ARGV_MAX - length path")
    case 0
    then show ?thesis using n by (simp add: GetScriptArgv_def bytes nullTerminated_full comp_def)
  next
    case (Suc m)
    then show ?thesis
      using n by (simp add: GetScriptArgv_def bytes nullTerminated_string comp_def)
  qed
qed

end
