(* ===== verification/Go_Text.thy ===== *)
theory Go_Text
  imports Go_Std
begin

text \<open>
  Text in Go: a string is its bytes, a rune a code point. UTF-8 as package \<open>unicode/utf8\<close>
  decodes and encodes it (an invalid byte is one \<open>RuneError\<close>), and the functions of package
  \<open>strings\<close> and \<open>fmt\<close> the daemon uses on text.
\<close>

section \<open>Runes\<close>

type_synonym rune = int

definition RuneError :: rune where "RuneError = 65533"

text \<open>The bytes of a string as numbers, and back.\<close>

definition byte_vals :: "string \<Rightarrow> int list" where
  "byte_vals s = map of_char s"

definition of_byte_vals :: "int list \<Rightarrow> string" where
  "of_byte_vals bs = map char_of bs"

definition in_range :: "int \<Rightarrow> int \<Rightarrow> int \<Rightarrow> bool" where
  "in_range lo hi b \<longleftrightarrow> lo \<le> b \<and> b \<le> hi"

text \<open>The first rune and its width in bytes.\<close>

fun DecodeRune :: "int list \<Rightarrow> rune \<times> nat" where
  "DecodeRune [] = (RuneError, 0)"
| "DecodeRune (b0 # bs) =
     (if b0 < 0x80 then (b0, 1)
      else if in_range 0xC2 0xDF b0 then
        (case bs of
           b1 # _ \<Rightarrow>
             if in_range 0x80 0xBF b1 then ((b0 - 0xC0) * 64 + (b1 - 0x80), 2) else (RuneError, 1)
         | _ \<Rightarrow> (RuneError, 1))
      else if in_range 0xE0 0xEF b0 then
        (case bs of
           b1 # b2 # _ \<Rightarrow>
             if in_range (if b0 = 0xE0 then 0xA0 else 0x80) (if b0 = 0xED then 0x9F else 0xBF) b1
               \<and> in_range 0x80 0xBF b2
             then ((b0 - 0xE0) * 4096 + (b1 - 0x80) * 64 + (b2 - 0x80), 3) else (RuneError, 1)
         | _ \<Rightarrow> (RuneError, 1))
      else if in_range 0xF0 0xF4 b0 then
        (case bs of
           b1 # b2 # b3 # _ \<Rightarrow>
             if in_range (if b0 = 0xF0 then 0x90 else 0x80) (if b0 = 0xF4 then 0x8F else 0xBF) b1
               \<and> in_range 0x80 0xBF b2 \<and> in_range 0x80 0xBF b3
             then ((b0 - 0xF0) * 262144 + (b1 - 0x80) * 4096 + (b2 - 0x80) * 64 + (b3 - 0x80), 4)
             else (RuneError, 1)
         | _ \<Rightarrow> (RuneError, 1))
      else (RuneError, 1))"

declare DecodeRune.simps [simp del]

fun decode_runes :: "int list \<Rightarrow> rune list" where
  "decode_runes [] = []"
| "decode_runes (b # bs) =
     (case DecodeRune (b # bs) of (r, width) \<Rightarrow> r # decode_runes (drop (width - 1) bs))"

text \<open>Whether a rune has an encoding: in range and no surrogate half.\<close>

definition valid_rune :: "rune \<Rightarrow> bool" where
  "valid_rune r \<longleftrightarrow> in_range 0 0x10FFFF r \<and> \<not> in_range 0xD800 0xDFFF r"

definition EncodeRune :: "rune \<Rightarrow> int list" where
  "EncodeRune r0 =
     (let r = (if valid_rune r0 then r0 else RuneError) in
      if r < 0x80 then [r]
      else if r < 0x800 then [0xC0 + r div 64, 0x80 + r mod 64]
      else if r < 0x10000 then [0xE0 + r div 4096, 0x80 + r div 64 mod 64, 0x80 + r mod 64]
      else [0xF0 + r div 262144, 0x80 + r div 4096 mod 64, 0x80 + r div 64 mod 64,
            0x80 + r mod 64])"

definition encode_runes :: "rune list \<Rightarrow> int list" where
  "encode_runes rs = concat (map EncodeRune rs)"

definition runes_of :: "string \<Rightarrow> rune list" where
  "runes_of s = decode_runes (byte_vals s)"

definition string_of_runes :: "rune list \<Rightarrow> string" where
  "string_of_runes rs = of_byte_vals (encode_runes rs)"

section \<open>Package strings\<close>

text \<open>\<open>strings.Map\<close> on the runes of a string: a mapping to \<open>None\<close> drops the rune.\<close>

definition Map_runes :: "(rune \<Rightarrow> rune option) \<Rightarrow> rune list \<Rightarrow> rune list" where
  "Map_runes mapping rs = List.map_filter mapping rs"

text \<open>\<open>strings.ReplaceAll\<close> for an \<open>old\<close> that is not empty, on bytes or on runes.\<close>

function ReplaceAll :: "'a list \<Rightarrow> 'a list \<Rightarrow> 'a list \<Rightarrow> 'a list" where
  "ReplaceAll [] old new = []"
| "ReplaceAll (c # s) old new =
     (if old \<noteq> [] \<and> take (length old) (c # s) = old
      then new @ ReplaceAll (drop (length old - 1) s) old new
      else c # ReplaceAll s old new)"
  by pat_completeness auto
termination
  by (relation "measure (\<lambda>(s, old, new). length s)") auto

text \<open>\<open>strings.TrimRight\<close> with a cutset of one byte, \<open>strings.Split\<close> and \<open>SplitN\<close> at a byte.\<close>

definition TrimRight :: "string \<Rightarrow> char \<Rightarrow> string" where
  "TrimRight s c = rev (dropWhile (\<lambda>d. d = c) (rev s))"

fun Split :: "string \<Rightarrow> char \<Rightarrow> string list" where
  "Split [] sep = [[]]"
| "Split (c # s) sep =
     (if c = sep then [] # Split s sep
      else case Split s sep of
             piece # pieces \<Rightarrow> (c # piece) # pieces
           | [] \<Rightarrow> [[c]])"

fun SplitN :: "nat \<Rightarrow> string \<Rightarrow> char \<Rightarrow> string list" where
  "SplitN 0 s sep = []"
| "SplitN (Suc 0) s sep = [s]"
| "SplitN (Suc (Suc n)) s sep =
     (case dropWhile (\<lambda>c. c \<noteq> sep) s of
        [] \<Rightarrow> [s]
      | _ # rest \<Rightarrow> takeWhile (\<lambda>c. c \<noteq> sep) s # SplitN (Suc n) rest sep)"

text \<open>The UTF-8 encodings of the white space that \<open>strings.TrimSpace\<close> removes.\<close>

definition white_space :: "string list" where
  "white_space =
     [[CHR 0x09], [CHR 0x0A], [CHR 0x0B], [CHR 0x0C], [CHR 0x0D], [CHR 0x20],
      [CHR 0xC2, CHR 0x85], [CHR 0xC2, CHR 0xA0], [CHR 0xE1, CHR 0x9A, CHR 0x80],
      [CHR 0xE2, CHR 0x80, CHR 0x80], [CHR 0xE2, CHR 0x80, CHR 0x81],
      [CHR 0xE2, CHR 0x80, CHR 0x82], [CHR 0xE2, CHR 0x80, CHR 0x83],
      [CHR 0xE2, CHR 0x80, CHR 0x84], [CHR 0xE2, CHR 0x80, CHR 0x85],
      [CHR 0xE2, CHR 0x80, CHR 0x86], [CHR 0xE2, CHR 0x80, CHR 0x87],
      [CHR 0xE2, CHR 0x80, CHR 0x88], [CHR 0xE2, CHR 0x80, CHR 0x89],
      [CHR 0xE2, CHR 0x80, CHR 0x8A], [CHR 0xE2, CHR 0x80, CHR 0xA8],
      [CHR 0xE2, CHR 0x80, CHR 0xA9], [CHR 0xE2, CHR 0x80, CHR 0xAF],
      [CHR 0xE2, CHR 0x81, CHR 0x9F], [CHR 0xE3, CHR 0x80, CHR 0x80]]"

function strip_leading :: "string list \<Rightarrow> string \<Rightarrow> string" where
  "strip_leading ws s =
     (case find (\<lambda>w. w \<noteq> [] \<and> HasPrefix s w) ws of
        None \<Rightarrow> s
      | Some w \<Rightarrow> strip_leading ws (drop (length w) s))"
  by pat_completeness auto
termination
proof (relation "measure (\<lambda>(ws, s). length s)")
  fix ws s w
  assume "find (\<lambda>w. w \<noteq> [] \<and> HasPrefix s w) ws = Some w"
  then have w: "w \<noteq> []" "HasPrefix s w" by (auto simp: find_Some_iff)
  then have "length w \<le> length s" by (auto simp: HasPrefix_prefix dest: prefix_length_le)
  with w show "((ws, drop (length w) s), ws, s) \<in> measure (\<lambda>(ws, s). length s)"
    by (cases w) auto
qed simp

declare strip_leading.simps [simp del]

definition TrimSpace :: "string \<Rightarrow> string" where
  "TrimSpace s =
     rev (strip_leading (map rev white_space) (rev (strip_leading white_space s)))"

definition newline :: char where "newline = CHR 0x0A"

section \<open>Package fmt\<close>

definition digit_char :: "nat \<Rightarrow> char" where
  "digit_char d = char_of (48 + d)"

text \<open>\<open>%d\<close> of an unsigned number.\<close>

fun decimal :: "nat \<Rightarrow> string" where
  "decimal n = (if n < 10 then [digit_char n] else decimal (n div 10) @ [digit_char (n mod 10)])"

declare decimal.simps [simp del]

section \<open>Lemmas: UTF-8\<close>

lemma of_char_nonneg [simp]: "0 \<le> (of_char c :: int)"
proof -
  have "0 \<le> int (of_char c)" by simp
  then show ?thesis by (simp only: of_nat_of_char)
qed

lemma DecodeRune_ascii [simp]: "b < 0x80 \<Longrightarrow> DecodeRune (b # bs) = (b, 1)"
  by (simp add: DecodeRune.simps)

lemma decode_ascii: "list_all (\<lambda>b. b < 0x80) bs \<Longrightarrow> decode_runes bs = bs"
  by (induction bs) simp_all

lemma EncodeRune_ascii: "0 \<le> r \<Longrightarrow> r < 0x80 \<Longrightarrow> EncodeRune r = [r]"
  by (simp add: EncodeRune_def valid_rune_def in_range_def)

text \<open>A byte below 128 in an encoding is the rune itself.\<close>

lemma EncodeRune_low: "b \<in> set (EncodeRune r) \<Longrightarrow> b < 0x80 \<Longrightarrow> b = r \<and> 0 \<le> r"
  by (auto simp: EncodeRune_def valid_rune_def in_range_def RuneError_def Let_def split: if_splits)

lemma EncodeRune_bytes: "b \<in> set (EncodeRune r) \<Longrightarrow> 0 \<le> b \<and> b < 256"
  by (auto simp: EncodeRune_def valid_rune_def in_range_def RuneError_def Let_def split: if_splits)

text \<open>A text of valid runes is what its encoding decodes to.\<close>

lemma digits64_2: "0 \<le> (r::int) \<Longrightarrow> (r div 64) * 64 + r mod 64 = r"
  by simp

lemma digits64_3:
  fixes r :: int
  shows "(r div 4096) * 4096 + (r div 64 mod 64) * 64 + r mod 64 = r"
proof -
  have "r div 4096 = r div 64 div 64" by (simp add: zdiv_zmult2_eq [symmetric])
  then show ?thesis using div_mult_mod_eq [of "r div 64" 64] div_mult_mod_eq [of r 64] by linarith
qed

lemma digits64_4:
  fixes r :: int
  shows "(r div 262144) * 262144 + (r div 4096 mod 64) * 4096 + (r div 64 mod 64) * 64 + r mod 64 = r"
proof -
  have "r div 262144 = r div 4096 div 64" by (simp add: zdiv_zmult2_eq [symmetric])
  then show ?thesis using div_mult_mod_eq [of "r div 4096" 64] digits64_3 [of r] by linarith
qed

lemma DecodeRune_4:
  assumes "0 \<le> a" "a \<le> 4" "a = 0 \<Longrightarrow> 16 \<le> b" "a = 4 \<Longrightarrow> b \<le> 15"
    "0 \<le> b" "b \<le> 63" "0 \<le> c" "c \<le> 63" "0 \<le> d" "d \<le> 63"
  shows "DecodeRune ((240 + a) # (128 + b) # (128 + c) # (128 + d) # bs)
    = (a * 262144 + b * 4096 + c * 64 + d, 4)"
  using assms by (simp add: DecodeRune.simps in_range_def)

lemma EncodeRune_4:
  "valid_rune r \<Longrightarrow> 0x10000 \<le> r \<Longrightarrow> EncodeRune r =
     [240 + r div 262144, 128 + r div 4096 mod 64, 128 + r div 64 mod 64, 128 + r mod 64]"
  by (simp add: EncodeRune_def)

lemma DecodeRune_3:
  assumes "0 \<le> a" "a \<le> 15" "a = 0 \<Longrightarrow> 32 \<le> b" "a = 13 \<Longrightarrow> b \<le> 31"
    "0 \<le> b" "b \<le> 63" "0 \<le> c" "c \<le> 63"
  shows "DecodeRune ((224 + a) # (128 + b) # (128 + c) # bs) = (a * 4096 + b * 64 + c, 3)"
  using assms by (simp add: DecodeRune.simps in_range_def)

lemma EncodeRune_3:
  "valid_rune r \<Longrightarrow> 0x800 \<le> r \<Longrightarrow> r < 0x10000 \<Longrightarrow> EncodeRune r =
     [224 + r div 4096, 128 + r div 64 mod 64, 128 + r mod 64]"
  by (simp add: EncodeRune_def)

lemma DecodeRune_Encode:
  assumes "valid_rune r"
  shows "DecodeRune (EncodeRune r @ bs) = (r, length (EncodeRune r))"
proof -
  have r: "0 \<le> r" "r \<le> 0x10FFFF" "r < 0xD800 \<or> 0xDFFF < r"
    using assms by (auto simp: valid_rune_def in_range_def)
  have m: "0 \<le> x mod 64" "x mod 64 \<le> 63" for x :: int
    using pos_mod_bound [of 64 x] by auto
  consider "r < 0x80" | "0x80 \<le> r" "r < 0x800" | "0x800 \<le> r" "r < 0x10000" | "0x10000 \<le> r"
    by linarith
  then show ?thesis
  proof cases
    case 1
    then show ?thesis using assms by (simp add: EncodeRune_def)
  next
    case 2
    have "2 \<le> r div 64" "r div 64 \<le> 31" using 2 by auto
    then show ?thesis
      using 2 assms m [of r] by (simp add: EncodeRune_def DecodeRune.simps in_range_def digits64_2)
  next
    case 3
    have b: "0 \<le> r div 4096" "r div 4096 \<le> 15" using 3 by auto
    have lo: "32 \<le> r div 64 mod 64" if "r div 4096 = 0"
      using that 3 digits64_3 [of r] m [of r] by linarith
    have hi: "r div 64 mod 64 \<le> 31" if "r div 4096 = 13"
      using that 3 r digits64_3 [of r] m [of r] m [of "r div 64"] by linarith
    show ?thesis
      unfolding EncodeRune_3 [OF assms 3] append.simps
      by (subst DecodeRune_3 [OF b lo hi]) (simp_all only: m digits64_3 list.size, simp)
  next
    case 4
    have b: "0 \<le> r div 262144" "r div 262144 \<le> 4" using 4 r by auto
    have lo: "16 \<le> r div 4096 mod 64" if "r div 262144 = 0"
      using that 4 digits64_4 [of r] m [of r] m [of "r div 64"] by linarith
    have hi: "r div 4096 mod 64 \<le> 15" if "r div 262144 = 4"
      using that 4 r digits64_4 [of r] m [of r] m [of "r div 64"] by linarith
    show ?thesis
      unfolding EncodeRune_4 [OF assms 4] append.simps
      by (subst DecodeRune_4 [OF b lo hi]) (simp_all only: m digits64_4 list.size, simp)
  qed
qed

lemma decode_encode: "list_all valid_rune rs \<Longrightarrow> decode_runes (encode_runes rs) = rs"
proof (induction rs)
  case Nil
  then show ?case by (simp add: encode_runes_def)
next
  case (Cons r rs)
  obtain b bs where b: "EncodeRune r = b # bs" by (cases "EncodeRune r") (auto simp: EncodeRune_def Let_def split: if_splits)
  have "DecodeRune (b # (bs @ encode_runes rs)) = (r, Suc (length bs))"
    using DecodeRune_Encode [of r "encode_runes rs"] Cons.prems b by simp
  then show ?case using Cons b by (simp add: encode_runes_def)
qed

section \<open>Lemmas: strings\<close>

lemma HasPrefix_append [simp]: "HasPrefix (p @ s) p"
  by (simp add: HasPrefix_def)

lemma strip_leading_none:
  "\<forall>w \<in> set ws. w = [] \<or> \<not> HasPrefix s w \<Longrightarrow> strip_leading ws s = s"
  by (subst strip_leading.simps) (auto simp: find_None_iff split: option.split
      dest!: find_Some_iff [THEN iffD1])

lemma TrimSpace_solid:
  assumes "\<forall>w \<in> set white_space. \<not> HasPrefix s w"
    and "\<forall>w \<in> set white_space. \<not> HasPrefix (rev s) (rev w)"
  shows "TrimSpace s = s"
proof -
  have "strip_leading white_space s = s" using assms(1) by (intro strip_leading_none) simp
  moreover have "strip_leading (map rev white_space) (rev s) = rev s"
    using assms(2) by (intro strip_leading_none) auto
  ultimately show ?thesis by (simp add: TrimSpace_def)
qed

section \<open>Lemmas: numbers\<close>

definition undecimal :: "string \<Rightarrow> nat" where
  "undecimal s = foldl (\<lambda>n c. 10 * n + (of_char c - 48)) 0 s"

lemma of_char_digit: "d < 10 \<Longrightarrow> of_char (digit_char d) = 48 + d"
  by (simp add: digit_char_def)

lemma undecimal_decimal: "undecimal (decimal n) = n"
proof (induction n rule: decimal.induct)
  case (1 n)
  show ?case
  proof (cases "n < 10")
    case True
    then show ?thesis by (simp add: decimal.simps undecimal_def of_char_digit)
  next
    case False
    then have "undecimal (decimal (n div 10)) = n div 10" by (rule 1)
    then show ?thesis
      using False by (subst decimal.simps) (simp add: undecimal_def of_char_digit)
  qed
qed

lemma decimal_inject [simp]: "decimal m = decimal n \<longleftrightarrow> m = n"
  by (metis undecimal_decimal)

lemma decimal_digits: "c \<in> set (decimal n) \<Longrightarrow> (48::nat) \<le> of_char c \<and> of_char c \<le> (57::nat)"
proof (induction n rule: decimal.induct)
  case (1 n)
  show ?case
  proof (cases "n < 10")
    case True
    then show ?thesis using 1 decimal.simps [of n] by (simp add: of_char_digit)
  next
    case False
    then show ?thesis
      using 1 decimal.simps [of n] by (auto simp: of_char_digit)
  qed
qed

end
