(* ===== verification/Go_Float.thy ===== *)
theory Go_Float
  imports Go_Std Complex_Main
begin

text \<open>
  Numbers of type \<open>float64\<close>: a rational, an infinity or NaN, compared as IEEE 754 does, and
  the rounding of an exact value to the nearest of them (ties to even), which is what
  \<open>strconv.ParseFloat\<close> does with a decimal literal.
\<close>

section \<open>Comparison\<close>

datatype float64 = Fin rat | PosInf | NegInf | NaN

fun flt :: "float64 \<Rightarrow> float64 \<Rightarrow> bool" where
  "flt (Fin x) (Fin y) = (x < y)"
| "flt (Fin x) PosInf = True"
| "flt NegInf (Fin y) = True"
| "flt NegInf PosInf = True"
| "flt _ _ = False"

section \<open>Rounding\<close>

definition pow2 :: "int \<Rightarrow> rat" where
  "pow2 e = (if 0 \<le> e then 2 ^ nat e else 1 / 2 ^ nat (- e))"

text \<open>The number of binary digits of a number.\<close>

fun bits :: "nat \<Rightarrow> nat" where
  "bits n = (if n = 0 then 0 else Suc (bits (n div 2)))"

declare bits.simps [simp del]

text \<open>The exponent \<open>e\<close> with \<open>2 ^ e \<le> x < 2 ^ (e + 1)\<close>, for a positive \<open>x\<close>.\<close>

definition binade :: "rat \<Rightarrow> int" where
  "binade x =
     (let (a, b) = quotient_of x;
          e = int (bits (nat a)) - int (bits (nat b))
      in if x < pow2 e then e - 1 else e)"

text \<open>The distance of neighbours: 53 digits, and nothing below \<open>2 ^ -1074\<close>.\<close>

definition ulp :: "rat \<Rightarrow> rat" where
  "ulp x = pow2 (max (binade x - 52) (- 1074))"

definition round_even :: "rat \<Rightarrow> int" where
  "round_even q =
     (let n = \<lfloor>q\<rfloor>; d = q - of_int n
      in if d < 1 / 2 then n else if d > 1 / 2 then n + 1 else if even n then n else n + 1)"

definition round_pos :: "rat \<Rightarrow> rat" where
  "round_pos x = of_int (round_even (x / ulp x)) * ulp x"

text \<open>\<open>None\<close> is a value that rounds to an infinity.\<close>

definition round64 :: "rat \<Rightarrow> rat option" where
  "round64 x =
     (if x = 0 then Some 0
      else let r = round_pos \<bar>x\<bar> in
           if pow2 1024 \<le> r then None else Some (if x < 0 then - r else r))"

section \<open>Lemmas: powers\<close>

lemma pow2_pos [simp]: "0 < pow2 e"
  by (simp add: pow2_def)

lemma pow2_nonneg [simp]: "0 \<le> pow2 e" and pow2_nonzero [simp]: "pow2 e \<noteq> 0"
  by (simp_all add: pow2_def)

lemma pow2_add: "pow2 (a + b) = pow2 a * pow2 b"
proof -
  have "pow2 n = power_int 2 n" for n
    by (simp add: pow2_def power_int_def power_one_over inverse_eq_divide)
  then show ?thesis by (simp add: power_int_add)
qed

lemma pow2_0 [simp]: "pow2 0 = 1" and pow2_1 [simp]: "pow2 1 = 2"
  by (simp_all add: pow2_def)

lemma pow2_nat: "pow2 (int n) = of_int (2 ^ n)"
  by (simp add: pow2_def)

lemma pow2_diff: "pow2 (a - b) = pow2 a / pow2 b"
  using pow2_add [of "a - b" b] by (simp add: field_simps)

lemma pow2_less [simp]: "pow2 a < pow2 b \<longleftrightarrow> a < b"
proof -
  have mono: "pow2 a < pow2 b" if "a < b" for a b
  proof -
    have "pow2 b = pow2 a * pow2 (b - a)" using pow2_add [of a "b - a"] by simp
    moreover have "(1 :: rat) < 2 ^ nat (b - a)" using that by (intro one_less_power) auto
    then have "1 < pow2 (b - a)" using that by (simp add: pow2_def)
    ultimately show ?thesis using pow2_pos [of a] by simp
  qed
  show ?thesis using mono [of a b] mono [of b a] by (cases "a < b"; cases "a = b") auto
qed

lemma pow2_le [simp]: "pow2 a \<le> pow2 b \<longleftrightarrow> a \<le> b"
  by (simp add: linorder_not_less [symmetric])

section \<open>Lemmas: the exponent\<close>

lemma bits_bounds: "0 < n \<Longrightarrow> 0 < bits n \<and> 2 ^ (bits n - 1) \<le> n \<and> n < 2 ^ bits n"
proof (induction n rule: bits.induct)
  case (1 n)
  show ?case
  proof (cases "n div 2 = 0")
    case True
    then show ?thesis using 1(2) by (simp add: bits.simps)
  next
    case False
    with 1 have IH: "0 < bits (n div 2)" "2 ^ (bits (n div 2) - 1) \<le> n div 2"
      "n div 2 < 2 ^ bits (n div 2)" by simp_all
    then have "2 ^ bits (n div 2) = (2::nat) * 2 ^ (bits (n div 2) - 1)"
      by (cases "bits (n div 2)") simp_all
    moreover have "bits n = Suc (bits (n div 2))" using 1(2) by (simp add: bits.simps)
    ultimately show ?thesis using IH by (simp add: algebra_simps) linarith
  qed
qed

lemma binade_bounds:
  assumes "0 < x"
  shows "pow2 (binade x) \<le> x" "x < pow2 (binade x + 1)"
proof -
  obtain a b where q: "quotient_of x = (a, b)" by (cases "quotient_of x")
  have b: "0 < b" by (rule quotient_of_denom_pos [OF q])
  have x: "x = of_int a / of_int b" by (rule quotient_of_div [OF q])
  have a: "0 < a" using assms b by (simp add: x zero_less_divide_iff)
  define la lb where "la = int (bits (nat a))" and "lb = int (bits (nat b))"
  have bound: "pow2 (int (bits (nat n)) - 1) \<le> of_int n \<and> of_int n < pow2 (int (bits (nat n)))"
    if "0 < n" for n :: int
  proof -
    have n: "0 < bits (nat n)" "2 ^ (bits (nat n) - 1) \<le> nat n" "nat n < 2 ^ bits (nat n)"
      using bits_bounds [of "nat n"] that by simp_all
    have "(2::int) ^ (bits (nat n) - 1) \<le> n" "n < 2 ^ bits (nat n)"
      using n(2,3) that by (simp_all add: le_nat_iff nat_less_iff)
    moreover have "int (bits (nat n)) - 1 = int (bits (nat n) - 1)" using n(1) by simp
    ultimately show ?thesis by (simp only: pow2_nat of_int_le_iff of_int_less_iff)
  qed
  have A: "pow2 (la - 1) \<le> of_int a" "of_int a < pow2 la"
    and B: "pow2 (lb - 1) \<le> of_int b" "of_int b < pow2 lb"
    using bound [OF a] bound [OF b] by (simp_all add: la_def lb_def)
  have bpos: "(0::rat) < of_int b" using b by simp
  have low: "pow2 (la - lb - 1) \<le> x"
  proof -
    have "pow2 (la - lb - 1) * of_int b \<le> pow2 (la - lb - 1) * pow2 lb"
      using B(2) by (intro mult_left_mono) simp_all
    also have "\<dots> = pow2 (la - 1)" by (simp add: pow2_add [symmetric])
    also have "\<dots> \<le> of_int a" by (rule A(1))
    finally show ?thesis using bpos by (simp add: x field_simps)
  qed
  have high: "x < pow2 (la - lb + 1)"
  proof -
    have "of_int a < pow2 la" by (rule A(2))
    also have "\<dots> = pow2 (la - lb + 1) * pow2 (lb - 1)" by (simp add: pow2_add [symmetric])
    also have "\<dots> \<le> pow2 (la - lb + 1) * of_int b"
      using B(1) by (intro mult_left_mono) simp_all
    finally show ?thesis using bpos by (simp add: x field_simps)
  qed
  have "binade x = (if x < pow2 (la - lb) then la - lb - 1 else la - lb)"
    by (simp add: binade_def q la_def lb_def Let_def)
  then show "pow2 (binade x) \<le> x" "x < pow2 (binade x + 1)"
    using low high by (simp_all split: if_splits)
qed

lemma binade_unique:
  assumes "pow2 e \<le> x" "x < pow2 (e + 1)"
  shows "binade x = e"
proof -
  have "0 < x" using assms(1) pow2_pos [of e] by linarith
  note b = binade_bounds [OF this]
  have "pow2 e < pow2 (binade x + 1)" "pow2 (binade x) < pow2 (e + 1)"
    using assms b by linarith+
  then show ?thesis by simp
qed

lemma binade_mono:
  assumes "0 < x" "x \<le> y"
  shows "binade x \<le> binade y"
proof -
  have "pow2 (binade x) < pow2 (binade y + 1)"
    using binade_bounds(1) [OF assms(1)] binade_bounds(2) [of y] assms by linarith
  then show ?thesis by simp
qed

section \<open>Lemmas: rounding\<close>

lemma round_even_int [simp]: "round_even (of_int n) = n"
  by (simp add: round_even_def)

lemma round_even_mono:
  assumes "p \<le> q"
  shows "round_even p \<le> round_even q"
proof (cases "\<lfloor>p\<rfloor> = \<lfloor>q\<rfloor>")
  case True
  then show ?thesis using assms by (auto simp: round_even_def Let_def)
next
  case False
  moreover have "\<lfloor>p\<rfloor> \<le> \<lfloor>q\<rfloor>" using assms by (rule floor_mono)
  ultimately have "\<lfloor>p\<rfloor> + 1 \<le> \<lfloor>q\<rfloor>" by simp
  then show ?thesis by (auto simp: round_even_def Let_def)
qed

lemma round_even_close: "\<bar>of_int (round_even q) - q\<bar> \<le> 1 / 2"
proof -
  have "of_int \<lfloor>q\<rfloor> \<le> q" "q < of_int \<lfloor>q\<rfloor> + 1" by linarith+
  then show ?thesis unfolding round_even_def Let_def abs_le_iff
    by (cases "q - of_int \<lfloor>q\<rfloor> < 1 / 2"; cases "q - of_int \<lfloor>q\<rfloor> > 1 / 2"; simp) linarith+
qed

lemma ulp_pos [simp]: "0 < ulp x" and ulp_nonzero [simp]: "ulp x \<noteq> 0"
  by (simp_all add: ulp_def)

text \<open>The result is within half a neighbour's distance.\<close>

lemma round_pos_close: "\<bar>round_pos x - x\<bar> \<le> ulp x / 2"
proof -
  have "round_pos x - x = (of_int (round_even (x / ulp x)) - x / ulp x) * ulp x"
    by (simp add: round_pos_def field_simps)
  then have "\<bar>round_pos x - x\<bar> = \<bar>of_int (round_even (x / ulp x)) - x / ulp x\<bar> * ulp x"
    by (simp add: abs_mult abs_of_pos)
  also have "\<dots> \<le> 1 / 2 * ulp x"
    by (intro mult_right_mono round_even_close) (simp add: less_imp_le)
  finally show ?thesis by simp
qed

text \<open>A multiple of the distance is not crossed.\<close>

lemma round_pos_le_multiple:
  assumes "x \<le> of_int n * ulp x"
  shows "round_pos x \<le> of_int n * ulp x"
proof -
  have "x / ulp x \<le> of_int n" using assms by (simp add: divide_le_eq)
  from round_even_mono [OF this] have "of_int (round_even (x / ulp x)) \<le> (of_int n :: rat)" by simp
  then show ?thesis unfolding round_pos_def by (rule mult_right_mono) (simp add: less_imp_le)
qed

lemma round_pos_ge_multiple:
  assumes "of_int n * ulp x \<le> x"
  shows "of_int n * ulp x \<le> round_pos x"
proof -
  have "of_int n \<le> x / ulp x" using assms by (simp add: le_divide_eq)
  from round_even_mono [OF this] have "of_int n \<le> (of_int (round_even (x / ulp x)) :: rat)" by simp
  then show ?thesis unfolding round_pos_def by (rule mult_right_mono) (simp add: less_imp_le)
qed

lemma pow2_multiple:
  assumes "max (binade x - 52) (- 1074) \<le> e"
  obtains n where "pow2 e = of_int n * ulp x"
proof
  let ?k = "max (binade x - 52) (- 1074)"
  have "pow2 e = pow2 (int (nat (e - ?k))) * pow2 ?k"
    using assms pow2_add [of "e - ?k" ?k] by simp
  then show "pow2 e = of_int (2 ^ nat (e - ?k)) * ulp x" by (simp only: ulp_def pow2_nat)
qed

lemma round_pos_mono:
  assumes "0 < x" "x \<le> y"
  shows "round_pos x \<le> round_pos y"
proof (cases "ulp x = ulp y")
  case True
  then have "x / ulp x \<le> y / ulp y" using assms by (simp add: divide_right_mono less_imp_le)
  from round_even_mono [OF this]
  show ?thesis using True by (simp add: round_pos_def less_imp_le mult_right_mono)
next
  case False
  let ?e = "binade y"
  have le: "binade x \<le> ?e" by (rule binade_mono [OF assms])
  have "max (binade x - 52) (- 1074) \<noteq> max (?e - 52) (- 1074)" using False by (auto simp: ulp_def)
  with le have lt: "binade x < ?e" "- 1074 < ?e - 52" by (auto simp: max_def split: if_splits)
  have "x < pow2 (binade x + 1)" by (rule binade_bounds(2) [OF assms(1)])
  also have "\<dots> \<le> pow2 ?e" using lt by simp
  finally have x: "x \<le> pow2 ?e" by simp
  have y: "pow2 ?e \<le> y" using binade_bounds(1) assms by simp
  obtain n where n: "pow2 ?e = of_int n * ulp x" using pow2_multiple [of x ?e] lt by auto
  obtain m where m: "pow2 ?e = of_int m * ulp y" using pow2_multiple [of y ?e] lt by auto
  have "round_pos x \<le> pow2 ?e" using round_pos_le_multiple [of x n] x n by simp
  also have "\<dots> \<le> round_pos y" using round_pos_ge_multiple [of m y] y m by simp
  finally show ?thesis .
qed

lemma round_pos_nonneg: "0 < x \<Longrightarrow> 0 \<le> round_pos x"
  using round_pos_ge_multiple [of 0 x] by simp

text \<open>A number of at most 53 digits is its own rounding.\<close>

lemma round_pos_exact:
  assumes "0 < m" "m < 2 ^ 53" "- 1074 \<le> k" "x = of_int m * pow2 k"
  shows "round_pos x = x"
proof -
  have x: "0 < x" using assms by simp
  have "of_int m < (of_int (2 ^ 53) :: rat)" using assms(2) by (simp only: of_int_less_iff)
  then have "x < of_int (2 ^ 53) * pow2 k" unfolding assms(4) by (rule mult_strict_right_mono) simp
  also have "of_int (2 ^ 53) = pow2 53" using pow2_nat [of 53] by simp
  finally have "x < pow2 (53 + k)" by (simp add: pow2_add)
  then have "pow2 (binade x) < pow2 (53 + k)" using binade_bounds(1) [OF x] by linarith
  then have "max (binade x - 52) (- 1074) \<le> k" using assms(3) by simp
  then obtain n where n: "pow2 k = of_int n * ulp x" by (rule pow2_multiple)
  then have *: "x = of_int (m * n) * ulp x" by (simp only: assms(4) of_int_mult mult.assoc)
  then have "x / ulp x = of_int (m * n)" by (metis nonzero_mult_div_cancel_right ulp_nonzero)
  then have "round_pos x = of_int (m * n) * ulp x" by (simp only: round_pos_def round_even_int)
  then show ?thesis using * by simp
qed

lemma round64_exact:
  assumes "\<bar>m\<bar> < 2 ^ 53" "- 1074 \<le> k" "k \<le> 971" "x = of_int m * pow2 k"
  shows "round64 x = Some x"
proof (cases "m = 0")
  case True
  then show ?thesis by (simp add: round64_def assms(4))
next
  case False
  have "\<bar>x\<bar> = of_int \<bar>m\<bar> * pow2 k" by (simp add: assms(4) abs_mult)
  then have r: "round_pos \<bar>x\<bar> = \<bar>x\<bar>"
    using False assms(1,2) by (intro round_pos_exact [of "\<bar>m\<bar>" k]) auto
  have "of_int \<bar>m\<bar> < (of_int (2 ^ 53) :: rat)" using assms(1) by (simp only: of_int_less_iff)
  then have "\<bar>x\<bar> < of_int (2 ^ 53) * pow2 k"
    unfolding \<open>\<bar>x\<bar> = _\<close> by (rule mult_strict_right_mono) simp
  also have "\<dots> = pow2 (53 + k)" using pow2_nat [of 53] by (simp add: pow2_add)
  also have "\<dots> \<le> pow2 1024" using assms(3) by simp
  finally show ?thesis using r by (auto simp: round64_def Let_def abs_if split: if_splits)
qed

lemma round64_mono:
  assumes "0 \<le> x" "x \<le> y" "round64 x = Some a" "round64 y = Some b"
  shows "a \<le> b"
proof (cases "x = 0")
  case True
  then show ?thesis
    using assms round_pos_nonneg [of y] by (auto simp: round64_def Let_def split: if_splits)
next
  case False
  then show ?thesis
    using assms round_pos_mono [of x y] by (auto simp: round64_def Let_def split: if_splits)
qed

text \<open>The unit interval is closed under rounding.\<close>

lemma round64_unit:
  assumes "0 \<le> x" "x \<le> 1"
  obtains r where "round64 x = Some r" "0 \<le> r" "r \<le> 1"
proof (cases "x = 0")
  case True
  then show ?thesis using that [of 0] by (simp add: round64_def)
next
  case False
  have one: "round_pos 1 = 1" using round_pos_exact [of 1 0 1] by simp
  have "round_pos x \<le> 1" using round_pos_mono [of x 1] False assms one by simp
  moreover have "(1::rat) < pow2 1024" using pow2_less [of 0 1024] by (simp del: pow2_less)
  ultimately show ?thesis
    using that [of "round_pos x"] False assms round_pos_nonneg [of x]
    by (simp add: round64_def Let_def)
qed

end
