(* ===== verification/Go_Json.thy ===== *)
theory Go_Json
  imports Go_Text Go_Float
begin

text \<open>
  Package \<open>encoding/json\<close> as the daemon uses it: reading a document from text (white space,
  the escapes of strings with their surrogate pairs, numbers as \<open>float64\<close>, the limit on
  nesting) and writing strings, objects and arrays. A document is read token by token by a
  machine whose stack holds the arrays and objects that are open, as in the scanner of the
  package; every token consumes text, so reading ends.
\<close>

section \<open>Documents\<close>

text \<open>
  \<open>J_Num None\<close> is a literal that does not fit a \<open>float64\<close>. A document is not well-formed,
  or it is a value, followed by nothing but white space or by something else.
\<close>

datatype json =
    J_Null
  | J_Bool bool
  | J_Num "rat option"
  | J_Str string
  | J_Arr "json list"
  | J_Obj "(string \<times> json) list"

datatype json_input = Malformed | Document json bool

section \<open>Characters\<close>

definition quote_char :: char where "quote_char = CHR 0x22"
definition backslash :: char where "backslash = CHR 0x5C"

definition is_space :: "char \<Rightarrow> bool" where
  "is_space c \<longleftrightarrow> c = CHR '' '' \<or> c = CHR 0x09 \<or> c = CHR 0x0A \<or> c = CHR 0x0D"

definition is_digit :: "char \<Rightarrow> bool" where
  "is_digit c \<longleftrightarrow> in_range 48 57 (of_char c)"

definition digit_val :: "char \<Rightarrow> nat" where
  "digit_val c = of_char c - 48"

section \<open>Strings\<close>

text \<open>The text up to the closing quote, with its escapes, and what follows.\<close>

fun scan_string :: "string \<Rightarrow> (string \<times> string) option" where
  "scan_string [] = None"
| "scan_string (c # s) =
     (if c = quote_char then Some ([], s)
      else if c = backslash then
        (case s of
           [] \<Rightarrow> None
         | e # s' \<Rightarrow> map_option (\<lambda>(body, rest). (c # e # body, rest)) (scan_string s'))
      else if of_char c < (0x20 :: int) then None
      else map_option (\<lambda>(body, rest). (c # body, rest)) (scan_string s))"

definition hex_val :: "rune \<Rightarrow> int option" where
  "hex_val r =
     (if in_range 48 57 r then Some (r - 48)
      else if in_range 97 102 r then Some (r - 87)
      else if in_range 65 70 r then Some (r - 55)
      else None)"

fun getu4 :: "rune list \<Rightarrow> rune option" where
  "getu4 (a # b # c # d # rs) =
     (case (hex_val a, hex_val b, hex_val c, hex_val d) of
        (Some a', Some b', Some c', Some d') \<Rightarrow> Some (4096 * a' + 256 * b' + 16 * c' + d')
      | _ \<Rightarrow> None)"
| "getu4 _ = None"

definition IsSurrogate :: "rune \<Rightarrow> bool" where
  "IsSurrogate r \<longleftrightarrow> in_range 0xD800 0xDFFF r"

text \<open>The rune of a surrogate pair whose second half is the escape at the head of the text.\<close>

fun second_half :: "rune \<Rightarrow> rune list \<Rightarrow> rune option" where
  "second_half r1 (a # b # rs) =
     (if a = 92 \<and> b = 117 then
        (case getu4 rs of
           Some r2 \<Rightarrow>
             if in_range 0xD800 0xDBFF r1 \<and> in_range 0xDC00 0xDFFF r2
             then Some ((r1 - 0xD800) * 1024 + (r2 - 0xDC00) + 0x10000) else None
         | None \<Rightarrow> None)
      else None)"
| "second_half r1 _ = None"

definition simple_escape :: "rune \<Rightarrow> rune option" where
  "simple_escape e =
     (if e = 34 \<or> e = 92 \<or> e = 47 then Some e
      else if e = 98 then Some 8 else if e = 102 then Some 12 else if e = 110 then Some 10
      else if e = 114 then Some 13 else if e = 116 then Some 9 else None)"

function unquote :: "rune list \<Rightarrow> rune list option" where
  "unquote [] = Some []"
| "unquote (r # rs) =
     (if r \<noteq> 92 then map_option ((#) r) (unquote rs)
      else case rs of
        [] \<Rightarrow> None
      | e # rs1 \<Rightarrow>
          if e = 117 then
            (case getu4 rs1 of
               None \<Rightarrow> None
             | Some rr \<Rightarrow>
                 if IsSurrogate rr then
                   (case second_half rr (drop 4 rs1) of
                      Some dec \<Rightarrow> map_option ((#) dec) (unquote (drop 10 rs1))
                    | None \<Rightarrow> map_option ((#) RuneError) (unquote (drop 4 rs1)))
                 else map_option ((#) rr) (unquote (drop 4 rs1)))
          else (case simple_escape e of
                  None \<Rightarrow> None
                | Some x \<Rightarrow> map_option ((#) x) (unquote rs1)))"
  by pat_completeness auto
termination by (relation "measure length") auto

section \<open>Numbers\<close>

record number =
  nb_neg :: bool
  nb_int :: string
  nb_frac :: string
  nb_exp_neg :: bool
  nb_exp :: string

definition scan_frac :: "string \<Rightarrow> (string \<times> string) option" where
  "scan_frac s =
     (case s of
        c # r \<Rightarrow>
          if c = CHR ''.'' then
            if takeWhile is_digit r = [] then None
            else Some (takeWhile is_digit r, dropWhile is_digit r)
          else Some ([], s)
      | [] \<Rightarrow> Some ([], s))"

definition scan_sign :: "string \<Rightarrow> bool \<times> string" where
  "scan_sign s =
     (case s of
        c # r \<Rightarrow> if c = CHR ''-'' then (True, r) else if c = CHR ''+'' then (False, r) else (False, s)
      | [] \<Rightarrow> (False, s))"

definition scan_exp :: "string \<Rightarrow> ((bool \<times> string) \<times> string) option" where
  "scan_exp s =
     (case s of
        c # r \<Rightarrow>
          if c = CHR ''e'' \<or> c = CHR ''E'' then
            (let (neg, r1) = scan_sign r in
             if takeWhile is_digit r1 = [] then None
             else Some ((neg, takeWhile is_digit r1), dropWhile is_digit r1))
          else Some ((False, []), s)
      | [] \<Rightarrow> Some ((False, []), s))"

text \<open>The longest literal; a leading zero stands alone.\<close>

definition scan_number :: "string \<Rightarrow> (number \<times> string) option" where
  "scan_number s =
     (let neg = (s \<noteq> [] \<and> hd s = CHR ''-''); s1 = (if neg then tl s else s) in
      case s1 of
        [] \<Rightarrow> None
      | c # r \<Rightarrow>
          if \<not> is_digit c then None
          else
            let ip = (if c = CHR ''0'' then [c] else takeWhile is_digit s1);
                s2 = (if c = CHR ''0'' then r else dropWhile is_digit s1)
            in case scan_frac s2 of
                 None \<Rightarrow> None
               | Some (fp, s3) \<Rightarrow>
                   (case scan_exp s3 of
                      None \<Rightarrow> None
                    | Some ((eneg, ed), s4) \<Rightarrow>
                        Some (\<lparr>nb_neg = neg, nb_int = ip, nb_frac = fp, nb_exp_neg = eneg,
                               nb_exp = ed\<rparr>, s4)))"

definition digits_val :: "string \<Rightarrow> nat" where
  "digits_val ds = foldl (\<lambda>n c. 10 * n + digit_val c) 0 ds"

text \<open>\<open>strconv\<close> stops adding digits to an exponent of 10,000 or more.\<close>

definition exp_val :: "string \<Rightarrow> nat" where
  "exp_val ds = foldl (\<lambda>e c. if e < 10000 then 10 * e + digit_val c else e) 0 ds"

definition pow10 :: "int \<Rightarrow> rat" where
  "pow10 e = (if 0 \<le> e then 10 ^ nat e else 1 / 10 ^ nat (- e))"

definition number_value :: "number \<Rightarrow> rat" where
  "number_value n =
     (let e = int (exp_val (nb_exp n));
          x = of_nat (digits_val (nb_int n @ nb_frac n))
            * pow10 ((if nb_exp_neg n then - e else e) - int (length (nb_frac n)))
      in if nb_neg n then - x else x)"

section \<open>Tokens\<close>

datatype token =
    T_Open_Obj | T_Close_Obj | T_Open_Arr | T_Close_Arr | T_Comma | T_Colon
  | T_Str string | T_Value json

definition next_token :: "string \<Rightarrow> (token \<times> string) option" where
  "next_token s =
     (case dropWhile is_space s of
        [] \<Rightarrow> None
      | c # r \<Rightarrow>
          if c = CHR 0x7B then Some (T_Open_Obj, r)
          else if c = CHR 0x7D then Some (T_Close_Obj, r)
          else if c = CHR 0x5B then Some (T_Open_Arr, r)
          else if c = CHR 0x5D then Some (T_Close_Arr, r)
          else if c = CHR '','' then Some (T_Comma, r)
          else if c = CHR '':'' then Some (T_Colon, r)
          else if c = quote_char then
            (case scan_string r of
               None \<Rightarrow> None
             | Some (body, r') \<Rightarrow>
                 map_option (\<lambda>rs. (T_Str (string_of_runes rs), r')) (unquote (runes_of body)))
          else if HasPrefix (c # r) ''null'' then Some (T_Value J_Null, drop 4 (c # r))
          else if HasPrefix (c # r) ''true'' then Some (T_Value (J_Bool True), drop 4 (c # r))
          else if HasPrefix (c # r) ''false'' then Some (T_Value (J_Bool False), drop 5 (c # r))
          else map_option (\<lambda>(n, r'). (T_Value (J_Num (round64 (number_value n))), r'))
                 (scan_number (c # r)))"

section \<open>The machine\<close>

text \<open>An open array with its elements, an open object with its members and a key, last first.\<close>

datatype frame = F_Arr "json list" | F_Obj "(string \<times> json) list" string

datatype parse_state =
    S_Value "frame list"
  | S_First_Value "frame list"
  | S_After_Value "json list" "frame list"
  | S_First_Key "frame list"
  | S_Key "(string \<times> json) list" "frame list"
  | S_Colon "(string \<times> json) list" string "frame list"
  | S_After_Member "(string \<times> json) list" "frame list"
  | S_Done json

definition maxNestingDepth :: nat where "maxNestingDepth = 10000"

fun complete :: "json \<Rightarrow> frame list \<Rightarrow> parse_state" where
  "complete v [] = S_Done v"
| "complete v (F_Arr vs # st) = S_After_Value (v # vs) st"
| "complete v (F_Obj ms k # st) = S_After_Member ((k, v) # ms) st"

fun start_value :: "token \<Rightarrow> frame list \<Rightarrow> parse_state option" where
  "start_value T_Open_Obj st = (if length st < maxNestingDepth then Some (S_First_Key st) else None)"
| "start_value T_Open_Arr st = (if length st < maxNestingDepth then Some (S_First_Value st) else None)"
| "start_value (T_Str t) st = Some (complete (J_Str t) st)"
| "start_value (T_Value v) st = Some (complete v st)"
| "start_value _ st = None"

fun parse_step :: "parse_state \<Rightarrow> token \<Rightarrow> parse_state option" where
  "parse_step (S_Value st) t = start_value t st"
| "parse_step (S_First_Value st) t =
     (if t = T_Close_Arr then Some (complete (J_Arr []) st) else start_value t (F_Arr [] # st))"
| "parse_step (S_After_Value vs st) t =
     (if t = T_Comma then Some (S_Value (F_Arr vs # st))
      else if t = T_Close_Arr then Some (complete (J_Arr (rev vs)) st) else None)"
| "parse_step (S_First_Key st) t =
     (case t of T_Str k \<Rightarrow> Some (S_Colon [] k st)
      | T_Close_Obj \<Rightarrow> Some (complete (J_Obj []) st) | _ \<Rightarrow> None)"
| "parse_step (S_Key ms st) t = (case t of T_Str k \<Rightarrow> Some (S_Colon ms k st) | _ \<Rightarrow> None)"
| "parse_step (S_Colon ms k st) t = (if t = T_Colon then Some (S_Value (F_Obj ms k # st)) else None)"
| "parse_step (S_After_Member ms st) t =
     (if t = T_Comma then Some (S_Key ms st)
      else if t = T_Close_Obj then Some (complete (J_Obj (rev ms)) st) else None)"
| "parse_step (S_Done v) t = None"

section \<open>Every token consumes text\<close>

lemma scan_string_shorter: "scan_string s = Some (body, rest) \<Longrightarrow> length rest < length s"
proof (induction s arbitrary: body rule: scan_string.induct)
  case (2 c s)
  then show ?case by (auto split: if_splits list.splits) (fastforce intro: less_SucI)+
qed simp

lemma scan_frac_le: "scan_frac s = Some (fp, rest) \<Longrightarrow> length rest \<le> length s"
  by (auto simp: scan_frac_def length_dropWhile_le le_SucI split: list.splits if_splits)

lemma scan_sign_le: "length (snd (scan_sign s)) \<le> length s"
  by (auto simp: scan_sign_def split: list.splits)

lemma scan_exp_le: "scan_exp s = Some (e, rest) \<Longrightarrow> length rest \<le> length s"
proof (cases s)
  case (Cons c r)
  have "length (dropWhile is_digit (snd (scan_sign r))) \<le> length r"
    using length_dropWhile_le [of is_digit "snd (scan_sign r)"] scan_sign_le [of r] by linarith
  moreover assume "scan_exp s = Some (e, rest)"
  ultimately show ?thesis
    using Cons by (auto simp: scan_exp_def Let_def case_prod_unfold split: if_splits)
qed (auto simp: scan_exp_def)

lemma scan_number_shorter:
  assumes "scan_number s = Some (n, rest)"
  shows "length rest < length s"
proof -
  define s1 where "s1 = (if s \<noteq> [] \<and> hd s = CHR ''-'' then tl s else s)"
  have "length s1 \<le> length s" by (cases s) (auto simp: s1_def)
  moreover obtain c r where c: "s1 = c # r" "is_digit c"
    using assms by (auto simp: scan_number_def s1_def [symmetric] Let_def split: list.splits if_splits)
  define s2 where "s2 = (if c = CHR ''0'' then r else dropWhile is_digit s1)"
  have "length s2 < length s1"
    using c length_dropWhile_le [of is_digit r] by (auto simp: s2_def)
  moreover have "length rest \<le> length s2"
    using assms c by (auto simp: scan_number_def s1_def [symmetric] s2_def Let_def
        split: option.splits if_splits dest!: scan_frac_le scan_exp_le)
  ultimately show ?thesis by linarith
qed

lemma next_token_shorter:
  assumes "next_token s = Some (t, rest)"
  shows "length rest < length s"
proof (cases "dropWhile is_space s")
  case Nil
  then show ?thesis using assms unfolding next_token_def Nil by simp
next
  case (Cons c r)
  then have "Suc (length r) \<le> length s" using length_dropWhile_le [of is_space s] by simp
  moreover have "length rest < Suc (length r)"
    using assms Cons scan_string_shorter [of r] scan_number_shorter [of "c # r"]
    by (auto simp: next_token_def split: if_splits option.splits)
  ultimately show ?thesis by simp
qed

section \<open>Reading\<close>

function parse_from :: "parse_state \<Rightarrow> string \<Rightarrow> (json \<times> string) option" where
  "parse_from S s =
     (case S of
        S_Done v \<Rightarrow> Some (v, s)
      | _ \<Rightarrow>
          (case next_token s of
             None \<Rightarrow> None
           | Some (t, rest) \<Rightarrow>
               (case parse_step S t of None \<Rightarrow> None | Some S' \<Rightarrow> parse_from S' rest)))"
  by pat_completeness auto
termination
  by (relation "measure (\<lambda>(S, s). length s)") (auto dest: next_token_shorter)

declare parse_from.simps [simp del]

text \<open>\<open>Decoder.Decode\<close> takes one value and leaves what follows; \<open>Unmarshal\<close> takes a whole text.\<close>

definition Decode_document :: "string \<Rightarrow> json_input" where
  "Decode_document s =
     (case parse_from (S_Value []) s of
        None \<Rightarrow> Malformed
      | Some (v, rest) \<Rightarrow> Document v (dropWhile is_space rest \<noteq> []))"

definition Unmarshal_value :: "string \<Rightarrow> json option" where
  "Unmarshal_value s = (case Decode_document s of Document v False \<Rightarrow> Some v | _ \<Rightarrow> None)"

section \<open>Writing\<close>

definition html_safe :: "int \<Rightarrow> bool" where
  "html_safe b \<longleftrightarrow> 0x20 \<le> b \<and> b < 0x80 \<and> b \<noteq> 34 \<and> b \<noteq> 92 \<and> b \<noteq> 60 \<and> b \<noteq> 62 \<and> b \<noteq> 38"

definition hex_digit :: "int \<Rightarrow> rune" where
  "hex_digit n = (if n < 10 then 48 + n else 87 + n)"

text \<open>An ASCII byte, as runes.\<close>

definition quote_ascii :: "int \<Rightarrow> rune list" where
  "quote_ascii b =
     (if html_safe b then [b]
      else if b = 34 \<or> b = 92 then [92, b]
      else if b = 8 then [92, 98] else if b = 12 then [92, 102] else if b = 10 then [92, 110]
      else if b = 13 then [92, 114] else if b = 9 then [92, 116]
      else [92, 117, 48, 48, hex_digit (b div 16), hex_digit (b mod 16)])"

text \<open>
  The body of a string from its bytes: an invalid byte is written as the escape of
  \<open>RuneError\<close>, the line separators are escaped, other runes copied.
\<close>

fun quote_body :: "int list \<Rightarrow> int list" where
  "quote_body [] = []"
| "quote_body (b # bs) =
     (if b < 0x80 then quote_ascii b @ quote_body bs
      else case DecodeRune (b # bs) of (r, width) \<Rightarrow>
        if r = RuneError \<and> width = 1 then [92, 117, 102, 102, 102, 100] @ quote_body bs
        else if r = 0x2028 \<or> r = 0x2029 then
          [92, 117, 50, 48, 50, hex_digit (r mod 16)] @ quote_body (drop (width - 1) bs)
        else take width (b # bs) @ quote_body (drop (width - 1) bs))"

definition json_string :: "string \<Rightarrow> string" where
  "json_string s = quote_char # of_byte_vals (quote_body (byte_vals s)) @ [quote_char]"

fun join_comma :: "string list \<Rightarrow> string" where
  "join_comma [] = []"
| "join_comma [t] = t"
| "join_comma (t # ts) = t @ CHR '','' # join_comma ts"

definition json_member :: "string \<times> string \<Rightarrow> string" where
  "json_member m = json_string (fst m) @ CHR '':'' # snd m"

definition json_object :: "(string \<times> string) list \<Rightarrow> string" where
  "json_object ms = CHR 0x7B # join_comma (map json_member ms) @ [CHR 0x7D]"

definition json_array :: "string list \<Rightarrow> string" where
  "json_array ts = CHR 0x5B # join_comma ts @ [CHR 0x5D]"

end
