(* ===== verification/AI_Verdict.thy ===== *)
theory AI_Verdict
  imports Go_Json
begin

text \<open>
  \<open>internal/ai/verdict.go\<close>: validating the answer of the AI provider and turning its risk
  into an action. A \<open>float64\<close> is a rational number, an infinity or NaN, compared as IEEE 754
  does. The document is read by \<open>Decode_document\<close> of \<open>Go_Json\<close>; here it is decoded into the
  struct: field names, types, unknown and repeated members.
\<close>

section \<open>The struct\<close>

record RiskVerdict =
  vd_Reasoning :: string
  vd_Risk :: float64

text \<open>
  Case folding of a member's name, on its bytes: ASCII letters, and the two letters outside
  ASCII that fold to one (the long s and the Kelvin sign).
\<close>

definition to_upper :: "char \<Rightarrow> char" where
  "to_upper c = (let n = (of_char c :: nat) in if 97 \<le> n \<and> n \<le> 122 then char_of (n - 32) else c)"

fun fold_name :: "string \<Rightarrow> string" where
  "fold_name (a # b # c # s) =
     (if a = CHR 0xC5 \<and> b = CHR 0xBF then CHR ''S'' # fold_name (c # s)
      else if a = CHR 0xE2 \<and> b = CHR 0x84 \<and> c = CHR 0xAA then CHR ''K'' # fold_name s
      else to_upper a # fold_name (b # c # s))"
| "fold_name [a, b] =
     (if a = CHR 0xC5 \<and> b = CHR 0xBF then ''S'' else [to_upper a, to_upper b])"
| "fold_name [a] = [to_upper a]"
| "fold_name [] = []"

datatype field = Field_Reasoning | Field_Risk

definition field_of :: "string \<Rightarrow> field option" where
  "field_of name =
     (if name = ''reasoning'' then Some Field_Reasoning
      else if name = ''risk'' then Some Field_Risk
      else if fold_name name = ''REASONING'' then Some Field_Reasoning
      else if fold_name name = ''RISK'' then Some Field_Risk
      else None)"

text \<open>
  One member into the struct: \<open>null\<close> leaves a field alone; the flag says that an error was
  recorded (an unknown field, a value of another type).
\<close>

definition decode_member :: "string \<times> json \<Rightarrow> RiskVerdict \<times> bool \<Rightarrow> RiskVerdict \<times> bool" where
  "decode_member m s =
     (case field_of (fst m) of
        None \<Rightarrow> (fst s, True)
      | Some Field_Reasoning \<Rightarrow>
          (case snd m of
             J_Str t \<Rightarrow> ((fst s)\<lparr>vd_Reasoning := t\<rparr>, snd s)
           | J_Null \<Rightarrow> s
           | _ \<Rightarrow> (fst s, True))
      | Some Field_Risk \<Rightarrow>
          (case snd m of
             J_Num (Some x) \<Rightarrow> ((fst s)\<lparr>vd_Risk := Fin x\<rparr>, snd s)
           | J_Null \<Rightarrow> s
           | _ \<Rightarrow> (fst s, True)))"

definition zero_verdict :: RiskVerdict where
  "zero_verdict = \<lparr>vd_Reasoning = '''', vd_Risk = Fin 0\<rparr>"

definition decode_verdict :: "json \<Rightarrow> RiskVerdict \<times> bool" where
  "decode_verdict v =
     (case v of
        J_Obj ms \<Rightarrow> fold decode_member ms (zero_verdict, False)
      | J_Null \<Rightarrow> (zero_verdict, False)
      | _ \<Rightarrow> (zero_verdict, True))"

section \<open>verdict.go\<close>

datatype verdict_error = Parse_JSON | Trailing_Data | Risk_Out_Of_Range | Missing_Reasoning

definition ParseVerdict :: "json_input \<Rightarrow> verdict_error + RiskVerdict" where
  "ParseVerdict input =
     (case input of
        Malformed \<Rightarrow> Inl Parse_JSON
      | Document v trailing \<Rightarrow>
          let (vd, err) = decode_verdict v in
          if err then Inl Parse_JSON
          else if trailing then Inl Trailing_Data
          else if flt (vd_Risk vd) (Fin 0) \<or> flt (Fin 1) (vd_Risk vd) then Inl Risk_Out_Of_Range
          else if vd_Reasoning vd = '''' then Inl Missing_Reasoning
          else Inr vd)"

datatype AI_Action = AI_Allow | AI_Block

definition AI_Action_String :: "AI_Action \<Rightarrow> string" where
  "AI_Action_String a = (case a of AI_Allow \<Rightarrow> ''ALLOW'' | AI_Block \<Rightarrow> ''BLOCK'')"

definition Evaluate :: "RiskVerdict \<Rightarrow> float64 \<Rightarrow> AI_Action" where
  "Evaluate v threshold = (if flt threshold (vd_Risk v) then AI_Block else AI_Allow)"

section \<open>Lemmas\<close>

text \<open>The last value of a field in an object, its zero value when it has none.\<close>

fun last_value :: "field \<Rightarrow> (string \<times> json) list \<Rightarrow> json option" where
  "last_value f [] = None"
| "last_value f ((n, v) # ms) =
     (case last_value f ms of
        Some w \<Rightarrow> Some w
      | None \<Rightarrow> if field_of n = Some f \<and> v \<noteq> J_Null then Some v else None)"

definition member_ok :: "string \<times> json \<Rightarrow> bool" where
  "member_ok m \<longleftrightarrow>
     (case field_of (fst m) of
        None \<Rightarrow> False
      | Some Field_Reasoning \<Rightarrow> (case snd m of J_Str _ \<Rightarrow> True | J_Null \<Rightarrow> True | _ \<Rightarrow> False)
      | Some Field_Risk \<Rightarrow>
          (case snd m of J_Num (Some _) \<Rightarrow> True | J_Null \<Rightarrow> True | _ \<Rightarrow> False))"

lemma decode_member_err: "snd (decode_member m s) \<longleftrightarrow> snd s \<or> \<not> member_ok m"
  by (auto simp: decode_member_def member_ok_def split: option.split field.split json.split)

lemma decode_members_err: "snd (fold decode_member ms s) \<longleftrightarrow> snd s \<or> \<not> list_all member_ok ms"
  by (induction ms arbitrary: s) (auto simp: decode_member_err)

lemma decode_member_risk:
  "member_ok m \<Longrightarrow> vd_Risk (fst (decode_member m s)) =
     (case (field_of (fst m), snd m) of (Some Field_Risk, J_Num (Some x)) \<Rightarrow> Fin x
      | _ \<Rightarrow> vd_Risk (fst s))"
  by (auto simp: decode_member_def member_ok_def split: option.splits field.splits json.splits)

lemma decode_member_reasoning:
  "member_ok m \<Longrightarrow> vd_Reasoning (fst (decode_member m s)) =
     (case (field_of (fst m), snd m) of (Some Field_Reasoning, J_Str t) \<Rightarrow> t
      | _ \<Rightarrow> vd_Reasoning (fst s))"
  by (auto simp: decode_member_def member_ok_def split: option.splits field.splits json.splits)

lemma member_ok_value:
  "member_ok (n, v) \<Longrightarrow> field_of n = Some Field_Risk \<Longrightarrow> v \<noteq> J_Null \<Longrightarrow> \<exists>x. v = J_Num (Some x)"
  "member_ok (n, v) \<Longrightarrow> field_of n = Some Field_Reasoning \<Longrightarrow> v \<noteq> J_Null \<Longrightarrow> \<exists>t. v = J_Str t"
  by (cases v; auto simp: member_ok_def split: option.splits)+

lemma last_value_shape:
  assumes "list_all member_ok ms"
  shows "last_value Field_Risk ms = Some v \<Longrightarrow> \<exists>x. v = J_Num (Some x)"
    "last_value Field_Reasoning ms = Some v \<Longrightarrow> \<exists>t. v = J_Str t"
  using assms
  by (induction ms) (auto dest: member_ok_value split: option.splits if_splits)

lemma decode_members_risk:
  "list_all member_ok ms \<Longrightarrow> vd_Risk (fst (fold decode_member ms s)) =
     (case last_value Field_Risk ms of Some (J_Num (Some x)) \<Rightarrow> Fin x | _ \<Rightarrow> vd_Risk (fst s))"
proof (induction ms arbitrary: s)
  case (Cons m ms)
  obtain n v where m: "m = (n, v)" by (cases m)
  note IH = Cons.IH [of "decode_member m s"] and ok = Cons.prems
  show ?case
  proof (cases "last_value Field_Risk ms")
    case None
    then show ?thesis
      using IH ok m decode_member_risk [of m s] member_ok_value(1) [of n v]
      by (cases "field_of n = Some Field_Risk"; cases "v = J_Null")
        (auto split: option.split field.split)
  next
    case (Some w)
    then show ?thesis using IH ok m last_value_shape(1) [of ms w] by auto
  qed
qed simp

lemma decode_members_reasoning:
  "list_all member_ok ms \<Longrightarrow> vd_Reasoning (fst (fold decode_member ms s)) =
     (case last_value Field_Reasoning ms of Some (J_Str t) \<Rightarrow> t | _ \<Rightarrow> vd_Reasoning (fst s))"
proof (induction ms arbitrary: s)
  case (Cons m ms)
  obtain n v where m: "m = (n, v)" by (cases m)
  note IH = Cons.IH [of "decode_member m s"] and ok = Cons.prems
  show ?case
  proof (cases "last_value Field_Reasoning ms")
    case None
    then show ?thesis
      using IH ok m decode_member_reasoning [of m s] member_ok_value(2) [of n v]
      by (cases "field_of n = Some Field_Reasoning"; cases "v = J_Null")
        (auto split: option.split field.split)
  next
    case (Some w)
    then show ?thesis using IH ok m last_value_shape(2) [of ms w] by auto
  qed
qed simp

end
