(* ===== verification/Json_Text.thy ===== *)
theory Json_Text
  imports Go_Json
begin

text \<open>
  What \<open>encoding/json\<close> writes it reads back: a string comes back with its invalid bytes
  replaced, an object with its members. \<open>denotes d t v\<close> says that the text \<open>t\<close>, wherever a
  value may stand and with \<open>d\<close> levels of nesting left, is read as \<open>v\<close>.
\<close>

section \<open>Bytes and runes\<close>

definition is_byte :: "int \<Rightarrow> bool" where
  "is_byte b \<longleftrightarrow> 0 \<le> b \<and> b < 256"
lemma byte_vals_bytes: "list_all is_byte (byte_vals s)"
proof -
  have "(of_char c :: int) < 256" for c
  proof -
    have "(of_char c :: nat) < 256" by simp
    then have "int (of_char c) < 256" by linarith
    then show ?thesis by (simp only: of_nat_of_char)
  qed
  then show ?thesis by (auto simp: byte_vals_def list_all_iff is_byte_def)
qed

lemma digit64: "0 \<le> (b::int) \<Longrightarrow> b \<le> 63 \<Longrightarrow> (a * 64 + b) div 64 = a \<and> (a * 64 + b) mod 64 = b"
  by (simp add: div_add1_eq)

lemma div4096: "(r::int) div 4096 = r div 64 div 64" and div262144: "r div 262144 = r div 64 div 64 div 64"
  using zdiv_zmult2_eq [of 64 r 64] zdiv_zmult2_eq [of 64 "r div 64" 64] zdiv_zmult2_eq [of 4096 r 64] by simp_all

lemma Encode_2:
  assumes "2 \<le> a" "a \<le> 31" "0 \<le> b" "b \<le> 63"
  shows "EncodeRune (a * 64 + b) = [0xC0 + a, 0x80 + b] \<and> valid_rune (a * 64 + b)"
  using assms digit64 [of b a] by (simp add: EncodeRune_def valid_rune_def in_range_def)

lemma Encode_3:
  assumes "0 \<le> a" "a \<le> 15" "a = 0 \<Longrightarrow> 32 \<le> b" "a = 13 \<Longrightarrow> b \<le> 31"
    "0 \<le> b" "b \<le> 63" "0 \<le> c" "c \<le> 63"
  shows "EncodeRune (a * 4096 + b * 64 + c) = [0xE0 + a, 0x80 + b, 0x80 + c]
    \<and> valid_rune (a * 4096 + b * 64 + c)"
proof -
  let ?r = "a * 4096 + b * 64 + c"
  have r: "?r = (a * 64 + b) * 64 + c" by simp
  have d: "?r div 64 = a * 64 + b" "?r mod 64 = c" unfolding r using digit64 [of c "a * 64 + b"] assms by simp_all
  then have e: "?r div 4096 = a" "?r div 64 mod 64 = b" using digit64 [of b a] assms by (simp_all add: div4096)
  have v: "valid_rune ?r" "0x800 \<le> ?r" "?r < 0x10000"
    using assms by (cases "a = 0"; cases "a < 13"; cases "a = 13"; simp add: valid_rune_def in_range_def)+
  show ?thesis unfolding EncodeRune_3 [OF v] d(2) e by (simp add: v)
qed

lemma Encode_4:
  assumes "0 \<le> a" "a \<le> 4" "a = 0 \<Longrightarrow> 16 \<le> b" "a = 4 \<Longrightarrow> b \<le> 15"
    "0 \<le> b" "b \<le> 63" "0 \<le> c" "c \<le> 63" "0 \<le> d" "d \<le> 63"
  shows "EncodeRune (a * 262144 + b * 4096 + c * 64 + d) = [0xF0 + a, 0x80 + b, 0x80 + c, 0x80 + d]
    \<and> valid_rune (a * 262144 + b * 4096 + c * 64 + d)"
proof -
  let ?r = "a * 262144 + b * 4096 + c * 64 + d"
  have r: "?r = ((a * 64 + b) * 64 + c) * 64 + d" by simp
  have f: "?r div 64 = (a * 64 + b) * 64 + c" "?r mod 64 = d"
    unfolding r using digit64 [of d "(a * 64 + b) * 64 + c"] assms by simp_all
  have g: "((a * 64 + b) * 64 + c) div 64 = a * 64 + b" "((a * 64 + b) * 64 + c) mod 64 = c"
    using digit64 [of c "a * 64 + b"] assms by simp_all
  have h: "?r div 262144 = a" "?r div 4096 mod 64 = b" "?r div 64 mod 64 = c"
    unfolding div4096 div262144 f g using digit64 [of b a] assms by simp_all
  have v: "valid_rune ?r" "0x10000 \<le> ?r"
    using assms by (cases "a = 0"; cases "a = 4"; simp add: valid_rune_def in_range_def)+
  show ?thesis unfolding EncodeRune_4 [OF v] f(2) h by (simp add: v)
qed

lemma DecodeRune_take:
  assumes "DecodeRune bs = (r, w)" "\<not> (r = RuneError \<and> w \<le> 1)" "list_all is_byte bs"
  shows "take w bs = EncodeRune r \<and> valid_rune r \<and> 0 < w \<and> w \<le> length bs"
proof (cases bs)
  case Nil
  then show ?thesis using assms by (simp add: DecodeRune.simps)
next
  case (Cons b0 bs1)
  have b0: "0 \<le> b0" using assms(3) Cons by (simp add: is_byte_def)
  note D = assms(1) [unfolded Cons DecodeRune.simps]
  consider "b0 < 0x80" | "0x80 \<le> b0" "in_range 0xC2 0xDF b0" | "in_range 0xE0 0xEF b0" | "in_range 0xF0 0xF4 b0"
    using assms(2) D b0 by (auto simp: split: if_splits)
  then show ?thesis
  proof cases
    case 1
    then show ?thesis using D b0 Cons by (auto simp: EncodeRune_ascii valid_rune_def in_range_def)
  next
    case 2
    obtain b1 bs2 where b1: "bs1 = b1 # bs2" "in_range 0x80 0xBF b1"
      using D 2 assms(2) by (auto split: list.splits if_splits)
    then show ?thesis
      using D 2 Cons Encode_2 [of "b0 - 0xC0" "b1 - 0x80"] by (auto simp: in_range_def)
  next
    case 3
    then have n: "\<not> b0 < 0x80" "\<not> in_range 0xC2 0xDF b0" by (auto simp: in_range_def)
    obtain b1 b2 bs2 where b: "bs1 = b1 # b2 # bs2"
      "in_range (if b0 = 0xE0 then 0xA0 else 0x80) (if b0 = 0xED then 0x9F else 0xBF) b1" "in_range 0x80 0xBF b2"
      using D 3 n assms(2) by (auto split: list.splits if_splits)
    then have "r = (b0 - 0xE0) * 4096 + (b1 - 0x80) * 64 + (b2 - 0x80)" "w = 3" using D 3 n by auto
    then show ?thesis
      using 3 Cons b Encode_3 [of "b0 - 0xE0" "b1 - 0x80" "b2 - 0x80"] by (auto simp: in_range_def split: if_splits)
  next
    case 4
    then have n: "\<not> b0 < 0x80" "\<not> in_range 0xC2 0xDF b0" "\<not> in_range 0xE0 0xEF b0" by (auto simp: in_range_def)
    obtain b1 b2 b3 bs2 where b: "bs1 = b1 # b2 # b3 # bs2"
      "in_range (if b0 = 0xF0 then 0x90 else 0x80) (if b0 = 0xF4 then 0x8F else 0xBF) b1" "in_range 0x80 0xBF b2" "in_range 0x80 0xBF b3"
      using D 4 n assms(2) by (auto split: list.splits if_splits)
    then have "r = (b0 - 0xF0) * 262144 + (b1 - 0x80) * 4096 + (b2 - 0x80) * 64 + (b3 - 0x80)" "w = 4" using D 4 n by auto
    then show ?thesis
      using 4 Cons b Encode_4 [of "b0 - 0xF0" "b1 - 0x80" "b2 - 0x80" "b3 - 0x80"] by (auto simp: in_range_def split: if_splits)
  qed
qed

section \<open>The body of a string\<close>

text \<open>The body as runes; only valid ones, so that it is its own decoding.\<close>

fun quote_runes :: "int list \<Rightarrow> rune list" where
  "quote_runes [] = []"
| "quote_runes (b # bs) =
     (if b < 0x80 then quote_ascii b @ quote_runes bs
      else case DecodeRune (b # bs) of (r, width) \<Rightarrow>
        (if r = RuneError \<and> width = 1 then [92, 117, 102, 102, 102, 100]
         else if r = 0x2028 \<or> r = 0x2029 then [92, 117, 50, 48, 50, hex_digit (r mod 16)]
         else [r]) @ quote_runes (drop (width - 1) bs))"

lemma encode_runes_append [simp]: "encode_runes (rs @ ss) = encode_runes rs @ encode_runes ss"
  by (simp add: encode_runes_def)

lemma encode_ascii_list:
  "list_all (\<lambda>r. 0 \<le> r \<and> r < 0x80) rs \<Longrightarrow> encode_runes rs = rs \<and> list_all valid_rune rs"
  by (induction rs) (auto simp: encode_runes_def EncodeRune_ascii valid_rune_def in_range_def)

lemma hex_digit_ascii: "0 \<le> n \<Longrightarrow> n < 16 \<Longrightarrow> 0 \<le> hex_digit n \<and> hex_digit n < 0x80"
  by (auto simp: hex_digit_def)

lemma hex_val_digit: "0 \<le> n \<Longrightarrow> n < 16 \<Longrightarrow> hex_val (hex_digit n) = Some n"
  by (auto simp: hex_digit_def hex_val_def in_range_def)

lemma quote_ascii_ascii:
  "0 \<le> b \<Longrightarrow> b < 0x80 \<Longrightarrow> list_all (\<lambda>r. 0 \<le> r \<and> r < 0x80) (quote_ascii b)"
  using hex_digit_ascii [of "b div 16"] hex_digit_ascii [of "b mod 16"]
  by (auto simp: quote_ascii_def html_safe_def)

lemma DecodeRune_width: "DecodeRune (b # bs) = (r, w) \<Longrightarrow> 0 < w"
  by (auto simp: DecodeRune.simps split: if_splits list.splits)

lemma drop_width: "0 < w \<Longrightarrow> drop w (b # bs) = drop (w - 1) bs"
  by (cases w) auto

lemma quote_body_runes:
  "list_all is_byte bs \<Longrightarrow>
     quote_body bs = encode_runes (quote_runes bs) \<and> list_all valid_rune (quote_runes bs)"
proof (induction bs rule: quote_body.induct)
  case 1
  then show ?case by (simp add: encode_runes_def)
next
  case (2 b bs)
  show ?case
  proof (cases "b < 0x80")
    case True
    then show ?thesis
      using 2 encode_ascii_list [OF quote_ascii_ascii, of b] by (auto simp: is_byte_def)
  next
    case False
    obtain r w where d: "DecodeRune (b # bs) = (r, w)" by (cases "DecodeRune (b # bs)")
    have w: "0 < w" by (rule DecodeRune_width [OF d])
    have rest: "list_all is_byte (drop (w - 1) bs)"
      using 2(5) by (auto simp: list_all_iff dest: in_set_dropD)
    show ?thesis
    proof (cases "r = RuneError \<and> w = 1")
      case True
      have "quote_body (b # bs) = [92, 117, 102, 102, 102, 100] @ quote_body bs"
        using False d True by simp
      moreover have "quote_runes (b # bs) = [92, 117, 102, 102, 102, 100] @ quote_runes bs"
        using False d True by simp
      moreover have "quote_body bs = encode_runes (quote_runes bs) \<and> list_all valid_rune (quote_runes bs)"
        using True False d 2(2) [OF False d [symmetric]] 2(5) by simp
      ultimately show ?thesis
        using encode_ascii_list [of "[92, 117, 102, 102, 102, 100]"]
        by (simp del: append.simps quote_body.simps quote_runes.simps)
    next
      case err: False
      show ?thesis
      proof (cases "r = 0x2028 \<or> r = 0x2029")
        case True
        then show ?thesis
          using False d err 2(3) [OF False d [symmetric] _ True rest] 
            encode_ascii_list [of "[92, 117, 50, 48, 50, hex_digit (r mod 16)]"]
            hex_digit_ascii [of "r mod 16"] by auto
      next
        case sep: False
        have "take w (b # bs) = EncodeRune r \<and> valid_rune r"
          using DecodeRune_take [OF d] err w 2(5) by auto
        then show ?thesis
          using False d err sep 2(4) [OF False d [symmetric] _ sep rest]
          by (auto simp: encode_runes_def)
      qed
    qed
  qed
qed

section \<open>Reading a body back\<close>

lemma unquote_plain: "r \<noteq> 92 \<Longrightarrow> unquote ([r] @ rs) = map_option ((#) r) (unquote rs)"
  by simp

lemma unquote_u4:
  assumes "getu4 [a, b, c, d] = Some r" "\<not> IsSurrogate r"
  shows "unquote ([92, 117, a, b, c, d] @ rs) = map_option ((#) r) (unquote rs)"
  using assms by simp

lemma unquote_ascii:
  assumes "0 \<le> b" "b < 0x80"
  shows "unquote (quote_ascii b @ rs) = map_option ((#) b) (unquote rs)"
proof -
  have "getu4 [48, 48, hex_digit (b div 16), hex_digit (b mod 16)] = Some b"
    using assms hex_val_digit [of "b div 16"] hex_val_digit [of "b mod 16"]
    by (simp add: hex_val_def in_range_def)
  moreover have "\<not> IsSurrogate b" using assms by (simp add: IsSurrogate_def in_range_def)
  ultimately have "unquote ([92, 117, 48, 48, hex_digit (b div 16), hex_digit (b mod 16)] @ rs)
      = map_option ((#) b) (unquote rs)"
    by (rule unquote_u4)
  then show ?thesis
    by (simp add: quote_ascii_def html_safe_def simple_escape_def)
qed

lemma unquote_quote: "list_all is_byte bs \<Longrightarrow> unquote (quote_runes bs) = Some (decode_runes bs)"
proof (induction bs rule: quote_runes.induct)
  case (2 b bs)
  show ?case
  proof (cases "b < 0x80")
    case True
    then show ?thesis
      using 2(1,3) unquote_ascii [of b "quote_runes bs"] by (simp add: is_byte_def)
  next
    case False
    obtain r w where d: "DecodeRune (b # bs) = (r, w)" by (cases "DecodeRune (b # bs)")
    have "list_all is_byte (drop (w - 1) bs)"
      using 2(3) by (auto simp: list_all_iff dest: in_set_dropD)
    note IH = 2(2) [OF False d [symmetric] this]
    have fd: "unquote ([92, 117, 102, 102, 102, 100] @ rs) = map_option ((#) RuneError) (unquote rs)" for rs
      by (rule unquote_u4) (simp_all add: hex_val_def in_range_def RuneError_def IsSurrogate_def)
    have sep: "unquote ([92, 117, 50, 48, 50, hex_digit (r mod 16)] @ rs) = map_option ((#) r) (unquote rs)"
      if "r = 0x2028 \<or> r = 0x2029" for rs
      using that by (intro unquote_u4) (auto simp: hex_val_def hex_digit_def in_range_def IsSurrogate_def)
    have plain: "r \<noteq> 92" if "\<not> (r = RuneError \<and> w = 1)"
    proof
      assume "r = 92"
      moreover from this have "take w (b # bs) = EncodeRune 92" "0 < w"
        using DecodeRune_take [OF d] 2(3) DecodeRune_width [OF d] by (auto simp: RuneError_def)
      ultimately show False using False by (cases w) (auto simp: EncodeRune_ascii)
    qed
    show ?thesis
    proof (cases "r = RuneError \<and> w = 1")
      case True
      then show ?thesis
        using False d IH fd by (simp del: unquote.simps(2) append.simps(2))
    next
      case err: False
      show ?thesis
      proof (cases "r = 0x2028 \<or> r = 0x2029")
        case True
        have "quote_runes (b # bs)
          = [92, 117, 50, 48, 50, hex_digit (r mod 16)] @ quote_runes (drop (w - 1) bs)"
          using False d err True by simp
        then show ?thesis
          using False d IH sep [OF True] by (simp del: unquote.simps(2) append.simps(2) quote_runes.simps)
      next
        case plain_rune: False
        have "quote_runes (b # bs) = [r] @ quote_runes (drop (w - 1) bs)"
          using False d err plain_rune by simp
        then show ?thesis
          using False d IH unquote_plain [OF plain [OF err]] by (simp del: unquote.simps(2) append.simps(2) quote_runes.simps)
      qed
    qed
  qed
qed simp

section \<open>Scanning a body\<close>

definition inert :: "string \<Rightarrow> bool" where
  "inert cs \<longleftrightarrow> (\<forall>s. scan_string (cs @ s) = map_option (\<lambda>(body, rest). (cs @ body, rest)) (scan_string s))"

lemma inert_append: "inert cs \<Longrightarrow> inert ds \<Longrightarrow> inert (cs @ ds)"
  by (auto simp: inert_def option.map_comp comp_def case_prod_unfold)

lemma inert_Nil [simp]: "inert []"
  by (simp add: inert_def case_prod_unfold option.map_ident)

lemma inert_plain: "c \<noteq> quote_char \<Longrightarrow> c \<noteq> backslash \<Longrightarrow> \<not> of_char c < (0x20::int) \<Longrightarrow> inert [c]"
  by (simp add: inert_def)

lemma inert_escape: "inert [backslash, e]"
  by (simp add: inert_def backslash_def quote_char_def)

lemma of_byte_vals_append [simp]: "of_byte_vals (bs @ cs) = of_byte_vals bs @ of_byte_vals cs"
  by (simp add: of_byte_vals_def)

lemma of_char_quote: "of_char quote_char = (34::int)" and of_char_backslash: "of_char backslash = (92::int)"
  by (simp_all add: quote_char_def backslash_def)

lemma char_of_backslash: "char_of (92::int) = backslash"
  using of_char_backslash by (metis char_of_char)

lemma inert_bytes:
  "list_all (\<lambda>b. is_byte b \<and> 0x20 \<le> b \<and> b \<noteq> 34 \<and> b \<noteq> 92) bs \<Longrightarrow> inert (of_byte_vals bs)"
proof (induction bs)
  case (Cons b bs)
  let ?c = "char_of b :: char"
  have c: "of_char ?c = b" using Cons.prems by (simp add: is_byte_def)
  have b: "b \<noteq> 34" "b \<noteq> 92" using Cons.prems by simp_all
  have "inert [?c]"
  proof (rule inert_plain)
    show "?c \<noteq> quote_char" using b(1) c of_char_quote by metis
    show "?c \<noteq> backslash" using b(2) c of_char_backslash by metis
    show "\<not> of_char ?c < (0x20::int)" using c Cons.prems by simp
  qed
  then show ?case using inert_append [of "[?c]" "of_byte_vals bs"] Cons by (simp add: of_byte_vals_def)
qed (simp add: of_byte_vals_def)

lemma inert_escaped:
  "list_all (\<lambda>b. is_byte b \<and> 0x20 \<le> b \<and> b \<noteq> 34 \<and> b \<noteq> 92) bs \<Longrightarrow> inert (of_byte_vals (92 # e # bs))"
  using inert_append [OF inert_escape [of "char_of e"] inert_bytes [of bs]]
  by (simp add: of_byte_vals_def char_of_backslash)

lemma hex_digit_plain:
  "0 \<le> n \<Longrightarrow> n < 16 \<Longrightarrow> is_byte (hex_digit n) \<and> 0x20 \<le> hex_digit n \<and> hex_digit n \<noteq> 34 \<and> hex_digit n \<noteq> 92"
  by (auto simp: hex_digit_def is_byte_def)

lemma inert_quote_ascii:
  assumes "0 \<le> b" "b < 0x80"
  shows "inert (of_byte_vals (quote_ascii b))"
proof -
  have "inert (of_byte_vals [92, e])" for e by (rule inert_escaped) simp
  moreover have "inert (of_byte_vals [92, 117, 48, 48, hex_digit (b div 16), hex_digit (b mod 16)])"
    using assms hex_digit_plain [of "b div 16"] hex_digit_plain [of "b mod 16"]
    by (intro inert_escaped) (simp add: is_byte_def)
  moreover have "inert (of_byte_vals [b])" if "html_safe b"
    using that by (intro inert_bytes) (simp add: html_safe_def is_byte_def)
  ultimately show ?thesis
    unfolding quote_ascii_def by (simp only: split: if_split) blast
qed

lemma DecodeRune_high:
  "DecodeRune (b # bs) = (r, w) \<Longrightarrow> list_all is_byte (b # bs) \<Longrightarrow> \<not> b < 0x80 \<Longrightarrow>
     list_all (\<lambda>b. is_byte b \<and> 0x80 \<le> b) (take w (b # bs))"
  by (auto simp: DecodeRune.simps in_range_def split: if_splits list.splits)

lemma inert_quote_body: "list_all is_byte bs \<Longrightarrow> inert (of_byte_vals (quote_body bs))"
proof (induction bs rule: quote_body.induct)
  case 1
  then show ?case by (simp add: of_byte_vals_def)
next
  case (2 b bs)
  show ?case
  proof (cases "b < 0x80")
    case True
    then show ?thesis using 2 by (auto intro!: inert_append inert_quote_ascii simp: is_byte_def)
  next
    case False
    obtain r w where d: "DecodeRune (b # bs) = (r, w)" by (cases "DecodeRune (b # bs)")
    have rest: "list_all is_byte (drop (w - 1) bs)"
      using 2(5) by (auto simp: list_all_iff dest: in_set_dropD)
    have fd: "inert (of_byte_vals [92, 117, 102, 102, 102, 100])"
      by (rule inert_escaped) (simp add: is_byte_def)
    have sep: "inert (of_byte_vals [92, 117, 50, 48, 50, hex_digit (r mod 16)])"
      using hex_digit_plain [of "r mod 16"] by (intro inert_escaped) (simp add: is_byte_def)
    have plain: "inert (of_byte_vals (take w (b # bs)))"
      using DecodeRune_high [OF d 2(5) False] by (intro inert_bytes) (auto simp: list_all_iff)
    consider "r = RuneError \<and> w = 1" | "\<not> (r = RuneError \<and> w = 1)" "r = 0x2028 \<or> r = 0x2029"
      | "\<not> (r = RuneError \<and> w = 1)" "\<not> (r = 0x2028 \<or> r = 0x2029)" by blast
    then show ?thesis
    proof cases
      case 1
      then have "quote_body (b # bs) = [92, 117, 102, 102, 102, 100] @ quote_body bs"
        using False d by simp
      moreover have "inert (of_byte_vals (quote_body bs))"
        using 1 2(2) [OF False d [symmetric]] 2(5) by simp
      ultimately show ?thesis using inert_append [OF fd] by (simp only: of_byte_vals_append)
    next
      case s: 2
      then have "quote_body (b # bs) = [92, 117, 50, 48, 50, hex_digit (r mod 16)] @ quote_body (drop (w - 1) bs)"
        using False d by auto
      moreover have "inert (of_byte_vals (quote_body (drop (w - 1) bs)))"
        by (rule 2(3) [OF False d [symmetric] s(1,2) rest])
      ultimately show ?thesis using inert_append [OF sep] by (simp only: of_byte_vals_append)
    next
      case s: 3
      then have "quote_body (b # bs) = take w (b # bs) @ quote_body (drop (w - 1) bs)"
        using False d by (auto simp del: take_Cons)
      moreover have "inert (of_byte_vals (quote_body (drop (w - 1) bs)))"
        by (rule 2(4) [OF False d [symmetric] s(1,2) rest])
      ultimately show ?thesis using inert_append [OF plain] by (simp only: of_byte_vals_append)
    qed
  qed
qed

lemma scan_quoted:
  "scan_string (of_byte_vals (quote_body (byte_vals s)) @ quote_char # rest)
     = Some (of_byte_vals (quote_body (byte_vals s)), rest)"
  using inert_quote_body [OF byte_vals_bytes, of s] by (simp add: inert_def)
lemma EncodeRune_is_byte: "valid_rune r \<Longrightarrow> list_all is_byte (EncodeRune r)"
proof -
  assume v: "valid_rune r"
  then have r: "0 \<le> r" "r < 0x110000" by (auto simp: valid_rune_def in_range_def)
  have m: "0 \<le> x mod 64" "x mod 64 < 64" for x :: int by simp_all
  show ?thesis using r v m [of r] m [of "r div 64"] m [of "r div 4096"]
    by (auto simp: EncodeRune_def is_byte_def)
qed

lemma runes_of_string_of_runes: "list_all valid_rune rs \<Longrightarrow> runes_of (string_of_runes rs) = rs"
proof -
  assume v: "list_all valid_rune rs"
  then have "list_all is_byte (encode_runes rs)"
    by (induction rs) (auto simp: encode_runes_def dest!: EncodeRune_is_byte)
  then have "byte_vals (of_byte_vals (encode_runes rs)) = encode_runes rs"
    by (simp add: byte_vals_def of_byte_vals_def comp_def list_all_iff map_idI is_byte_def)
  then show ?thesis using decode_encode [OF v] by (simp add: runes_of_def string_of_runes_def)
qed

text \<open>The runes of a string, which are all that reading keeps of it.\<close>

definition clean :: "string \<Rightarrow> string" where
  "clean s = string_of_runes (runes_of s)"

lemma next_token_string:
  "next_token (json_string s @ rest) = Some (T_Str (clean s), rest)"
proof -
  have b: "list_all is_byte (byte_vals s)" by (rule byte_vals_bytes)
  have "of_byte_vals (quote_body (byte_vals s)) = string_of_runes (quote_runes (byte_vals s))"
    using quote_body_runes [OF b] by (simp add: string_of_runes_def)
  then have "unquote (runes_of (of_byte_vals (quote_body (byte_vals s)))) = Some (runes_of s)"
    using quote_body_runes [OF b] unquote_quote [OF b] by (simp add: runes_of_string_of_runes) (simp add: runes_of_def)
  then show ?thesis
    by (simp add: next_token_def json_string_def is_space_def quote_char_def scan_quoted [unfolded quote_char_def] clean_def)
qed


lemma decode_runes_valid: "list_all is_byte bs \<Longrightarrow> list_all valid_rune (decode_runes bs)"
proof (induction bs rule: decode_runes.induct)
  case (2 b bs)
  obtain r w where d: "DecodeRune (b # bs) = (r, w)" by (cases "DecodeRune (b # bs)")
  have "list_all is_byte (drop (w - 1) bs)" using 2(2) by (auto simp: list_all_iff dest: in_set_dropD)
  moreover have "valid_rune r"
    using DecodeRune_take [OF d _ 2(2)] by (cases "r = RuneError") (auto simp: RuneError_def valid_rune_def in_range_def)
  ultimately show ?case using 2(1) [OF d [symmetric]] d by simp
qed simp

lemma runes_of_clean: "runes_of (clean s) = runes_of s"
  using runes_of_string_of_runes decode_runes_valid [OF byte_vals_bytes] by (simp add: clean_def runes_of_def)

lemma clean_clean: "clean (clean s) = clean s"
  by (simp add: runes_of_clean [unfolded clean_def] clean_def)

lemma clean_ascii: "list_all (\<lambda>c. of_char c < (0x80::int)) s \<Longrightarrow> clean s = s"
proof -
  assume "list_all (\<lambda>c. of_char c < (0x80::int)) s"
  then have b: "list_all (\<lambda>b. b < 0x80) (byte_vals s)" by (simp add: byte_vals_def list_all_iff)
  have "list_all (\<lambda>r. 0 \<le> r \<and> r < 0x80) (byte_vals s)"
    using b byte_vals_bytes [of s] by (auto simp: list_all_iff is_byte_def)
  then have "encode_runes (byte_vals s) = byte_vals s" using encode_ascii_list by blast
  then show ?thesis
    using decode_ascii [OF b] by (simp add: clean_def runes_of_def string_of_runes_def) (simp add: byte_vals_def of_byte_vals_def comp_def)
qed

section \<open>Values in a text\<close>

definition delimited :: "string \<Rightarrow> bool" where
  "delimited s \<longleftrightarrow> (case s of [] \<Rightarrow> True
     | c # _ \<Rightarrow> \<not> is_digit c \<and> c \<noteq> CHR ''.'' \<and> c \<noteq> CHR ''e'' \<and> c \<noteq> CHR ''E'')"

definition starts_value :: "string \<Rightarrow> bool" where
  "starts_value t \<longleftrightarrow> (case t of [] \<Rightarrow> False | c # _ \<Rightarrow> \<not> is_space c \<and> c \<noteq> CHR 0x5D)"

definition denotes :: "nat \<Rightarrow> string \<Rightarrow> json \<Rightarrow> bool" where
  "denotes d t v \<longleftrightarrow> starts_value t \<and>
     (\<forall>st rest. delimited rest \<longrightarrow> length st + d \<le> maxNestingDepth \<longrightarrow>
        parse_from (S_Value st) (t @ rest) = parse_from (complete v st) rest)"

lemma denotesD:
  "denotes d t v \<Longrightarrow> delimited rest \<Longrightarrow> length st + d \<le> maxNestingDepth \<Longrightarrow>
     parse_from (S_Value st) (t @ rest) = parse_from (complete v st) rest"
  by (simp add: denotes_def)

lemma denotes_mono: "denotes d t v \<Longrightarrow> d \<le> e \<Longrightarrow> denotes e t v"
  by (simp add: denotes_def)

text \<open>One token.\<close>

lemma parse_token:
  "(\<And>v. S \<noteq> S_Done v) \<Longrightarrow> next_token s = Some (t, rest) \<Longrightarrow>
     parse_from S s = (case parse_step S t of None \<Rightarrow> None | Some S' \<Rightarrow> parse_from S' rest)"
  by (subst parse_from.simps) (simp split: parse_state.split)

lemma denotes_token:
  assumes "starts_value t" "\<And>rest. delimited rest \<Longrightarrow> next_token (t @ rest) = Some (tok, rest)"
    "\<And>st. start_value tok st = Some (complete v st)"
  shows "denotes 0 t v"
  using assms by (simp add: denotes_def parse_token)

lemma denotes_string: "denotes 0 (json_string s) (J_Str (clean s))"
  by (rule denotes_token [OF _ next_token_string])
    (simp_all add: starts_value_def json_string_def is_space_def quote_char_def)

lemma next_token_punct [simp]:
  "next_token (CHR 0x7B # r) = Some (T_Open_Obj, r)" "next_token (CHR 0x7D # r) = Some (T_Close_Obj, r)"
  "next_token (CHR 0x5B # r) = Some (T_Open_Arr, r)" "next_token (CHR 0x5D # r) = Some (T_Close_Arr, r)"
  "next_token (CHR '','' # r) = Some (T_Comma, r)" "next_token (CHR '':'' # r) = Some (T_Colon, r)"
  by (simp_all add: next_token_def is_space_def)

lemma delimited_punct [simp]:
  "delimited (CHR 0x7D # r)" "delimited (CHR 0x5D # r)" "delimited (CHR '','' # r)" "delimited []"
  "delimited (CHR 0x0A # r)"
  by (simp_all add: delimited_def is_digit_def in_range_def)

lemma parse_space: "dropWhile is_space s = dropWhile is_space s' \<Longrightarrow> (\<And>v. S \<noteq> S_Done v) \<Longrightarrow> parse_from S s = parse_from S s'"
  by (subst (1 2) parse_from.simps) (simp add: next_token_def split: parse_state.split)
lemma parse_next:
  "next_token s = Some (t, rest) \<Longrightarrow> parse_step S t = Some S' \<Longrightarrow> (\<And>v. S \<noteq> S_Done v) \<Longrightarrow>
     parse_from S s = parse_from S' rest"
  by (simp add: parse_token)

section \<open>Objects and arrays\<close>

definition denotes_member :: "nat \<Rightarrow> string \<times> string \<Rightarrow> string \<times> json \<Rightarrow> bool" where
  "denotes_member d m v \<longleftrightarrow> fst v = clean (fst m) \<and> denotes d (snd m) (snd v)"

lemma parse_member:
  assumes "denotes_member d m v" "delimited rest" "length st + d < maxNestingDepth"
  shows "parse_from (S_Key acc st) (json_member m @ rest) = parse_from (S_After_Member (v # acc) st) rest"
proof -
  obtain k t where m: "m = (k, t)" by (cases m)
  obtain k' w where v: "v = (k', w)" by (cases v)
  have k: "k' = clean k" and t: "denotes d t w" using assms(1) m v by (simp_all add: denotes_member_def)
  have "parse_from (S_Key acc st) (json_member m @ rest) = parse_from (S_Colon acc k' st) (CHR '':'' # t @ rest)"
    using next_token_string [of k "CHR '':'' # t @ rest"] by (simp add: parse_token json_member_def m k)
  also have "\<dots> = parse_from (S_Value (F_Obj acc k' # st)) (t @ rest)"
    by (rule parse_next, simp, simp_all)
  also have "\<dots> = parse_from (S_After_Member ((k', w) # acc) st) rest"
    using denotesD [OF t assms(2), of "F_Obj acc k' # st"] assms(3) by simp
  finally show ?thesis by (simp add: v)
qed

lemma parse_members:
  assumes "list_all2 (denotes_member d) ms vs" "ms \<noteq> []" "length st + d < maxNestingDepth"
  shows "parse_from (S_Key acc st) (join_comma (map json_member ms) @ CHR 0x7D # rest)
    = parse_from (complete (J_Obj (rev acc @ vs)) st) rest"
  using assms
proof (induction ms arbitrary: vs acc)
  case (Cons m ms)
  obtain v vs' where vs: "vs = v # vs'" "denotes_member d m v" "list_all2 (denotes_member d) ms vs'"
    using Cons.prems(1) by (auto simp: list_all2_Cons1)
  show ?case
  proof (cases ms)
    case Nil
    then have "parse_from (S_Key acc st) (join_comma (map json_member (m # ms)) @ CHR 0x7D # rest)
        = parse_from (S_After_Member (v # acc) st) (CHR 0x7D # rest)"
      using parse_member [OF vs(2) _ Cons.prems(3), of "CHR 0x7D # rest" acc] by simp
    also have "\<dots> = parse_from (complete (J_Obj (rev acc @ vs)) st) rest"
      using Nil vs by (intro parse_next, simp, simp_all)
    finally show ?thesis .
  next
    case (Cons m' ms')
    let ?rest = "join_comma (map json_member ms) @ CHR 0x7D # rest"
    have "parse_from (S_Key acc st) (join_comma (map json_member (m # ms)) @ CHR 0x7D # rest)
        = parse_from (S_Key acc st) (json_member m @ CHR '','' # ?rest)"
      using Cons by simp
    also have "\<dots> = parse_from (S_After_Member (v # acc) st) (CHR '','' # ?rest)"
      using parse_member [OF vs(2) _ Cons.prems(3), of "CHR '','' # ?rest" acc] by simp
    also have "\<dots> = parse_from (S_Key (v # acc) st) ?rest"
      by (rule parse_next, simp, simp_all)
    also have "\<dots> = parse_from (complete (J_Obj (rev (v # acc) @ vs')) st) rest"
      using Cons.IH [OF vs(3)] Cons Cons.prems(3) by simp
    finally show ?thesis by (simp add: vs(1))
  qed
qed simp

lemma first_key_token:
  "next_token s = Some (T_Str k, rest) \<Longrightarrow> parse_from (S_First_Key st) s = parse_from (S_Key [] st) s"
  by (simp add: parse_token)

lemma denotes_object:
  assumes "list_all2 (denotes_member d) ms vs"
  shows "denotes (Suc d) (json_object ms) (J_Obj vs)"
  unfolding denotes_def
proof (intro conjI allI impI)
  show "starts_value (json_object ms)" by (simp add: starts_value_def json_object_def is_space_def)
  fix st :: "frame list" and rest
  assume d: "length st + Suc d \<le> maxNestingDepth"
  have "parse_from (S_Value st) (json_object ms @ rest)
      = parse_from (S_First_Key st) (join_comma (map json_member ms) @ CHR 0x7D # rest)"
    using d by (intro parse_next, simp add: json_object_def, simp_all)
  also have "\<dots> = parse_from (complete (J_Obj vs) st) rest"
  proof (cases ms)
    case Nil
    then show ?thesis using assms by (intro parse_next, simp, simp_all)
  next
    case (Cons m ms')
    have "\<exists>r. next_token (join_comma (map json_member ms) @ CHR 0x7D # rest) = Some (T_Str (clean (fst m)), r)"
      using next_token_string [of "fst m"] Cons
      by (cases ms') (simp_all add: json_member_def)
    then show ?thesis
      using first_key_token parse_members [OF assms, of st "[]" rest] Cons d by fastforce
  qed
  finally show "parse_from (S_Value st) (json_object ms @ rest) = parse_from (complete (J_Obj vs) st) rest" .
qed

lemma first_value_token:
  assumes "starts_value t"
  shows "parse_from (S_First_Value st) (t @ s) = parse_from (S_Value (F_Arr [] # st)) (t @ s)"
proof -
  have "next_token (t @ s) \<noteq> Some (T_Close_Arr, r)" for r
    using assms by (cases t) (auto simp: starts_value_def next_token_def split: if_splits option.splits)
  then show ?thesis
    by (subst (1 2) parse_from.simps) (auto split: option.split)
qed

lemma parse_elements:
  assumes "list_all2 (denotes d) ts vs" "ts \<noteq> []" "length st + d < maxNestingDepth"
  shows "parse_from (S_Value (F_Arr acc # st)) (join_comma ts @ CHR 0x5D # rest)
    = parse_from (complete (J_Arr (rev acc @ vs)) st) rest"
  using assms
proof (induction ts arbitrary: vs acc)
  case (Cons t ts)
  obtain v vs' where vs: "vs = v # vs'" "denotes d t v" "list_all2 (denotes d) ts vs'"
    using Cons.prems(1) by (auto simp: list_all2_Cons1)
  have val: "parse_from (S_Value (F_Arr acc # st)) (t @ s) = parse_from (S_After_Value (v # acc) st) s"
    if "delimited s" for s
    using denotesD [OF vs(2) that, of "F_Arr acc # st"] Cons.prems(3) by simp
  show ?case
  proof (cases ts)
    case Nil
    then have "parse_from (S_Value (F_Arr acc # st)) (join_comma (t # ts) @ CHR 0x5D # rest)
        = parse_from (S_After_Value (v # acc) st) (CHR 0x5D # rest)"
      using val by simp
    also have "\<dots> = parse_from (complete (J_Arr (rev acc @ vs)) st) rest"
      using Nil vs by (intro parse_next, simp, simp_all)
    finally show ?thesis .
  next
    case (Cons t' ts')
    let ?rest = "join_comma ts @ CHR 0x5D # rest"
    have "parse_from (S_Value (F_Arr acc # st)) (join_comma (t # ts) @ CHR 0x5D # rest)
        = parse_from (S_After_Value (v # acc) st) (CHR '','' # ?rest)"
      using Cons val [of "CHR '','' # ?rest"] by simp
    also have "\<dots> = parse_from (S_Value (F_Arr (v # acc) # st)) ?rest"
      by (rule parse_next, simp, simp_all)
    also have "\<dots> = parse_from (complete (J_Arr (rev (v # acc) @ vs')) st) rest"
      using Cons.IH [OF vs(3)] Cons Cons.prems(3) by simp
    finally show ?thesis by (simp add: vs(1))
  qed
qed simp

lemma denotes_array:
  assumes "list_all2 (denotes d) ts vs"
  shows "denotes (Suc d) (json_array ts) (J_Arr vs)"
  unfolding denotes_def
proof (intro conjI allI impI)
  show "starts_value (json_array ts)" by (simp add: starts_value_def json_array_def is_space_def)
  fix st :: "frame list" and rest
  assume d: "length st + Suc d \<le> maxNestingDepth"
  have "parse_from (S_Value st) (json_array ts @ rest)
      = parse_from (S_First_Value st) (join_comma ts @ CHR 0x5D # rest)"
    using d by (intro parse_next, simp add: json_array_def, simp_all)
  also have "\<dots> = parse_from (complete (J_Arr vs) st) rest"
  proof (cases ts)
    case Nil
    then show ?thesis using assms by (intro parse_next, simp, simp_all)
  next
    case (Cons t ts')
    obtain r where r: "join_comma ts @ CHR 0x5D # rest = t @ r"
      using Cons by (cases ts') simp_all
    have "starts_value t" using assms Cons by (auto simp: list_all2_Cons1 denotes_def)
    then show ?thesis
      using first_value_token [of t st r] r parse_elements [OF assms, of st "[]" rest] Cons d by simp
  qed
  finally show "parse_from (S_Value st) (json_array ts @ rest) = parse_from (complete (J_Arr vs) st) rest" .
qed

section \<open>Numbers\<close>

lemma takeWhile_delimited: "list_all is_digit ds \<Longrightarrow> delimited rest \<Longrightarrow>
  takeWhile is_digit (ds @ rest) = ds \<and> dropWhile is_digit (ds @ rest) = rest"
  by (induction ds) (auto simp: delimited_def split: list.splits)

lemma scan_tail:
  "delimited rest \<Longrightarrow> scan_frac rest = Some ([], rest) \<and> scan_exp rest = Some ((False, []), rest)"
  by (auto simp: delimited_def scan_frac_def scan_exp_def split: list.splits)

lemma is_digit_char: "d < 10 \<Longrightarrow> is_digit (digit_char d)"
  using of_char_digit [of d] of_nat_of_char [where ?'a = int, of "digit_char d", symmetric]
  by (simp add: is_digit_def in_range_def)

lemma decimal_all_digits: "list_all is_digit (decimal n)"
proof (induction n rule: decimal.induct)
  case (1 n)
  then show ?case by (subst decimal.simps) (simp add: is_digit_char)
qed

lemma digits_val_undecimal: "digits_val = undecimal"
  by (simp add: digits_val_def undecimal_def digit_val_def fun_eq_iff)

lemma decimal_nonempty: "decimal n \<noteq> []"
  by (subst decimal.simps) simp

lemma decimal_lead: "decimal n = CHR ''0'' # ds \<Longrightarrow> ds = []"
proof (induction n arbitrary: ds rule: decimal.induct)
  case (1 n)
  show ?case
  proof (cases "n < 10")
    case True
    then show ?thesis using 1(2) by (simp add: decimal.simps)
  next
    case False
    have zero: "decimal 0 = ''0''" by code_simp
    obtain c' ds' where d: "decimal (n div 10) = c' # ds'" using decimal_nonempty by (cases "decimal (n div 10)") auto
    then have c: "c' = CHR ''0''" using 1(2) False by (simp add: decimal.simps [of n])
    then have "decimal (n div 10) = decimal 0" using 1(1) [OF False] d zero by simp
    then show ?thesis using False by simp
  qed
qed

lemma scan_decimal:
  assumes "delimited rest"
  shows "scan_number (decimal n @ rest)
    = Some (\<lparr>nb_neg = False, nb_int = decimal n, nb_frac = [], nb_exp_neg = False, nb_exp = []\<rparr>, rest)"
proof -
  obtain c ds where c: "decimal n = c # ds" using decimal_nonempty by (cases "decimal n") auto
  have dig: "is_digit c" "list_all is_digit (c # ds)" using decimal_all_digits [of n] c by simp_all
  have neg: "c \<noteq> CHR ''-''" using dig by (auto simp: is_digit_def in_range_def)
  have lead: "c = CHR ''0'' \<Longrightarrow> ds = []" using decimal_lead c by blast
  show ?thesis
    using takeWhile_delimited [OF dig(2) assms] scan_tail [OF assms] dig(1) neg lead
    by (simp add: c scan_number_def Let_def)
qed

definition number_of :: "nat \<Rightarrow> json" where
  "number_of n = J_Num (round64 (of_nat n))"

lemma denotes_decimal: "denotes 0 (decimal n) (number_of n)"
proof (rule denotes_token)
  obtain c ds where c: "decimal n = c # ds" using decimal_nonempty by (cases "decimal n") auto
  have dig: "is_digit c" using decimal_all_digits [of n] c by simp
  show "starts_value (decimal n)" using dig by (auto simp: c starts_value_def is_digit_def is_space_def in_range_def)
  have not: "\<not> is_space c" "c \<noteq> CHR 0x7B" "c \<noteq> CHR 0x7D" "c \<noteq> CHR 0x5B" "c \<noteq> CHR 0x5D"
    "c \<noteq> CHR '',''" "c \<noteq> CHR '':''" "c \<noteq> quote_char" "c \<noteq> CHR ''n''" "c \<noteq> CHR ''t''" "c \<noteq> CHR ''f''"
    using dig by (auto simp: is_digit_def is_space_def quote_char_def in_range_def)
  have val: "number_value \<lparr>nb_neg = False, nb_int = decimal n, nb_frac = [], nb_exp_neg = False, nb_exp = []\<rparr>
      = of_nat n"
    by (simp add: number_value_def digits_val_undecimal undecimal_decimal exp_val_def pow10_def)
  show "next_token (decimal n @ rest) = Some (T_Value (number_of n), rest)" if "delimited rest" for rest
    using scan_decimal [OF that, of n] val dig not
    by (simp add: c next_token_def number_of_def HasPrefix_def)
qed (simp)

lemma number_of_small: "n < 2 ^ 53 \<Longrightarrow> number_of n = J_Num (Some (of_nat n))"
  unfolding number_of_def by (subst round64_exact [of "int n" 0]) simp_all

lemma denotes_null: "denotes 0 ''null'' J_Null"
  by (rule denotes_token, simp add: starts_value_def is_space_def,
      simp add: is_space_def next_token_def quote_char_def HasPrefix_def, simp)

definition json_bool :: "bool \<Rightarrow> string" where
  "json_bool b = (if b then ''true'' else ''false'')"

lemma denotes_bool: "denotes 0 (json_bool b) (J_Bool b)"
  by (cases b)
    (rule denotes_token, simp add: starts_value_def is_space_def json_bool_def,
      simp add: is_space_def next_token_def quote_char_def HasPrefix_def json_bool_def, simp)+

section \<open>Documents\<close>

lemma Decode_denotes:
  assumes "denotes d t v" "d \<le> maxNestingDepth" "delimited rest"
  shows "Decode_document (t @ rest) = Document v (dropWhile is_space rest \<noteq> [])"
  using denotesD [OF assms(1,3), of "[]"] assms(2)
  by (simp add: Decode_document_def parse_from.simps [of "S_Done v"])

lemma Unmarshal_denotes: "denotes d t v \<Longrightarrow> d \<le> maxNestingDepth \<Longrightarrow> Unmarshal_value t = Some v"
  using Decode_denotes [of d t v "[]"] by (simp add: Unmarshal_value_def)
section \<open>Formats\<close>

text \<open>
  What a writer of values promises to the one who reads: the text is a document with the
  meaning of the value, wherever it stands.
\<close>

locale json_format =
  fixes text_of :: "'a \<Rightarrow> string"
    and meaning :: "'a \<Rightarrow> json"
    and depth :: nat
  assumes text_denotes: "denotes depth (text_of x) (meaning x)"
    and depth_fits: "depth < maxNestingDepth"
begin

lemma reads_back: "Unmarshal_value (text_of x) = Some (meaning x)"
  using Unmarshal_denotes [OF text_denotes] depth_fits by simp

lemma reads_line: "Decode_document (text_of x @ [newline]) = Document (meaning x) False"
  using Decode_denotes [OF text_denotes, of "[newline]"] depth_fits
  by (simp add: newline_def is_space_def)

lemma array: "denotes (Suc depth) (json_array (map text_of xs)) (J_Arr (map meaning xs))"
  by (rule denotes_array) (simp add: list_all2_conv_all_nth text_denotes)

lemma member: "clean name = name \<Longrightarrow> depth \<le> d \<Longrightarrow> denotes_member d (name, text_of x) (name, meaning x)"
  using denotes_mono [OF text_denotes] by (simp add: denotes_member_def)

end

interpretation json_text: json_format json_string "\<lambda>s. J_Str (clean s)" 0
  by unfold_locales (simp_all add: denotes_string maxNestingDepth_def)

interpretation json_number: json_format decimal number_of 0
  by unfold_locales (simp_all add: denotes_decimal maxNestingDepth_def)

interpretation json_flag: json_format json_bool J_Bool 0
  by unfold_locales (simp_all add: denotes_bool maxNestingDepth_def)

section \<open>Number literals\<close>

text \<open>To evaluate a literal.\<close>

lemmas number_eval = scan_number_def scan_frac_def scan_exp_def scan_sign_def is_digit_def
  in_range_def Let_def number_value_def digits_val_def digit_val_def exp_val_def pow10_def


lemma takeWhile_before:
  assumes "delimited rest"
  shows "takeWhile is_digit (s @ rest) = takeWhile is_digit s"
    "dropWhile is_digit (s @ rest) = dropWhile is_digit s @ rest"
  using assms by (induction s) (auto simp: delimited_def split: list.splits)

lemma scan_frac_before:
  assumes "scan_frac s = Some (f, s')" "delimited rest"
  shows "scan_frac (s @ rest) = Some (f, s' @ rest)"
proof (cases s)
  case Nil
  then show ?thesis using assms scan_tail by (simp add: scan_frac_def [of "[]"])
next
  case (Cons c r)
  then show ?thesis using assms by (auto simp: scan_frac_def takeWhile_before split: if_splits)
qed

lemma scan_sign_before: "r \<noteq> [] \<Longrightarrow> scan_sign (r @ rest) = (fst (scan_sign r), snd (scan_sign r) @ rest)"
  by (cases r) (simp_all add: scan_sign_def)

lemma scan_exp_before:
  assumes "scan_exp s = Some (e, s')" "delimited rest"
  shows "scan_exp (s @ rest) = Some (e, s' @ rest)"
proof (cases s)
  case Nil
  then show ?thesis using assms scan_tail by (simp add: scan_exp_def [of "[]"])
next
  case (Cons c r)
  have "r \<noteq> []" if "c = CHR ''e'' \<or> c = CHR ''E''"
    using assms(1) that Cons by (auto simp: scan_exp_def scan_sign_def)
  then show ?thesis
    using assms Cons
    by (auto simp: scan_exp_def [of "_ # _"] scan_sign_before takeWhile_before case_prod_unfold Let_def split: if_splits)
qed

lemma scan_number_before:
  assumes "scan_number t = Some (n, t')" "delimited rest"
  shows "scan_number (t @ rest) = Some (n, t' @ rest)"
proof -
  define neg where "neg = (t \<noteq> [] \<and> hd t = CHR ''-'')"
  define s where "s = (if neg then tl t else t)"
  have t: "t \<noteq> []" using assms(1) by (auto simp: scan_number_def)
  then have app: "(t @ rest \<noteq> [] \<and> hd (t @ rest) = CHR ''-'') = neg"
    "(if neg then tl (t @ rest) else t @ rest) = s @ rest"
    by (auto simp: neg_def s_def)
  obtain c r where c: "s = c # r" "is_digit c"
    using assms(1) unfolding scan_number_def neg_def [symmetric] s_def [symmetric] Let_def
    by (auto split: list.splits if_splits)
  define s2 where "s2 = (if c = CHR ''0'' then r else dropWhile is_digit (c # r))"
  obtain fp s3 eneg ed where f: "scan_frac s2 = Some (fp, s3)" "scan_exp s3 = Some ((eneg, ed), t')"
    "n = \<lparr>nb_neg = neg, nb_int = (if c = CHR ''0'' then [c] else takeWhile is_digit (c # r)),
      nb_frac = fp, nb_exp_neg = eneg, nb_exp = ed\<rparr>"
    using assms(1) c(2) unfolding scan_number_def neg_def [symmetric] s_def [symmetric] Let_def c(1)
      list.case s2_def [symmetric]
    by (auto split: option.splits)
  have s2: "(if c = CHR ''0'' then r @ rest else dropWhile is_digit ((c # r) @ rest)) = s2 @ rest"
    using takeWhile_before(2) [OF assms(2), of "c # r"] by (simp only: s2_def split: if_split) simp
  show ?thesis
    using c(2) scan_frac_before [OF f(1) assms(2)] scan_exp_before [OF f(2) assms(2)]
      takeWhile_before(1) [OF assms(2), of "c # r"]
    unfolding scan_number_def neg_def [symmetric] s_def [symmetric] app Let_def c(1) append_Cons
      list.case s2 [unfolded append_Cons]
    by (simp only: option.case prod.case f(3)) simp
qed

definition number_start :: "char \<Rightarrow> bool" where
  "number_start c \<longleftrightarrow> is_digit c \<or> c = CHR ''-''"

lemma next_token_number:
  assumes "number_start c" "scan_number (c # r) = Some (n, rest)"
  shows "next_token (c # r) = Some (T_Value (J_Num (round64 (number_value n))), rest)"
proof -
  have "\<not> is_space c" "c \<noteq> CHR 0x7B" "c \<noteq> CHR 0x7D" "c \<noteq> CHR 0x5B" "c \<noteq> CHR 0x5D"
    "c \<noteq> CHR '',''" "c \<noteq> CHR '':''" "c \<noteq> quote_char" "c \<noteq> CHR ''n''" "c \<noteq> CHR ''t''" "c \<noteq> CHR ''f''"
    using assms(1) by (auto simp: number_start_def is_digit_def is_space_def quote_char_def in_range_def)
  then show ?thesis using assms(2) by (simp add: next_token_def HasPrefix_def)
qed

lemma denotes_number:
  assumes "scan_number t = Some (n, [])"
  shows "denotes 0 t (J_Num (round64 (number_value n)))"
proof -
  obtain c r where t: "t = c # r" using assms by (cases t) (auto simp: scan_number_def)
  have c: "number_start c"
    using assms by (auto simp: t scan_number_def number_start_def Let_def split: if_splits list.splits)
  then have "\<not> is_space c \<and> c \<noteq> CHR 0x5D"
    by (auto simp: number_start_def is_digit_def is_space_def in_range_def)
  then show ?thesis
    using scan_number_before [OF assms] next_token_number [OF c]
    by (intro denotes_token [where tok = "T_Value (J_Num (round64 (number_value n)))"])
      (auto simp: t starts_value_def)
qed

text \<open>The characters of a number.\<close>

definition number_char :: "char \<Rightarrow> bool" where
  "number_char c \<longleftrightarrow> is_digit c \<or> c \<in> set ''-+.eE''"

lemma number_char_range: "number_char c \<Longrightarrow> 0x20 \<le> (of_char c :: int) \<and> of_char c < (0x80::int)"
  by (auto simp: number_char_def is_digit_def in_range_def)

lemma digits_number: "list_all number_char (takeWhile is_digit s)"
  by (induction s) (auto simp: number_char_def)

lemma number_digits: "list_all number_char (dropWhile is_digit s) \<Longrightarrow> list_all number_char s"
  using digits_number [of s] list_all_append [of number_char "takeWhile is_digit s" "dropWhile is_digit s"]
  by simp

lemma number_char_simps [simp]:
  "number_char CHR ''-''" "number_char CHR ''+''" "number_char CHR ''.''" "number_char CHR ''e''"
  "number_char CHR ''E''" "is_digit c \<Longrightarrow> number_char c"
  by (simp_all add: number_char_def)

lemma scan_frac_chars: "scan_frac s = Some (f, s') \<Longrightarrow> list_all number_char s' \<Longrightarrow> list_all number_char s"
  by (cases s) (auto simp: scan_frac_def split: if_splits dest: number_digits)

lemma scan_exp_chars: "scan_exp s = Some (e, s') \<Longrightarrow> list_all number_char s' \<Longrightarrow> list_all number_char s"
  by (cases s) (auto simp: scan_exp_def scan_sign_def split: if_splits list.splits dest: number_digits)

lemma scan_number_chars:
  assumes "scan_number t = Some (n, [])"
  shows "list_all number_char t"
proof -
  define neg where "neg = (t \<noteq> [] \<and> hd t = CHR ''-'')"
  define s where "s = (if neg then tl t else t)"
  obtain c r where c: "s = c # r" "is_digit c"
    using assms(1) unfolding scan_number_def neg_def [symmetric] s_def [symmetric] Let_def
    by (auto split: list.splits if_splits)
  define s2 where "s2 = (if c = CHR ''0'' then r else dropWhile is_digit s)"
  obtain fp s3 eneg ed where f: "scan_frac s2 = Some (fp, s3)" "scan_exp s3 = Some ((eneg, ed), [])"
    using assms(1) c unfolding scan_number_def neg_def [symmetric] s_def [symmetric] Let_def
    by (auto simp: s2_def split: option.splits)
  have "list_all number_char s2" by (rule scan_frac_chars [OF f(1) scan_exp_chars [OF f(2)]]) simp
  then have "list_all number_char s" using c number_digits [of s] by (auto simp: s2_def split: if_splits)
  then show ?thesis by (cases t) (auto simp: s_def neg_def split: if_splits)
qed

section \<open>No control characters\<close>

definition one_line :: "string \<Rightarrow> bool" where
  "one_line s \<longleftrightarrow> list_all (\<lambda>c. 0x20 \<le> (of_char c :: int)) s"

lemma one_line_simps [simp]: "one_line []" "one_line (c # s) \<longleftrightarrow> 0x20 \<le> (of_char c :: int) \<and> one_line s"
  "one_line (s @ t) \<longleftrightarrow> one_line s \<and> one_line t"
  by (auto simp: one_line_def)

lemma one_line_number: "scan_number t = Some (n, []) \<Longrightarrow> one_line t"
  using scan_number_chars [of t n] number_char_range by (simp add: one_line_def list_all_iff)

lemma one_line_decimal: "one_line (decimal n)"
  using one_line_number [OF scan_decimal [of "[]" n, simplified]] .

lemma hex_digit_printable: "0 \<le> n \<Longrightarrow> n < 16 \<Longrightarrow> 0x20 \<le> hex_digit n"
  by (simp add: hex_digit_def)

lemma quote_ascii_printable: "0 \<le> b \<Longrightarrow> b < 0x80 \<Longrightarrow> list_all (\<lambda>b. 0x20 \<le> b) (quote_ascii b)"
  using hex_digit_printable [of "b div 16"] hex_digit_printable [of "b mod 16"]
  by (auto simp: quote_ascii_def html_safe_def)

lemma quote_body_printable:
  "list_all is_byte bs \<Longrightarrow> list_all (\<lambda>b. 0x20 \<le> b) (quote_body bs)"
proof (induction bs rule: quote_body.induct)
  case (2 b bs)
  show ?case
  proof (cases "b < 0x80")
    case True
    then show ?thesis using 2 quote_ascii_printable [of b] by (simp add: is_byte_def)
  next
    case False
    obtain r w where d: "DecodeRune (b # bs) = (r, w)" by (cases "DecodeRune (b # bs)")
    have rest: "list_all is_byte (drop (w - 1) bs)"
      using 2(5) by (auto simp: list_all_iff dest: in_set_dropD)
    have high: "list_all (\<lambda>b. 0x20 \<le> b) (take w (b # bs))"
      using DecodeRune_high [OF d 2(5) False] by (auto simp: list_all_iff)
    show ?thesis
      using False d rest high 2(2) [OF False d [symmetric]] 2(3,4) [OF False d [symmetric] _ _ rest]
        2(5) hex_digit_printable [of "r mod 16"]
      by (auto simp del: take_Cons)
  qed
qed simp

lemma one_line_json_string: "one_line (json_string s)"
proof -
  have "list_all (\<lambda>b. is_byte b \<and> 0x20 \<le> b) (quote_body (byte_vals s))"
    using quote_body_printable [OF byte_vals_bytes, of s] quote_body_runes [OF byte_vals_bytes, of s]
    by (auto simp: list_all_iff encode_runes_def dest!: EncodeRune_is_byte)
  then have "one_line (of_byte_vals (quote_body (byte_vals s)))"
    by (auto simp: one_line_def of_byte_vals_def list_all_iff is_byte_def)
  then show ?thesis by (simp add: json_string_def quote_char_def)
qed

lemma one_line_join: "list_all one_line ts \<Longrightarrow> one_line (join_comma ts)"
  by (induction ts rule: join_comma.induct) simp_all

lemma one_line_object: "list_all (\<lambda>m. one_line (snd m)) ms \<Longrightarrow> one_line (json_object ms)"
  by (auto simp: json_object_def json_member_def one_line_json_string list_all_iff
      intro!: one_line_join)

end
