(* ===== verification/AI_Wire.thy ===== *)
theory AI_Wire
  imports AI_Verdict Json_Text
begin

text \<open>
  What \<open>internal/ai/client.go\<close> exchanges with the provider: the structs of the request and of
  the response (the "OpenAI-Compatible API types"), the text \<open>json.Marshal\<close> makes of the one and
  what \<open>json.Unmarshal\<close> makes of a text for the other.
\<close>

section \<open>The structs\<close>

record openAIMessage =
  ms_Role :: string
  ms_Content :: string

record openAIRequest =
  rq_Temperature :: float64
  rq_Model :: string
  rq_Messages :: "openAIMessage list"

record openAIChoice =
  ch_Message :: openAIMessage

text \<open>\<open>rs_spare\<close> is what the array behind the slice still holds past the slice's end.\<close>

record openAIResponse =
  rs_Model :: string
  rs_Choices :: "openAIChoice list"
  rs_spare :: "openAIChoice list"

section \<open>Reading a response\<close>

text \<open>
  The flag says that an error was recorded. A member is matched by its exact name or by its
  folded one; a member of no field is skipped, and \<open>null\<close> leaves a string or a struct alone.
\<close>

definition name_is :: "string \<Rightarrow> string \<Rightarrow> bool" where
  "name_is key name \<longleftrightarrow> name = key \<or> fold_name name = fold_name key"

definition decode_string :: "json \<Rightarrow> string \<Rightarrow> string \<times> bool" where
  "decode_string v s = (case v of J_Str t \<Rightarrow> (t, False) | J_Null \<Rightarrow> (s, False) | _ \<Rightarrow> (s, True))"

definition decode_struct :: "(string \<Rightarrow> json \<Rightarrow> 'a \<Rightarrow> 'a \<times> bool) \<Rightarrow> json \<Rightarrow> 'a \<Rightarrow> 'a \<times> bool" where
  "decode_struct member v x =
     (case v of
        J_Obj ms \<Rightarrow> fold (\<lambda>(n, w) (y, e). let (y', e') = member n w y in (y', e \<or> e')) ms (x, False)
      | J_Null \<Rightarrow> (x, False)
      | _ \<Rightarrow> (x, True))"

definition decode_message :: "string \<Rightarrow> json \<Rightarrow> openAIMessage \<Rightarrow> openAIMessage \<times> bool" where
  "decode_message n v m =
     (if name_is ''role'' n then
        (let (s, e) = decode_string v (ms_Role m) in (m\<lparr>ms_Role := s\<rparr>, e))
      else if name_is ''content'' n then
        (let (s, e) = decode_string v (ms_Content m) in (m\<lparr>ms_Content := s\<rparr>, e))
      else (m, False))"

definition decode_choice :: "string \<Rightarrow> json \<Rightarrow> openAIChoice \<Rightarrow> openAIChoice \<times> bool" where
  "decode_choice n v c =
     (if name_is ''message'' n then
        (let (m, e) = decode_struct decode_message v (ch_Message c) in (c\<lparr>ch_Message := m\<rparr>, e))
      else (c, False))"

definition zero_choice :: openAIChoice where
  "zero_choice = \<lparr>ch_Message = \<lparr>ms_Role = '''', ms_Content = ''''\<rparr>\<rparr>"

text \<open>
  The elements are decoded into the ones the array already holds, so a second \<open>choices\<close> keeps
  what the first left where it says nothing.
\<close>

fun decode_elements :: "json list \<Rightarrow> openAIChoice list
    \<Rightarrow> openAIChoice list \<times> openAIChoice list \<times> bool" where
  "decode_elements [] cs = ([], cs, False)"
| "decode_elements (v # vs) cs =
     (let (c, e) = decode_struct decode_choice v (case cs of [] \<Rightarrow> zero_choice | c # _ \<Rightarrow> c);
          (done, spare, e') = decode_elements vs (tl cs)
      in (c # done, spare, e \<or> e'))"

definition decode_choices :: "json \<Rightarrow> openAIResponse \<Rightarrow> openAIResponse \<times> bool" where
  "decode_choices v r =
     (case v of
        J_Null \<Rightarrow> (r\<lparr>rs_Choices := [], rs_spare := []\<rparr>, False)
      | J_Arr vs \<Rightarrow>
          if vs = [] then (r\<lparr>rs_Choices := [], rs_spare := []\<rparr>, False)
          else let (cs, spare, e) = decode_elements vs (rs_Choices r @ rs_spare r)
               in (r\<lparr>rs_Choices := cs, rs_spare := spare\<rparr>, e)
      | _ \<Rightarrow> (r, True))"

definition decode_response :: "string \<Rightarrow> json \<Rightarrow> openAIResponse \<Rightarrow> openAIResponse \<times> bool" where
  "decode_response n v r =
     (if name_is ''model'' n then
        (let (s, e) = decode_string v (rs_Model r) in (r\<lparr>rs_Model := s\<rparr>, e))
      else if name_is ''choices'' n then decode_choices v r
      else (r, False))"

definition Unmarshal_response :: "string \<Rightarrow> openAIResponse option" where
  "Unmarshal_response body =
     (case Unmarshal_value body of
        None \<Rightarrow> None
      | Some v \<Rightarrow>
          let (r, e) = decode_struct decode_response v \<lparr>rs_Model = '''', rs_Choices = [], rs_spare = []\<rparr>
          in if e then None else Some r)"

section \<open>Writing a request\<close>

text \<open>The fields in the order of the struct; how a \<open>float64\<close> is printed is an argument.\<close>

definition message_json :: "openAIMessage \<Rightarrow> string" where
  "message_json m = json_object [(''role'', json_string (ms_Role m)),
                                 (''content'', json_string (ms_Content m))]"

definition request_json :: "(float64 \<Rightarrow> string) \<Rightarrow> openAIRequest \<Rightarrow> string" where
  "request_json fmt rq =
     json_object [(''temperature'', fmt (rq_Temperature rq)), (''model'', json_string (rq_Model rq)),
                  (''messages'', json_array (map message_json (rq_Messages rq)))]"

section \<open>Lemmas: texts\<close>

text \<open>Names as the structs have them are written and read unchanged.\<close>

lemma clean_names [simp]:
  "clean ''role'' = ''role''" "clean ''content'' = ''content''" "clean ''temperature'' = ''temperature''"
  "clean ''model'' = ''model''" "clean ''messages'' = ''messages''" "clean ''message'' = ''message''"
  "clean ''choices'' = ''choices''" "clean ''risk'' = ''risk''" "clean ''reasoning'' = ''reasoning''"
  by (rule clean_ascii; simp)+

definition message_value :: "openAIMessage \<Rightarrow> json" where
  "message_value m = J_Obj [(''role'', J_Str (clean (ms_Role m))), (''content'', J_Str (clean (ms_Content m)))]"

lemma denotes_message: "denotes 1 (message_json m) (message_value m)"
  unfolding message_json_def message_value_def
  using denotes_object [where d = 0] by (simp add: denotes_member_def denotes_string)

interpretation message_format: json_format message_json message_value 1
  by unfold_locales (use denotes_message in \<open>simp_all add: maxNestingDepth_def\<close>)

lemma denotes_request:
  assumes "denotes 0 (fmt (rq_Temperature rq)) v"
  shows "denotes 3 (request_json fmt rq)
    (J_Obj [(''temperature'', v), (''model'', J_Str (clean (rq_Model rq))),
            (''messages'', J_Arr (map message_value (rq_Messages rq)))])"
proof -
  have "denotes_member 2 (''messages'', json_array (map message_json ms)) (''messages'', J_Arr (map message_value ms))" for ms
    using message_format.array [of ms] by (simp add: denotes_member_def numeral_2_eq_2)
  moreover have "denotes_member 2 (''temperature'', fmt (rq_Temperature rq)) (''temperature'', v)"
    using denotes_mono [OF assms] by (simp add: denotes_member_def)
  ultimately have "list_all2 (denotes_member 2)
      [(''temperature'', fmt (rq_Temperature rq)), (''model'', json_string (rq_Model rq)),
       (''messages'', json_array (map message_json (rq_Messages rq)))]
      [(''temperature'', v), (''model'', J_Str (clean (rq_Model rq))),
       (''messages'', J_Arr (map message_value (rq_Messages rq)))]"
    by (simp add: json_text.member)
  from denotes_object [OF this] show ?thesis by (simp add: request_json_def)
qed

text \<open>What a provider of the documented format answers.\<close>

definition envelope_text :: "string \<Rightarrow> string \<Rightarrow> string" where
  "envelope_text model content =
     json_object [(''model'', json_string model),
       (''choices'', json_array [json_object [(''message'',
          message_json \<lparr>ms_Role = ''assistant'', ms_Content = content\<rparr>)]])]"

lemma name_is_self [simp]: "name_is k k"
  by (simp add: name_is_def)

lemma name_is_other [simp]:
  "\<not> name_is ''role'' ''content''" "\<not> name_is ''model'' ''choices''"
  by code_simp+

lemma clean_assistant [simp]: "clean ''assistant'' = ''assistant''"
  by (rule clean_ascii) simp

lemma denotes_envelope:
  "denotes 4 (envelope_text model content)
     (J_Obj [(''model'', J_Str (clean model)),
             (''choices'', J_Arr [J_Obj [(''message'', message_value \<lparr>ms_Role = ''assistant'', ms_Content = content\<rparr>)]])])"
proof -
  let ?m = "\<lparr>ms_Role = ''assistant'', ms_Content = content\<rparr>"
  have "denotes 2 (json_object [(''message'', message_json ?m)]) (J_Obj [(''message'', message_value ?m)])"
    unfolding numeral_2_eq_2
    by (rule denotes_object) (simp add: denotes_member_def denotes_message [unfolded One_nat_def])
  then have "denotes 3 (json_array [json_object [(''message'', message_json ?m)]]) (J_Arr [J_Obj [(''message'', message_value ?m)]])"
    unfolding numeral_3_eq_3 numeral_2_eq_2 by (intro denotes_array) simp
  then have "list_all2 (denotes_member 3)
      [(''model'', json_string model), (''choices'', json_array [json_object [(''message'', message_json ?m)]])]
      [(''model'', J_Str (clean model)), (''choices'', J_Arr [J_Obj [(''message'', message_value ?m)]])]"
    by (simp add: json_text.member) (simp add: denotes_member_def)
  from denotes_object [OF this] show ?thesis unfolding envelope_text_def by simp
qed

lemma Unmarshal_envelope:
  "Unmarshal_response (envelope_text model content)
     = Some \<lparr>rs_Model = clean model,
             rs_Choices = [\<lparr>ch_Message = \<lparr>ms_Role = ''assistant'', ms_Content = clean content\<rparr>\<rparr>],
             rs_spare = []\<rparr>"
  using Unmarshal_denotes [OF denotes_envelope, of model content]
  by (simp add: Unmarshal_response_def maxNestingDepth_def decode_struct_def decode_response_def
      decode_string_def decode_choices_def decode_choice_def decode_message_def message_value_def)

section \<open>Lemmas: a verdict in text\<close>

definition verdict_text :: "string \<Rightarrow> string \<Rightarrow> string" where
  "verdict_text num reasoning =
     json_object [(''risk'', num), (''reasoning'', json_string reasoning)]"

lemma denotes_verdict:
  assumes "denotes 0 num v"
  shows "denotes 1 (verdict_text num reasoning) (J_Obj [(''risk'', v), (''reasoning'', J_Str (clean reasoning))])"
  unfolding verdict_text_def One_nat_def
  by (rule denotes_object) (simp add: denotes_member_def denotes_string assms)

definition valid_text :: "string \<Rightarrow> bool" where
  "valid_text s \<longleftrightarrow> (\<exists>rs. list_all valid_rune rs \<and> s = string_of_runes rs)"

lemma valid_text_append: "valid_text s \<Longrightarrow> valid_text t \<Longrightarrow> valid_text (s @ t)"
proof -
  assume "valid_text s" "valid_text t"
  then obtain rs ss where "list_all valid_rune rs" "s = string_of_runes rs"
    "list_all valid_rune ss" "t = string_of_runes ss" by (auto simp: valid_text_def)
  then show ?thesis
    unfolding valid_text_def by (intro exI [of _ "rs @ ss"]) (simp add: string_of_runes_def)
qed

lemma clean_valid: "valid_text s \<Longrightarrow> clean s = s"
  by (auto simp: valid_text_def clean_def runes_of_string_of_runes)

lemma valid_clean: "clean s = s \<Longrightarrow> valid_text s"
  unfolding valid_text_def clean_def runes_of_def
  by (intro exI [of _ "decode_runes (byte_vals s)"]) (simp add: decode_runes_valid byte_vals_bytes)

lemma valid_ascii: "list_all (\<lambda>c. of_char c < (0x80::int)) s \<Longrightarrow> valid_text s"
  by (intro valid_clean clean_ascii)

lemma valid_json_string: "valid_text (json_string s)"
proof -
  have "valid_text (of_byte_vals (quote_body (byte_vals s)))"
    using quote_body_runes [OF byte_vals_bytes, of s]
    unfolding valid_text_def by (intro exI [of _ "quote_runes (byte_vals s)"]) (simp add: string_of_runes_def)
  then show ?thesis
    using valid_text_append [OF valid_ascii [of "[quote_char]"] valid_text_append [OF _ valid_ascii [of "[quote_char]"]]]
    by (simp add: json_string_def quote_char_def)
qed

lemma valid_text_Nil: "valid_text []" and valid_text_Cons: "of_char c < (0x80::int) \<Longrightarrow> valid_text s \<Longrightarrow> valid_text (c # s)"
  using valid_ascii [of "[]"] valid_text_append [OF valid_ascii [of "[c]"], of s] by simp_all

lemma clean_nonempty: "s \<noteq> [] \<Longrightarrow> clean s \<noteq> []"
proof -
  assume "s \<noteq> []"
  then obtain b bs where b: "byte_vals s = b # bs" by (cases s) (auto simp: byte_vals_def)
  obtain r w where "DecodeRune (b # bs) = (r, w)" by (cases "DecodeRune (b # bs)")
  then have "runes_of s = r # decode_runes (drop (w - 1) bs)" by (simp add: runes_of_def b)
  moreover have "EncodeRune r \<noteq> []" by (auto simp: EncodeRune_def Let_def split: if_splits)
  ultimately show ?thesis by (simp add: clean_def string_of_runes_def of_byte_vals_def encode_runes_def)
qed

end
