(* ===== verification/Go_Regexp.thy ===== *)
theory Go_Regexp
  imports Go_Text
begin

text \<open>
  The part of package \<open>regexp\<close> the daemon uses: expressions over runes with classes,
  sequences, alternatives, repetition and word boundaries, matched leftmost and, at a
  position, in the order of preference of a backtracking search (the first alternative,
  the longest repetition). A case-insensitive letter is the class of its case variants.
\<close>

section \<open>Expressions\<close>

datatype regexp =
    Class "rune list"
  | Word_Boundary
  | Sequence regexp regexp
  | Alternative regexp regexp
  | Optional regexp
  | Star regexp

definition Plus :: "regexp \<Rightarrow> regexp" where "Plus r = Sequence r (Star r)"

text \<open>A position is the rune before it, if any, and the runes after it.\<close>

type_synonym position = "rune option \<times> rune list"

definition word_rune :: "rune \<Rightarrow> bool" where
  "word_rune c \<longleftrightarrow> in_range 48 57 c \<or> in_range 65 90 c \<or> in_range 97 122 c \<or> c = 95"

definition at_boundary :: "position \<Rightarrow> bool" where
  "at_boundary p \<longleftrightarrow>
     (case fst p of None \<Rightarrow> False | Some c \<Rightarrow> word_rune c)
       \<noteq> (case snd p of [] \<Rightarrow> False | c # _ \<Rightarrow> word_rune c)"

text \<open>
  Repetition: as often as possible first; an iteration that consumes nothing ends it. An
  iteration consumes at least one rune, so \<open>fuel\<close> is the number of runes left.
\<close>

fun iterate :: "(position \<Rightarrow> position list) \<Rightarrow> nat \<Rightarrow> position \<Rightarrow> position list" where
  "iterate f 0 p = [p]"
| "iterate f (Suc fuel) p =
     concat (map (iterate f fuel) (filter (\<lambda>q. length (snd q) < length (snd p)) (f p))) @ [p]"

text \<open>The ends of the matches that start at a position, the preferred one first.\<close>

fun ends :: "regexp \<Rightarrow> position \<Rightarrow> position list" where
  "ends (Class cs) p =
     (case snd p of [] \<Rightarrow> [] | c # s \<Rightarrow> if c \<in> set cs then [(Some c, s)] else [])"
| "ends Word_Boundary p = (if at_boundary p then [p] else [])"
| "ends (Sequence r1 r2) p = concat (map (ends r2) (ends r1 p))"
| "ends (Alternative r1 r2) p = ends r1 p @ ends r2 p"
| "ends (Optional r) p = ends r p @ [p]"
| "ends (Star r) p = iterate (ends r) (length (snd p)) p"

section \<open>ReplaceAllString\<close>

text \<open>
  Matches are replaced from left to right; the search goes on behind a match, whose last
  rune still counts for a word boundary there. An empty match is not treated, the
  expressions of the program have none.
\<close>

definition match_at :: "regexp \<Rightarrow> position \<Rightarrow> position option" where
  "match_at r p =
     (case ends r p of
        [] \<Rightarrow> None
      | q # _ \<Rightarrow> if length (snd q) < length (snd p) then Some q else None)"

function replace_from :: "regexp \<Rightarrow> rune list \<Rightarrow> position \<Rightarrow> rune list" where
  "replace_from r repl p =
     (case match_at r p of
        Some q \<Rightarrow> repl @ replace_from r repl q
      | None \<Rightarrow> (case snd p of [] \<Rightarrow> [] | c # s \<Rightarrow> c # replace_from r repl (Some c, s)))"
  by pat_completeness auto
termination
  by (relation "measure (\<lambda>(r, repl, p). length (snd p))")
    (auto simp: match_at_def split: list.splits if_splits)

declare replace_from.simps [simp del]

definition ReplaceAllString :: "regexp \<Rightarrow> rune list \<Rightarrow> rune list \<Rightarrow> rune list" where
  "ReplaceAllString r src repl = replace_from r repl (None, src)"

text \<open>Whether the expression matches anywhere.\<close>

fun matches_from :: "regexp \<Rightarrow> rune option \<Rightarrow> rune list \<Rightarrow> bool" where
  "matches_from r prev [] \<longleftrightarrow> match_at r (prev, []) \<noteq> None"
| "matches_from r prev (c # s) \<longleftrightarrow> match_at r (prev, c # s) \<noteq> None \<or> matches_from r (Some c) s"

section \<open>Lemmas\<close>

text \<open>Every end of a match is a suffix of what was there.\<close>

lemma iterate_suffix:
  assumes "\<And>p q. q \<in> set (f p) \<Longrightarrow> suffix (snd q) (snd p)"
  shows "q \<in> set (iterate f fuel p) \<Longrightarrow> suffix (snd q) (snd p)"
proof (induction fuel arbitrary: p)
  case 0
  then show ?case by simp
next
  case (Suc fuel)
  then consider "q = p" | p' where "p' \<in> set (f p)" "q \<in> set (iterate f fuel p')" by auto
  then show ?case
  proof cases
    case 2
    then show ?thesis using Suc.IH assms suffix_order.trans by blast
  qed simp
qed

text \<open>The fuel is enough.\<close>

lemma iterate_fuel:
  "length (snd p) \<le> n \<Longrightarrow> length (snd p) \<le> m \<Longrightarrow> iterate f n p = iterate f m p"
proof (induction n arbitrary: m p)
  case 0
  then show ?case by (cases m) simp_all
next
  case (Suc n)
  show ?case
  proof (cases m)
    case 0
    then show ?thesis using Suc.prems by simp
  next
    case (Suc k)
    have "map (iterate f n) (filter (\<lambda>q. length (snd q) < length (snd p)) (f p))
        = map (iterate f k) (filter (\<lambda>q. length (snd q) < length (snd p)) (f p))"
      using Suc Suc.prems by (intro map_cong refl Suc.IH) auto
    then show ?thesis by (simp only: Suc iterate.simps)
  qed
qed

lemma ends_suffix: "q \<in> set (ends r p) \<Longrightarrow> suffix (snd q) (snd p)"
proof (induction r arbitrary: p q)
  case (Class cs)
  then show ?case by (cases "snd p") (auto simp: suffix_ConsI split: if_splits)
next
  case (Sequence r1 r2)
  then obtain p' where "p' \<in> set (ends r1 p)" "q \<in> set (ends r2 p')" by auto
  then show ?case using Sequence.IH suffix_order.trans by blast
next
  case (Star r)
  then show ?case using iterate_suffix [of "ends r" q "length (snd p)" p] by simp
qed (auto split: if_splits)

lemma match_at_suffix:
  assumes "match_at r p = Some q"
  shows "strict_suffix (snd q) (snd p)"
proof -
  have "q \<in> set (ends r p)" "length (snd q) < length (snd p)"
    using assms by (auto simp: match_at_def split: list.splits if_splits)
  then show ?thesis using ends_suffix [of q r p] by (auto simp: strict_suffix_def)
qed

text \<open>Replacing keeps a property of runes that the text and the replacement have.\<close>

lemma replace_from_all:
  "list_all P repl \<Longrightarrow> list_all P (snd p) \<Longrightarrow> list_all P (replace_from r repl p)"
proof (induction r repl p rule: replace_from.induct)
  case (1 r repl p)
  show ?case
  proof (cases "match_at r p")
    case None
    with "1.prems" "1.IH"(1) [OF None] show ?thesis
      by (subst replace_from.simps) (auto split: list.split)
  next
    case (Some q)
    have "list_all P (snd q)"
      using "1.prems"(2) match_at_suffix [OF Some] by (auto simp: strict_suffix_def suffix_def)
    then show ?thesis
      using "1.IH"(2) [OF Some] "1.prems" Some by (subst replace_from.simps) simp
  qed
qed

lemma ReplaceAllString_all:
  "list_all P src \<Longrightarrow> list_all P repl \<Longrightarrow> list_all P (ReplaceAllString r src repl)"
  by (simp add: ReplaceAllString_def replace_from_all)

text \<open>A text without a match stays as it is.\<close>

lemma replace_from_none: "\<not> matches_from r prev s \<Longrightarrow> replace_from r repl (prev, s) = s"
  by (induction s arbitrary: prev) (auto simp: replace_from.simps simp del: not_None_eq)

lemma ReplaceAllString_none: "\<not> matches_from r None src \<Longrightarrow> ReplaceAllString r src repl = src"
  by (simp add: ReplaceAllString_def replace_from_none)

end
