(* ===== verification/Prompt.thy ===== *)
theory Prompt
  imports Go_Regexp
begin

text \<open>
  \<open>internal/ai/prompt.go\<close>: the context of an event, its enrichment from the system, the
  sanitizing of what comes from outside and the assembly of the prompt. What the system
  answers (the user database and procfs) is the record \<open>os_lookup\<close>. Between the removal of
  control characters and the truncation the text is valid UTF-8 and is kept as its runes.
\<close>

section \<open>Constants\<close>

definition defaultSystemPrompt :: string where
  \<open>defaultSystemPrompt =
     ''You are a seasoned Security Operations Center (SOC) analyst embedded in a Linux kern'' @
       ''el security system. Your task is to analyze binary execution events and assess their'' @
       '' threat level.''
     @ newline # ''''
     @ newline # ''You MUST respond with ONLY a JSON object in the following format:''
     @ newline # ''{"risk": <float between 0.0 and 1.0>, "reasoning": "<brief explanation>"}''
     @ newline # ''''
     @ newline # ''Do NOT include any text outside the JSON object. No markdown, no code fences, no com'' @
       ''mentary.''
     @ newline # ''''
     @ newline # ''Risk scoring guidelines:''
     @ newline # ''- 0.0-0.3: Normal system operations (package managers, cron jobs, legitimate admin t'' @
       ''ools)''
     @ newline # ''- 0.3-0.6: Unusual but potentially legitimate (uncommon binaries, atypical arguments'' @
       '')''
     @ newline # ''- 0.6-0.8: Suspicious activity (reverse shells, encoded payloads, privilege escalati'' @
       ''on attempts)''
     @ newline # ''- 0.8-1.0: High-confidence threat (known attack patterns, command injection, data ex'' @
       ''filtration)''\<close>

definition contextDelimiterStart :: string where
  "contextDelimiterStart = ''<<<EVENT_DATA>>>''"

definition contextDelimiterEnd :: string where
  "contextDelimiterEnd = ''<<<END_EVENT_DATA>>>''"

definition maxInputLen :: nat where "maxInputLen = 4096"

definition truncation_mark :: string where "truncation_mark = ''...[truncated]''"

section \<open>Context of an event\<close>

record EventContext =
  ec_Argv :: string
  ec_ScriptPath :: string
  ec_ParentName :: string
  ec_ParentArgv :: string
  ec_Username :: string
  ec_CgroupPath :: string
  ec_CgroupID :: u64
  ec_InodeNumber :: u64
  ec_PID :: u32
  ec_PPID :: u32
  ec_UID :: u32

text \<open>The user name of a UID, and the files \<open>comm\<close>, \<open>cmdline\<close>, \<open>cgroup\<close> of a PID.\<close>

record os_lookup =
  os_user :: "u32 \<Rightarrow> string option"
  os_comm :: "u32 \<Rightarrow> string option"
  os_cmdline :: "u32 \<Rightarrow> string option"
  os_cgroup :: "u32 \<Rightarrow> string option"

definition resolveProcessName :: "os_lookup \<Rightarrow> u32 \<Rightarrow> string" where
  "resolveProcessName os pid =
     (if pid = 0 then ''kernel''
      else case os_comm os pid of
             None \<Rightarrow> ''pid:'' @ decimal (unat pid)
           | Some data \<Rightarrow> TrimSpace data)"

definition NUL :: char where "NUL = CHR 0x00"

definition resolveProcessCmdline :: "os_lookup \<Rightarrow> u32 \<Rightarrow> string" where
  "resolveProcessCmdline os pid =
     (if pid = 0 then ''''
      else case os_cmdline os pid of
             None \<Rightarrow> ''''
           | Some data \<Rightarrow> if data = '''' then '''' else ReplaceAll (TrimRight data NUL) [NUL] '' '')"

text \<open>The path of the first line \<open>0::path\<close> whose path is neither empty nor the root.\<close>

fun cgroup_loop :: "string list \<Rightarrow> string" where
  "cgroup_loop [] = ''''"
| "cgroup_loop (line # lines) =
     (case SplitN 3 line (CHR '':'') of
        [a, b, path] \<Rightarrow>
          if a = ''0'' \<and> b = '''' \<and> path \<noteq> '''' \<and> path \<noteq> ''/'' then path else cgroup_loop lines
      | _ \<Rightarrow> cgroup_loop lines)"

definition resolveCgroupPath :: "os_lookup \<Rightarrow> u32 \<Rightarrow> string" where
  "resolveCgroupPath os pid =
     (case os_cgroup os pid of
        None \<Rightarrow> ''''
      | Some data \<Rightarrow>
          if data = '''' then '''' else cgroup_loop (Split (TrimSpace data) newline))"

definition EnrichContext :: "os_lookup \<Rightarrow> EventContext \<Rightarrow> EventContext" where
  "EnrichContext os ec =
     ec\<lparr>ec_Username := (case os_user os (ec_UID ec) of
                          Some name \<Rightarrow> name
                        | None \<Rightarrow> ''uid:'' @ decimal (unat (ec_UID ec))),
        ec_ParentName := resolveProcessName os (ec_PPID ec),
        ec_ParentArgv := resolveProcessCmdline os (ec_PPID ec),
        ec_CgroupPath := resolveCgroupPath os (ec_PID ec)\<rparr>"

section \<open>Sanitizing\<close>

text \<open>A letter matches its case variants, which for two letters are not only ASCII.\<close>

definition fold_class :: "char \<Rightarrow> rune list" where
  "fold_class c =
     (let r = of_char c :: rune in
      if in_range 97 122 r then
        [r, r - 32] @ (if r = 107 then [0x212A] else if r = 115 then [0x17F] else [])
      else [r])"

fun literal :: "string \<Rightarrow> regexp" where
  "literal [] = Optional (Class [])"
| "literal [c] = Class (fold_class c)"
| "literal (c # s) = Sequence (Class (fold_class c)) (literal s)"

fun sequence :: "regexp list \<Rightarrow> regexp" where
  "sequence [] = Optional (Class [])"
| "sequence [r] = r"
| "sequence (r # rs) = Sequence r (sequence rs)"

fun alternatives :: "regexp list \<Rightarrow> regexp" where
  "alternatives [] = Class []"
| "alternatives [r] = r"
| "alternatives (r # rs) = Alternative r (alternatives rs)"

definition space :: regexp where "space = Class [9, 10, 12, 13, 32]"

definition promptInjectionPattern :: regexp where
  "promptInjectionPattern = alternatives
     [sequence [literal ''ignore'', Plus space,
        alternatives [literal ''previous'', literal ''prior'', literal ''above'', literal ''all''],
        Plus space,
        alternatives [Sequence (literal ''instruction'') (Optional (literal ''s'')),
          Sequence (literal ''prompt'') (Optional (literal ''s'')),
          Sequence (literal ''rule'') (Optional (literal ''s''))]],
      sequence [literal ''you'', Plus space, literal ''are'', Plus space, literal ''now''],
      sequence [literal ''new'', Plus space, literal ''instruction'', Optional (literal ''s''),
        literal '':''],
      sequence [literal ''system'', Star space, literal '':''],
      sequence [literal ''assistant'', Star space, literal '':''],
      sequence [Word_Boundary, literal ''do'', Plus space, literal ''not'', Plus space,
        literal ''follow'', Word_Boundary],
      sequence [Word_Boundary, literal ''forget'', Plus space,
        alternatives [literal ''everything'', literal ''all'', literal ''previous''],
        Word_Boundary],
      sequence [Word_Boundary, literal ''role'', Star space, literal '':'', Star space,
        literal ''system'', Word_Boundary]]"

text \<open>\<open>unicode.IsControl\<close>.\<close>

definition IsControl :: "rune \<Rightarrow> bool" where
  "IsControl r \<longleftrightarrow> in_range 0 0x1F r \<or> in_range 0x7F 0x9F r"

definition keep_rune :: "rune \<Rightarrow> rune option" where
  "keep_rune r =
     (if r = 10 \<or> r = 9 \<or> r = 13 then Some r else if IsControl r then None else Some r)"

definition FILTERED :: "rune list" where "FILTERED = runes_of ''[FILTERED]''"

definition neutralize :: "rune list \<Rightarrow> rune list" where
  "neutralize rs =
     (let cleaned = Map_runes keep_rune rs;
          cleaned = ReplaceAll cleaned [96, 96, 96] [39, 39, 39];
          cleaned = ReplaceAll cleaned [96] [39]
      in ReplaceAllString promptInjectionPattern cleaned FILTERED)"

definition SanitizeInput :: "string \<Rightarrow> string" where
  "SanitizeInput input =
     (if input = '''' then ''''
      else let cleaned = string_of_runes (neutralize (runes_of input)) in
           if length cleaned > maxInputLen then take maxInputLen cleaned @ truncation_mark
           else cleaned)"

section \<open>The prompt\<close>

definition prompt_line :: "string \<Rightarrow> string \<Rightarrow> string" where
  "prompt_line label value = label @ value @ [newline]"

definition optional_line :: "string \<Rightarrow> string \<Rightarrow> string" where
  "optional_line label value = (if value \<noteq> '''' then prompt_line label value else '''')"

definition BuildPrompt :: "EventContext \<Rightarrow> string \<Rightarrow> string \<times> string" where
  "BuildPrompt ctx customSystemPrompt =
     (let system = (if customSystemPrompt \<noteq> '''' then customSystemPrompt else defaultSystemPrompt);
          safeArgv = SanitizeInput (ec_Argv ctx);
          safeScript = SanitizeInput (ec_ScriptPath ctx);
          safeParent = SanitizeInput (ec_ParentName ctx);
          safeUsername = SanitizeInput (ec_Username ctx);
          safeParentArgv = SanitizeInput (ec_ParentArgv ctx);
          safeCgroupPath = SanitizeInput (ec_CgroupPath ctx)
      in (system,
          ''Analyze the following binary execution event for security threats.''
          @ [newline, newline]
          @ contextDelimiterStart @ [newline]
          @ prompt_line ''User: '' (safeUsername @ '' (UID '' @ decimal (unat (ec_UID ctx)) @ '')'')
          @ prompt_line ''Command: '' safeArgv
          @ optional_line ''Script: '' safeScript
          @ prompt_line ''Parent: '' safeParent
          @ optional_line ''Parent Command: '' safeParentArgv
          @ optional_line ''Service: '' safeCgroupPath
          @ contextDelimiterEnd))"

section \<open>Lemmas: clean text\<close>

lemma ReplaceAll_single: "ReplaceAll s [x] [y] = map (\<lambda>c. if c = x then y else c) s"
  by (induction s) auto

lemma ReplaceAll_all:
  "list_all P s \<Longrightarrow> list_all P new \<Longrightarrow> list_all P (ReplaceAll s old new)"
proof (induction s old new rule: ReplaceAll.induct)
  case (2 c s old new)
  then show ?case by (auto simp: list_all_iff dest: in_set_dropD)
qed simp

definition clean_rune :: "rune \<Rightarrow> bool" where
  "clean_rune r \<longleftrightarrow> r \<noteq> 96 \<and> (r = 10 \<or> r = 9 \<or> r = 13 \<or> \<not> IsControl r)"

definition clean_char :: "char \<Rightarrow> bool" where
  "clean_char c \<longleftrightarrow>
     (let b = of_char c :: int in b \<noteq> 96 \<and> (b = 10 \<or> b = 9 \<or> b = 13 \<or> 32 \<le> b \<and> b \<noteq> 127))"

lemma FILTERED_clean: "list_all clean_rune FILTERED"
  by code_simp

lemma neutralize_clean: "list_all clean_rune (neutralize rs)"
proof -
  let ?ok = "\<lambda>r. r = 10 \<or> r = 9 \<or> r = 13 \<or> \<not> IsControl r"
  have "list_all ?ok (Map_runes keep_rune rs)"
    by (auto simp: Map_runes_def keep_rune_def map_filter_def list_all_iff split: if_splits)
  then have "list_all ?ok (ReplaceAll (Map_runes keep_rune rs) [96, 96, 96] [39, 39, 39])"
    by (rule ReplaceAll_all) (simp add: IsControl_def in_range_def)
  then have "list_all clean_rune
      (ReplaceAll (ReplaceAll (Map_runes keep_rune rs) [96, 96, 96] [39, 39, 39]) [96] [39])"
    unfolding ReplaceAll_single
    by (auto simp: list_all_iff clean_rune_def IsControl_def in_range_def)
  then show ?thesis
    unfolding neutralize_def Let_def by (rule ReplaceAllString_all [OF _ FILTERED_clean])
qed

lemma string_of_runes_clean:
  assumes "list_all clean_rune rs"
  shows "list_all clean_char (string_of_runes rs)"
proof -
  have "clean_char c" if "c \<in> set (string_of_runes rs)" for c
  proof -
    from that obtain r b where r: "r \<in> set rs" "b \<in> set (EncodeRune r)" "c = char_of b"
      by (auto simp: string_of_runes_def of_byte_vals_def encode_runes_def)
    have b: "of_char c = b" using EncodeRune_bytes [OF r(2)] r(3) by simp
    have cl: "clean_rune r" using assms r(1) by (simp add: list_all_iff)
    show ?thesis
    proof (cases "b < 0x80")
      case True
      then have "b = r" "0 \<le> r" using EncodeRune_low [OF r(2)] by auto
      then show ?thesis
        using b cl by (auto simp: clean_char_def clean_rune_def IsControl_def in_range_def)
    next
      case False
      then show ?thesis using b by (auto simp: clean_char_def)
    qed
  qed
  then show ?thesis by (simp add: list_all_iff)
qed

lemma length_truncation_mark: "length truncation_mark = 14"
  by (simp add: truncation_mark_def)

lemma truncation_mark_clean: "list_all clean_char truncation_mark"
  by code_simp

lemma list_all_take: "list_all P xs \<Longrightarrow> list_all P (take n xs)"
  by (auto simp: list_all_iff dest: in_set_takeD)

lemma SanitizeInput_clean: "list_all clean_char (SanitizeInput s)"
  using string_of_runes_clean [OF neutralize_clean]
  by (simp add: SanitizeInput_def Let_def list_all_take truncation_mark_clean)

lemma SanitizeInput_length: "length (SanitizeInput s) \<le> maxInputLen + 14"
  by (simp add: SanitizeInput_def Let_def length_truncation_mark)

section \<open>Lemmas: text that passes unchanged\<close>

text \<open>Clean ASCII text in which the pattern finds nothing.\<close>

definition harmless :: "string \<Rightarrow> bool" where
  "harmless s \<longleftrightarrow> list_all (\<lambda>c. clean_char c \<and> of_char c < (128::int)) s
     \<and> \<not> matches_from promptInjectionPattern None (byte_vals s) \<and> length s \<le> maxInputLen"

lemma of_byte_vals_byte_vals [simp]: "of_byte_vals (byte_vals s) = s"
  by (induction s) (simp_all add: of_byte_vals_def byte_vals_def)

lemma ReplaceAll_absent:
  "x \<notin> set s \<Longrightarrow> ReplaceAll s (x # xs) new = s"
  by (induction s) auto

lemma encode_ascii: "list_all (\<lambda>r. 0 \<le> r \<and> r < 0x80) rs \<Longrightarrow> encode_runes rs = rs"
  by (induction rs) (simp_all add: encode_runes_def EncodeRune_ascii)

lemma Map_runes_keep:
  assumes "\<And>r. r \<in> set rs \<Longrightarrow> r \<noteq> 96 \<and> (r = 10 \<or> r = 9 \<or> r = 13 \<or> \<not> IsControl r)"
  shows "Map_runes keep_rune rs = rs"
  using assms by (induction rs) (auto simp: Map_runes_def keep_rune_def map_filter_def)

lemma SanitizeInput_harmless:
  assumes "harmless s"
  shows "SanitizeInput s = s"
proof -
  let ?rs = "byte_vals s"
  have c: "clean_char c" "of_char c < (128::int)" if "c \<in> set s" for c
    using assms that by (auto simp: harmless_def list_all_iff)
  have ascii: "list_all (\<lambda>r. 0 \<le> r \<and> r < 0x80) ?rs"
    using c(2) by (auto simp: byte_vals_def list_all_iff)
  then have runes: "runes_of s = ?rs"
    unfolding runes_of_def by (intro decode_ascii) (auto simp: list_all_iff)
  have clean: "r \<noteq> 96 \<and> (r = 10 \<or> r = 9 \<or> r = 13 \<or> \<not> IsControl r)" if "r \<in> set ?rs" for r
  proof -
    from that obtain d where d: "d \<in> set s" "r = of_char d" by (auto simp: byte_vals_def)
    show ?thesis
      using c [OF d(1)] d(2) by (auto simp: clean_char_def Let_def IsControl_def in_range_def)
  qed
  have "Map_runes keep_rune ?rs = ?rs"
    using clean by (rule Map_runes_keep)
  moreover have "96 \<notin> set ?rs" using clean by blast
  ultimately have "neutralize ?rs = ?rs"
    using assms
    by (simp add: neutralize_def Let_def ReplaceAll_absent ReplaceAllString_none harmless_def)
  then show ?thesis
    using assms runes
    by (auto simp: SanitizeInput_def Let_def string_of_runes_def encode_ascii [OF ascii]
        harmless_def)
qed

section \<open>Lemmas: the message\<close>

lemma line_inject:
  "newline \<notin> set a \<Longrightarrow> newline \<notin> set b \<Longrightarrow>
     prompt_line label a @ x = prompt_line label b @ y \<longleftrightarrow> a = b \<and> x = y"
  by (simp add: prompt_line_def append_sep_inject)

lemma uid_inject:
  "u @ '' (UID '' @ decimal m @ '')'' = v @ '' (UID '' @ decimal n @ '')'' \<longleftrightarrow> u = v \<and> m = n"
proof
  assume eq: "u @ '' (UID '' @ decimal m @ '')'' = v @ '' (UID '' @ decimal n @ '')''"
  have sp: "CHR '' '' \<notin> set (decimal k)" for k
    using decimal_digits [of "CHR '' ''" k] by auto
  have "rev (decimal m) @ CHR '' '' # rev ('' (UID'') @ rev u
      = rev (decimal n) @ CHR '' '' # rev ('' (UID'') @ rev v"
    using arg_cong [OF eq, of rev] by simp
  then show "u = v \<and> m = n" using sp by (subst (asm) append_sep_inject) auto
qed simp

text \<open>The lines of a message, the optional ones by their presence.\<close>

definition prompt_head :: string where
  "prompt_head = ''Analyze the following binary execution event for security threats.''
     @ [newline, newline] @ contextDelimiterStart @ [newline]"

definition user_field :: "EventContext \<Rightarrow> string" where
  "user_field ctx = SanitizeInput (ec_Username ctx) @ '' (UID '' @ decimal (unat (ec_UID ctx)) @ '')''"

definition service_lines :: "EventContext \<Rightarrow> string" where
  "service_lines ctx = optional_line ''Service: '' (SanitizeInput (ec_CgroupPath ctx))
     @ contextDelimiterEnd"

definition parent_lines :: "EventContext \<Rightarrow> string" where
  "parent_lines ctx = prompt_line ''Parent: '' (SanitizeInput (ec_ParentName ctx))
     @ optional_line ''Parent Command: '' (SanitizeInput (ec_ParentArgv ctx)) @ service_lines ctx"

definition command_lines :: "EventContext \<Rightarrow> string" where
  "command_lines ctx = prompt_line ''Command: '' (SanitizeInput (ec_Argv ctx))
     @ optional_line ''Script: '' (SanitizeInput (ec_ScriptPath ctx)) @ parent_lines ctx"

lemma BuildPrompt_message:
  "snd (BuildPrompt ctx sp) = prompt_head @ prompt_line ''User: '' (user_field ctx) @ command_lines ctx"
  by (simp add: BuildPrompt_def Let_def prompt_head_def user_field_def command_lines_def
      parent_lines_def service_lines_def)

text \<open>
  An optional line is there or not; the label in front tells which. What follows, here,
  starts with another letter.
\<close>

lemma optional_inject:
  assumes "newline \<notin> set a" "newline \<notin> set b" "label \<noteq> []"
    and "x \<noteq> []" "y \<noteq> []" "hd x \<noteq> hd label" "hd y \<noteq> hd label"
  shows "optional_line label a @ x = optional_line label b @ y \<longleftrightarrow> a = b \<and> x = y"
proof -
  have ne: "prompt_line label z @ w \<noteq> v" if "v \<noteq> []" "hd v \<noteq> hd label" for z w v
    using that assms(3) by (cases label; cases v) (auto simp: prompt_line_def)
  show ?thesis
  proof (cases "a = []"; cases "b = []")
    assume "a = []" "b \<noteq> []"
    then show ?thesis using ne [of x b y] assms(4,6) by (auto simp: optional_line_def)
  next
    assume "a \<noteq> []" "b = []"
    then show ?thesis using ne [of y a x] assms(5,7) by (auto simp: optional_line_def)
  qed (use line_inject [OF assms(1,2), of label x y] in \<open>auto simp: optional_line_def\<close>)
qed

end
