(* ===== verification/AI_Client.thy ===== *)
theory AI_Client
  imports AI_Wire Prompt
begin

text \<open>
  \<open>internal/ai/client.go\<close>: one request to the AI provider, the circuit breaker around it
  and the retries. The network is an argument (what the n-th request meets), and so are the
  breaker of \<open>sony/gobreaker\<close> (whether it lets a request pass, and how it takes the outcome).
  The reading of JSON is an argument as well, so that what holds of the client for every reader
  is proved once; \<open>go_json\<close> is the one of \<open>encoding/json\<close>. A time is a number of nanoseconds.
\<close>

section \<open>Helpers on strings\<close>

definition fence :: string where "fence = [CHR 0x60, CHR 0x60, CHR 0x60]"

definition stripCodeFences :: "string \<Rightarrow> string" where
  "stripCodeFences s0 =
     (let s = TrimSpace s0 in
      if HasPrefix s fence then
        let s1 = (case Index s [newline] of Some idx \<Rightarrow> drop (idx + 1) s | None \<Rightarrow> s);
            s2 = (case LastIndex s1 fence of Some idx \<Rightarrow> take idx s1 | None \<Rightarrow> s1)
        in TrimSpace s2
      else s)"

definition truncate_str :: "string \<Rightarrow> nat \<Rightarrow> string" where
  "truncate_str s n = (if length s \<le> n then s else take n s @ ''...'')"

text \<open>
  The delay before attempt \<open>n\<close>. The product is exact in \<open>float64\<close>; what a product beyond
  the range of \<open>time.Duration\<close> is converted to depends on the machine (\<open>ovf\<close>).
\<close>

definition backoffDelay :: "int \<Rightarrow> nat \<Rightarrow> int" where
  "backoffDelay ovf attempt =
     (let product = 500000000 * 2 ^ (attempt - 1) :: int;
          delay = (if product < 2 ^ 63 then product else ovf);
          maxDelay = 30 * 1000000000
      in if delay > maxDelay then maxDelay else delay)"

definition loadAPIKey :: "string \<Rightarrow> string \<Rightarrow> string \<Rightarrow> string option \<Rightarrow> string option" where
  "loadAPIKey envVar envValue filePath content =
     (if envVar \<noteq> '''' \<and> envValue \<noteq> '''' then Some envValue
      else if filePath \<noteq> '''' then
        (case content of
           None \<Rightarrow> None
         | Some data \<Rightarrow> let key = TrimSpace data in if key = '''' then None else Some key)
      else Some '''')"

section \<open>Errors and results\<close>

datatype ai_error =
    Ctx_Error
  | Breaker_Open
  | Breaker_Too_Many
  | Marshal_Request
  | Create_Request
  | HTTP_Request
  | Read_Body
  | Provider_Error nat string
  | Client_Error nat string
  | Parse_Envelope
  | No_Choices
  | Parse_Verdict verdict_error
  | Failed_After int "ai_error option"

record AnalysisResult =
  ar_Model :: string
  ar_Verdict :: RiskVerdict
  ar_Duration :: int

definition isCircuitOpen :: "ai_error \<Rightarrow> bool" where
  "isCircuitOpen e \<longleftrightarrow> e = Breaker_Open \<or> e = Breaker_Too_Many"

definition isClientError :: "ai_error \<Rightarrow> bool" where
  "isClientError e = (case e of Client_Error _ _ \<Rightarrow> True | _ \<Rightarrow> False)"

section \<open>One request\<close>

text \<open>
  The request \<open>Analyze\<close> builds from the prompt and every attempt sends; the temperature is
  the \<open>float64\<close> next to \<open>0.1\<close>.
\<close>

definition request_of :: "string \<Rightarrow> string \<Rightarrow> EventContext \<Rightarrow> openAIRequest" where
  "request_of model customSystemPrompt evCtx =
     (let (systemPrompt, userMsg) = BuildPrompt evCtx customSystemPrompt in
      \<lparr>rq_Temperature = Fin (3602879701896397 / 36028797018963968), rq_Model = model,
       rq_Messages = [\<lparr>ms_Role = ''system'', ms_Content = systemPrompt\<rparr>,
                      \<lparr>ms_Role = ''user'', ms_Content = userMsg\<rparr>]\<rparr>)"

text \<open>The headers of the request.\<close>

definition request_headers :: "string \<Rightarrow> (string \<times> string) list" where
  "request_headers apiKey =
     (''Content-Type'', ''application/json'')
     # (if apiKey \<noteq> '''' then [(''Authorization'', ''Bearer '' @ apiKey)] else [])"

text \<open>What a request meets, in the order of the code.\<close>

datatype http_reply =
    Not_Marshalled
  | Not_Created
  | Transport_Failed
  | Body_Failed
  | Reply nat string int

record json_lib =
  js_envelope :: "string \<Rightarrow> (string \<times> string list) option"
  js_document :: "string \<Rightarrow> json_input"

definition go_json :: json_lib where
  "go_json = \<lparr>js_envelope = (\<lambda>body. map_option
       (\<lambda>r. (rs_Model r, map (\<lambda>c. ms_Content (ch_Message c)) (rs_Choices r))) (Unmarshal_response body)),
     js_document = Decode_document\<rparr>"

definition doHTTPRequest :: "json_lib \<Rightarrow> string \<Rightarrow> http_reply \<Rightarrow> ai_error + AnalysisResult" where
  "doHTTPRequest js config_model reply =
     (case reply of
        Not_Marshalled \<Rightarrow> Inl Marshal_Request
      | Not_Created \<Rightarrow> Inl Create_Request
      | Transport_Failed \<Rightarrow> Inl HTTP_Request
      | Body_Failed \<Rightarrow> Inl Read_Body
      | Reply status body duration \<Rightarrow>
          if status \<ge> 500 then Inl (Provider_Error status (truncate_str body 200))
          else if status \<ge> 400 then Inl (Client_Error status (truncate_str body 200))
          else case js_envelope js body of
            None \<Rightarrow> Inl Parse_Envelope
          | Some (model, contents) \<Rightarrow>
              (case contents of
                 [] \<Rightarrow> Inl No_Choices
               | content # _ \<Rightarrow>
                   (case ParseVerdict (js_document js (stripCodeFences content)) of
                      Inl err \<Rightarrow> Inl (Parse_Verdict err)
                    | Inr v \<Rightarrow>
                        Inr \<lparr>ar_Model = (if model = '''' then config_model else model),
                             ar_Verdict = v, ar_Duration = duration\<rparr>)))"

section \<open>The circuit breaker\<close>

record 'b breaker =
  br_before :: "'b \<Rightarrow> ai_error option \<times> 'b"
  br_after :: "bool \<Rightarrow> 'b \<Rightarrow> 'b"

definition IsSuccessful :: "ai_error + AnalysisResult \<Rightarrow> bool" where
  "IsSuccessful r = (case r of Inr _ \<Rightarrow> True | Inl e \<Rightarrow> isClientError e)"

text \<open>The request is sent only when the breaker lets it pass; the flag says whether it was.\<close>

definition doRequest :: "'b breaker \<Rightarrow> json_lib \<Rightarrow> string \<Rightarrow> http_reply \<Rightarrow> 'b
    \<Rightarrow> (ai_error + AnalysisResult) \<times> bool \<times> 'b" where
  "doRequest br js config_model reply b =
     (case br_before br b of
        (Some err, b1) \<Rightarrow> (Inl err, False, b1)
      | (None, b1) \<Rightarrow>
          let r = doHTTPRequest js config_model reply
          in (r, True, br_after br (IsSuccessful r) b1))"

text \<open>
  \<open>ReadyToTrip\<close> and the defaults of \<open>NewClient\<close>. A conversion of a negative number to
  \<open>uint32\<close> wraps.
\<close>

record breaker_settings =
  bs_MaxRequests :: u32
  bs_Timeout :: int
  bs_maxFail :: int

definition breaker_settings_of :: "int \<Rightarrow> int \<Rightarrow> int \<Rightarrow> breaker_settings" where
  "breaker_settings_of halfOpenMaxReqs cooldownTime maxFailures =
     (let maxReqs = word_of_int halfOpenMaxReqs :: u32
      in \<lparr>bs_MaxRequests = (if maxReqs = 0 then 1 else maxReqs),
          bs_Timeout = (if cooldownTime = 0 then 30 * 1000000000 else cooldownTime),
          bs_maxFail = (if maxFailures = 0 then 5 else maxFailures)\<rparr>)"

definition ReadyToTrip :: "breaker_settings \<Rightarrow> u32 \<Rightarrow> bool" where
  "ReadyToTrip s consecutiveFailures \<longleftrightarrow> uint consecutiveFailures \<ge> bs_maxFail s"

text \<open>\<open>NewClient\<close>: the key, the default timeout and the settings of the breaker.\<close>

record CircuitBreakerConfig =
  bc_MaxFailures :: int
  bc_CooldownTime :: int
  bc_HalfOpenMaxReqs :: int

record ClientConfig =
  cc_ProviderURL :: string
  cc_Model :: string
  cc_APIKeyEnv :: string
  cc_APIKeyFile :: string
  cc_SystemPrompt :: string
  cc_Timeout :: int
  cc_CircuitBreaker :: CircuitBreakerConfig
  cc_MaxRetries :: int

record Client =
  cl_breaker :: breaker_settings
  cl_apiKey :: string
  cl_config :: ClientConfig

definition NewClient :: "ClientConfig \<Rightarrow> string \<Rightarrow> string option \<Rightarrow> Client option" where
  "NewClient cfg0 envValue content =
     (case loadAPIKey (cc_APIKeyEnv cfg0) envValue (cc_APIKeyFile cfg0) content of
        None \<Rightarrow> None
      | Some apiKey \<Rightarrow>
          let cfg = (if cc_Timeout cfg0 = 0 then cfg0\<lparr>cc_Timeout := 5 * 1000000000\<rparr> else cfg0);
              cb = cc_CircuitBreaker cfg
          in Some \<lparr>cl_breaker = breaker_settings_of (bc_HalfOpenMaxReqs cb) (bc_CooldownTime cb)
                     (bc_MaxFailures cb),
                   cl_apiKey = apiKey, cl_config = cfg\<rparr>)"

section \<open>Retries\<close>

text \<open>
  What attempt \<open>n\<close> meets: whether the context ends the wait before it, the reply, and
  whether the context is over when the request has failed.
\<close>

record attempt_env =
  at_wait_cancelled :: bool
  at_reply :: http_reply
  at_ctx_err :: bool

record 'b analysis =
  an_result :: "ai_error + AnalysisResult"
  an_breaker :: 'b
  an_delays :: "int list"
  an_sent :: nat

text \<open>The loop with \<open>fuel\<close> attempts left; \<open>MaxRetries + 1\<close> of them are made at most.\<close>

fun analyze_loop :: "'b breaker \<Rightarrow> json_lib \<Rightarrow> string \<Rightarrow> int \<Rightarrow> int \<Rightarrow> (nat \<Rightarrow> attempt_env) \<Rightarrow> nat \<Rightarrow> nat
    \<Rightarrow> ai_error option \<Rightarrow> 'b \<Rightarrow> 'b analysis" where
  "analyze_loop br js model maxRetries ovf net 0 attempt lastErr b =
     \<lparr>an_result = Inl (Failed_After (maxRetries + 1) lastErr), an_breaker = b,
      an_delays = [], an_sent = 0\<rparr>"
| "analyze_loop br js model maxRetries ovf net (Suc fuel) attempt lastErr b =
     (let delays = (if attempt > 0 then [backoffDelay ovf attempt] else []) in
      if attempt > 0 \<and> at_wait_cancelled (net attempt) then
        \<lparr>an_result = Inl Ctx_Error, an_breaker = b, an_delays = delays, an_sent = 0\<rparr>
      else
        let (r, sent, b1) = doRequest br js model (at_reply (net attempt)) b;
            n = (if sent then 1 else 0)
        in case r of
             Inr result \<Rightarrow>
               \<lparr>an_result = Inr result, an_breaker = b1, an_delays = delays, an_sent = n\<rparr>
           | Inl err \<Rightarrow>
               if at_ctx_err (net attempt) then
                 \<lparr>an_result = Inl Ctx_Error, an_breaker = b1, an_delays = delays, an_sent = n\<rparr>
               else if isCircuitOpen err then
                 \<lparr>an_result = Inl err, an_breaker = b1, an_delays = delays, an_sent = n\<rparr>
               else
                 let a = analyze_loop br js model maxRetries ovf net fuel (Suc attempt) (Some err) b1
                 in a\<lparr>an_delays := delays @ an_delays a, an_sent := n + an_sent a\<rparr>)"

definition Analyze :: "'b breaker \<Rightarrow> json_lib \<Rightarrow> string \<Rightarrow> int \<Rightarrow> int \<Rightarrow> (nat \<Rightarrow> attempt_env) \<Rightarrow> 'b
    \<Rightarrow> 'b analysis" where
  "Analyze br js model maxRetries ovf net b =
     analyze_loop br js model maxRetries ovf net (nat (maxRetries + 1)) 0 None b"

section \<open>Lemmas: strings\<close>

text \<open>A key that was asked for is sent; without one the request carries no authorization.\<close>

lemma NewClient_key:
  assumes "NewClient cfg envValue content = Some c"
  shows "cc_APIKeyFile cfg \<noteq> '''' \<longrightarrow> cl_apiKey c \<noteq> ''''"
    "''Authorization'' \<in> fst ` set (request_headers (cl_apiKey c)) \<longleftrightarrow> cl_apiKey c \<noteq> ''''"
    "cc_Timeout (cl_config c) \<noteq> 0"
  using assms
  by (auto simp: NewClient_def loadAPIKey_def request_headers_def Let_def
      split: if_splits option.splits)

lemma request_contents:
  "map ms_Content (rq_Messages (request_of model sp ctx))
     = [fst (BuildPrompt ctx sp), snd (BuildPrompt ctx sp)]"
  by (simp add: request_of_def case_prod_unfold Let_def)

lemma fence_solid: "TrimSpace (fence @ s @ fence) = fence @ s @ fence"
  by (rule TrimSpace_solid) (simp_all add: white_space_def fence_def HasPrefix_def)

lemma Index_newline:
  "newline \<notin> set pre \<Longrightarrow> Index (pre @ newline # s) [newline] = Some (length pre)"
  by (induction pre) auto

lemma LastIndex_end: "LastIndex (s @ fence) fence = Some (length s)"
proof (induction s)
  case Nil
  show ?case by (simp add: fence_def HasPrefix_def)
qed simp

lemma stripCodeFences_fenced:
  assumes "newline \<notin> set lang"
  shows "stripCodeFences (fence @ lang @ newline # body @ fence) = TrimSpace body"
proof -
  have "TrimSpace (fence @ (lang @ newline # body) @ fence) = fence @ (lang @ newline # body) @ fence"
    by (rule fence_solid)
  moreover have "newline \<notin> set (fence @ lang)" using assms by (simp add: fence_def newline_def)
  then have "Index ((fence @ lang) @ newline # body @ fence) [newline] = Some (length (fence @ lang))"
    by (rule Index_newline)
  moreover have "drop (length (fence @ lang) + 1) ((fence @ lang) @ newline # body @ fence) = body @ fence"
    by simp
  ultimately show ?thesis
    by (simp add: stripCodeFences_def Let_def LastIndex_end)
qed

text \<open>A verdict in its fences, on lines of their own.\<close>

lemma TrimSpace_object: "TrimSpace (json_object ms @ [newline]) = json_object ms"
proof -
  have shape: "json_object ms = CHR 0x7B # join_comma (map json_member ms) @ [CHR 0x7D]" (is "_ = ?s")
    by (simp add: json_object_def)
  have "strip_leading white_space (?s @ [newline]) = ?s @ [newline]"
    by (rule strip_leading_none) (simp add: white_space_def HasPrefix_def)
  moreover have "strip_leading (map rev white_space) (newline # rev ?s)
      = strip_leading (map rev white_space) (rev ?s)"
    by (subst strip_leading.simps) (simp add: white_space_def HasPrefix_def newline_def)
  moreover have "strip_leading (map rev white_space) (rev ?s) = rev ?s"
    by (rule strip_leading_none) (simp add: white_space_def HasPrefix_def)
  ultimately show ?thesis unfolding shape TrimSpace_def by simp
qed

definition fenced :: "string \<Rightarrow> string \<Rightarrow> string" where
  "fenced lang body = fence @ lang @ newline # body @ newline # fence"

lemma stripCodeFences_object:
  "newline \<notin> set lang \<Longrightarrow> stripCodeFences (fenced lang (json_object ms)) = json_object ms"
  using stripCodeFences_fenced [of lang "json_object ms @ [newline]"]
  by (simp add: fenced_def TrimSpace_object)

lemma stripCodeFences_plain: "stripCodeFences (json_object ms) = json_object ms"
proof -
  have "TrimSpace (json_object ms) = json_object ms"
    by (rule TrimSpace_solid) (simp_all add: json_object_def white_space_def HasPrefix_def)
  then show ?thesis by (simp add: stripCodeFences_def json_object_def fence_def HasPrefix_def)
qed

section \<open>Lemmas: the provider's answer\<close>

lemma valid_fenced: "valid_text lang \<Longrightarrow> valid_text body \<Longrightarrow> valid_text (fenced lang body)"
  unfolding fenced_def
  using valid_text_append [OF valid_ascii [of fence] valid_text_append [OF _ valid_text_append
        [OF valid_ascii [of "[newline]"] valid_text_append [OF _ valid_ascii [of "newline # fence"]]]]]
  by (simp add: fence_def newline_def)

lemma valid_verdict: "valid_text num \<Longrightarrow> valid_text (verdict_text num reasoning)"
proof -
  assume l: "valid_text num"
  have "verdict_text num reasoning = CHR 0x7B # json_string ''risk'' @ CHR '':'' # num
      @ CHR '','' # json_string ''reasoning'' @ CHR '':'' # json_string reasoning @ [CHR 0x7D]"
    by (simp add: verdict_text_def json_object_def json_member_def)
  then show ?thesis
    by (simp only:) (intro valid_text_Cons valid_text_append valid_json_string l valid_text_Nil; simp)
qed

lemma ParseVerdict_text:
  assumes "denotes 0 num (J_Num (Some x))" "0 \<le> x" "x \<le> 1" "reasoning \<noteq> ''''"
  shows "ParseVerdict (Decode_document (verdict_text num reasoning))
    = Inr \<lparr>vd_Reasoning = clean reasoning, vd_Risk = Fin x\<rparr>"
proof -
  have "Decode_document (verdict_text num reasoning)
      = Document (J_Obj [(''risk'', J_Num (Some x)), (''reasoning'', J_Str (clean reasoning))]) False"
    using Decode_denotes [OF denotes_verdict [OF assms(1)], of "[]"] by (simp add: maxNestingDepth_def)
  then show ?thesis
    using assms(2-4) clean_nonempty [of reasoning]
    by (simp add: ParseVerdict_def decode_verdict_def decode_member_def field_of_def zero_verdict_def)
qed

section \<open>Lemmas: delays\<close>

lemma backoff_value:
  assumes "1 \<le> n" "n \<le> 35"
  shows "backoffDelay ovf n = min (500000000 * 2 ^ (n - 1)) 30000000000"
proof -
  have "(2::int) ^ (n - 1) \<le> 2 ^ 34" using assms by (intro power_increasing) auto
  then show ?thesis by (simp add: backoffDelay_def Let_def)
qed

lemma backoff_cap: "backoffDelay ovf n \<le> 30000000000"
  by (simp add: backoffDelay_def Let_def)

lemma backoff_overflow:
  assumes "36 \<le> n"
  shows "backoffDelay ovf n = min ovf 30000000000"
proof -
  have "(2::int) ^ 35 \<le> 2 ^ (n - 1)" using assms by (intro power_increasing) auto
  then show ?thesis by (simp add: backoffDelay_def Let_def)
qed

section \<open>Lemmas: the loop\<close>

lemma doRequest_sent:
  "doRequest br js model reply b = (r, True, b') \<Longrightarrow> r = doHTTPRequest js model reply"
  by (auto simp: doRequest_def Let_def split: prod.splits option.splits)

lemma analyze_loop_bounds:
  "an_sent (analyze_loop br js model m ovf net fuel k e b) \<le> fuel"
  "length (an_delays (analyze_loop br js model m ovf net fuel k e b)) \<le> fuel"
  by (induction fuel arbitrary: k e b)
    (auto simp: Let_def split: prod.splits sum.splits intro: le_SucI)

lemma Analyze_negative:
  "maxRetries < 0 \<Longrightarrow> an_result (Analyze br js model maxRetries ovf net b)
     = Inl (Failed_After (maxRetries + 1) None) \<and> an_sent (Analyze br js model maxRetries ovf net b) = 0"
  by (simp add: Analyze_def)

lemma doHTTPRequest_not_circuit: "doHTTPRequest js model reply = Inl e \<Longrightarrow> \<not> isCircuitOpen e"
  by (auto simp: doHTTPRequest_def isCircuitOpen_def split: http_reply.splits if_splits
      option.splits list.splits sum.splits)

text \<open>A breaker that lets every request pass.\<close>

definition passes :: "'b breaker \<Rightarrow> bool" where
  "passes br \<longleftrightarrow> (\<forall>b. fst (br_before br b) = None)"

definition failing :: "json_lib \<Rightarrow> string \<Rightarrow> attempt_env \<Rightarrow> bool" where
  "failing js model a \<longleftrightarrow> \<not> at_wait_cancelled a \<and> \<not> at_ctx_err a
     \<and> (\<exists>e. doHTTPRequest js model (at_reply a) = Inl e)"

definition error_of :: "json_lib \<Rightarrow> string \<Rightarrow> attempt_env \<Rightarrow> ai_error" where
  "error_of js model a =
     (case doHTTPRequest js model (at_reply a) of Inl e \<Rightarrow> e | Inr _ \<Rightarrow> Ctx_Error)"

definition delays_from :: "int \<Rightarrow> nat \<Rightarrow> nat \<Rightarrow> int list" where
  "delays_from ovf k n = map (backoffDelay ovf) (filter (\<lambda>i. 0 < i) [k..<k + n])"

lemma delays_from_Suc:
  "delays_from ovf k (Suc n) = (if k > 0 then [backoffDelay ovf k] else []) @ delays_from ovf (Suc k) n"
proof -
  have "[k..<k + Suc n] = k # [Suc k..<Suc k + n]" by (simp add: upt_rec)
  then show ?thesis by (simp add: delays_from_def)
qed

lemma passes_doRequest:
  "passes br \<Longrightarrow> \<exists>b'. doRequest br js model reply b = (doHTTPRequest js model reply, True, b')"
  by (cases "br_before br b") (auto simp: passes_def doRequest_def Let_def dest: spec [of _ b])

lemma analyze_loop_skip:
  assumes "passes br" "\<forall>i \<in> {k..<k + n}. failing js model (net i)" "n \<le> fuel"
  shows "\<exists>b'. analyze_loop br js model m ovf net fuel k e b =
    (let a = analyze_loop br js model m ovf net (fuel - n) (k + n)
               (if n = 0 then e else Some (error_of js model (net (k + n - 1)))) b'
     in a\<lparr>an_delays := delays_from ovf k n @ an_delays a, an_sent := n + an_sent a\<rparr>)"
  using assms(2,3)
proof (induction n arbitrary: fuel k e b)
  case 0
  show ?case by (simp add: delays_from_def) blast
next
  case (Suc n)
  then obtain fuel' where fuel: "fuel = Suc fuel'" "n \<le> fuel'" by (cases fuel) auto
  have f: "failing js model (net k)" using Suc.prems(1) by simp
  then obtain err where err: "doHTTPRequest js model (at_reply (net k)) = Inl err"
    by (auto simp: failing_def)
  obtain b1 where b1: "doRequest br js model (at_reply (net k)) b = (Inl err, True, b1)"
    using passes_doRequest [OF assms(1), of js model "at_reply (net k)" b] err by auto
  have eo: "error_of js model (net k) = err" by (simp add: error_of_def err)
  have "\<forall>i \<in> {Suc k..<Suc k + n}. failing js model (net i)" using Suc.prems(1) by simp
  from Suc.IH [OF this fuel(2), of "Some err" b1] obtain b' where
    b': "analyze_loop br js model m ovf net fuel' (Suc k) (Some err) b1 =
      (let a = analyze_loop br js model m ovf net (fuel' - n) (Suc k + n)
                 (if n = 0 then Some err else Some (error_of js model (net (Suc k + n - 1)))) b'
       in a\<lparr>an_delays := delays_from ovf (Suc k) n @ an_delays a, an_sent := n + an_sent a\<rparr>)"
    by blast
  have last: "(if n = 0 then Some err else Some (error_of js model (net (Suc k + n - 1))))
      = Some (error_of js model (net (k + Suc n - 1)))"
    using eo by (cases n) auto
  show ?case
    using f doHTTPRequest_not_circuit [OF err]
    by (intro exI [of _ b']) (simp add: fuel b1 b' last Let_def failing_def delays_from_Suc)
qed

end
