(* ===== verification/Worker_Pool.thy ===== *)
theory Worker_Pool
  imports Policy_Engine AI_Client
begin

text \<open>
  \<open>internal/ai/worker.go\<close>: the pool of workers that take events from the AI queue, ask the
  client and carry the verdict back: into the kernel's verdict map and, for a BLOCK, to the
  process. The queue is the one the policy engine sends to (\<open>QueueCh\<close>). The workers and
  their environment are a step relation; handling one event is one step, as the handling
  shares nothing with the other workers but the maps and counters, which are updated
  atomically; \<open>Daemon_Steps\<close> takes it apart.
\<close>

section \<open>The pool\<close>

record WorkerPoolConfig =
  pc_Mode :: string
  pc_Workers :: int
  pc_QueueSize :: int
  pc_RiskThreshold :: float64
  pc_FailOpen :: bool

record WorkerPool =
  wp_config :: WorkerPoolConfig
  wp_loader :: bool
  wp_onVerdict :: bool
  wp_queueDepth :: int
  wp_processedTotal :: int
  wp_verdicts :: "(event \<times> AnalysisResult \<times> AI_Action) list"

text \<open>The pool with the capacity of its queue; \<open>make\<close> panics on a negative one.\<close>

definition NewWorkerPool :: "WorkerPoolConfig \<Rightarrow> bool \<Rightarrow> (WorkerPool \<times> nat) option" where
  "NewWorkerPool cfg loader =
     (let queueSize = (if pc_QueueSize cfg = 0 then 256 else pc_QueueSize cfg) in
      if queueSize < 0 then None
      else Some (\<lparr>wp_config = cfg, wp_loader = loader, wp_onVerdict = False, wp_queueDepth = 0,
                  wp_processedTotal = 0, wp_verdicts = []\<rparr>, nat queueSize))"

definition SetVerdictCallback :: "WorkerPool \<Rightarrow> WorkerPool" where
  "SetVerdictCallback wp = wp\<lparr>wp_onVerdict := True\<rparr>"

text \<open>The number of goroutines \<open>Start\<close> launches.\<close>

definition Start_workers :: "WorkerPoolConfig \<Rightarrow> nat" where
  "Start_workers cfg = nat (if pc_Workers cfg = 0 then 4 else pc_Workers cfg)"

definition Submit :: "event \<Rightarrow> WorkerPool \<Rightarrow> daemon \<Rightarrow> bool \<times> WorkerPool \<times> daemon" where
  "Submit ev wp dm =
     (if length (dm_queue dm) < dm_queue_cap dm
      then (True, wp\<lparr>wp_queueDepth := wp_queueDepth wp + 1\<rparr>,
            dm\<lparr>dm_queue := dm_queue dm @ [ev]\<rparr>)
      else (False, wp, dm))"

section \<open>One event\<close>

definition killProcess :: "u32 \<Rightarrow> daemon \<Rightarrow> daemon" where
  "killProcess pid dm = dm\<lparr>dm_kills := dm_kills dm @ [pid]\<rparr>"

definition executeBlock :: "bool \<Rightarrow> event \<Rightarrow> WorkerPool \<Rightarrow> daemon \<Rightarrow> daemon" where
  "executeBlock sys_ok ev wp dm =
     (if pc_Mode (wp_config wp) = ''monitor'' then dm
      else let dm1 = (if wp_loader wp \<and> e_hash_available ev \<noteq> 0 then
                        (case BlockExec sys_ok (ExecKey ev) (dm_maps dm) of
                           Inl _ \<Rightarrow> dm
                         | Inr maps \<Rightarrow> dm\<lparr>dm_maps := maps\<rparr>)
                      else dm)
           in killProcess (e_pid ev) dm1)"

text \<open>The context of an event before its enrichment.\<close>

definition event_context :: "event \<Rightarrow> EventContext" where
  "event_context ev = \<lparr>ec_Argv = GetArgv ev, ec_ScriptPath = GetScriptArgv ev,
     ec_ParentName = '''', ec_ParentArgv = '''', ec_Username = '''', ec_CgroupPath = '''',
     ec_CgroupID = e_cgroup_id ev, ec_InodeNumber = e_inode_number ev, ec_PID = e_pid ev,
     ec_PPID = e_ppid ev, ec_UID = e_uid ev\<rparr>"

text \<open>\<open>outcome\<close> is what \<open>client.Analyze\<close> returns for the enriched context of the event.\<close>

definition processEvent :: "bool \<Rightarrow> ai_error + AnalysisResult \<Rightarrow> event \<Rightarrow> WorkerPool \<Rightarrow> daemon
    \<Rightarrow> WorkerPool \<times> daemon" where
  "processEvent sys_ok outcome ev wp0 dm =
     (let wp = wp0\<lparr>wp_processedTotal := wp_processedTotal wp0 + 1\<rparr> in
      case outcome of
        Inl _ \<Rightarrow> (wp, if \<not> pc_FailOpen (wp_config wp) then killProcess (e_pid ev) dm else dm)
      | Inr result \<Rightarrow>
          let action = Evaluate (ar_Verdict result) (pc_RiskThreshold (wp_config wp));
              dm1 = (if action = AI_Block then executeBlock sys_ok ev wp dm
                     else if wp_loader wp \<and> e_hash_available ev \<noteq> 0 then
                       (case AllowExec sys_ok (ExecKey ev) (dm_maps dm) of
                          Inl _ \<Rightarrow> dm
                        | Inr maps \<Rightarrow> dm\<lparr>dm_maps := maps\<rparr>)
                     else dm);
              wp1 = (if wp_onVerdict wp
                     then wp\<lparr>wp_verdicts := wp_verdicts wp @ [(ev, result, action)]\<rparr> else wp)
          in (wp1, dm1))"

text \<open>Taking one event from the queue, in \<open>worker\<close> and in \<open>drain\<close>.\<close>

definition receive :: "bool \<Rightarrow> ai_error + AnalysisResult \<Rightarrow> WorkerPool \<Rightarrow> daemon
    \<Rightarrow> (WorkerPool \<times> daemon) option" where
  "receive sys_ok outcome wp dm =
     (case dm_queue dm of
        [] \<Rightarrow> None
      | ev # rest \<Rightarrow>
          Some (processEvent sys_ok outcome ev (wp\<lparr>wp_queueDepth := wp_queueDepth wp - 1\<rparr>)
                  (dm\<lparr>dm_queue := rest\<rparr>)))"

definition Healthy :: "string \<Rightarrow> bool" where
  "Healthy breakerState \<longleftrightarrow> breakerState \<noteq> ''open''"

record WorkerPoolStats =
  ws_BreakerState :: string
  ws_QueueDepth :: int
  ws_ProcessedTotal :: int

definition Stats :: "string \<Rightarrow> WorkerPool \<Rightarrow> WorkerPoolStats" where
  "Stats breakerState wp = \<lparr>ws_BreakerState = breakerState, ws_QueueDepth = wp_queueDepth wp,
     ws_ProcessedTotal = wp_processedTotal wp\<rparr>"

definition int_decimal :: "int \<Rightarrow> string" where
  "int_decimal i = (if i < 0 then ''-'' @ decimal (nat (- i)) else decimal (nat i))"

definition Stats_String :: "WorkerPoolStats \<Rightarrow> string" where
  "Stats_String s = ''queue='' @ int_decimal (ws_QueueDepth s)
     @ '' processed='' @ int_decimal (ws_ProcessedTotal s) @ '' breaker='' @ ws_BreakerState s"

section \<open>The workers\<close>

datatype worker_state = Running | Draining | Exited

text \<open>\<open>ps_submitted\<close> and \<open>ps_routed\<close> count the sends of \<open>Submit\<close> and of the policy engine.\<close>

record pool_state =
  ps_workers :: "worker_state list"
  ps_ctx_done :: bool
  ps_pool :: WorkerPool
  ps_daemon :: daemon
  ps_submitted :: nat
  ps_routed :: nat

definition pool_start :: "WorkerPool \<Rightarrow> daemon \<Rightarrow> pool_state" where
  "pool_start wp dm = \<lparr>ps_workers = replicate (Start_workers (wp_config wp)) Running,
     ps_ctx_done = False, ps_pool = wp, ps_daemon = dm, ps_submitted = 0, ps_routed = 0\<rparr>"

text \<open>
  A worker that has seen the context end drains the queue and returns when it finds it
  empty. The code never closes the queue.
\<close>

inductive worker_step :: "pool_state \<Rightarrow> pool_state \<Rightarrow> bool" where
  take: "i < length (ps_workers s) \<Longrightarrow> ps_workers s ! i \<noteq> Exited
    \<Longrightarrow> receive sys_ok outcome (ps_pool s) (ps_daemon s) = Some (wp, dm)
    \<Longrightarrow> worker_step s (s\<lparr>ps_pool := wp, ps_daemon := dm\<rparr>)"
| see_done: "i < length (ps_workers s) \<Longrightarrow> ps_workers s ! i = Running \<Longrightarrow> ps_ctx_done s
    \<Longrightarrow> worker_step s (s\<lparr>ps_workers := (ps_workers s)[i := Draining]\<rparr>)"
| drained: "i < length (ps_workers s) \<Longrightarrow> ps_workers s ! i = Draining
    \<Longrightarrow> dm_queue (ps_daemon s) = []
    \<Longrightarrow> worker_step s (s\<lparr>ps_workers := (ps_workers s)[i := Exited]\<rparr>)"

text \<open>
  The workers with their environment. A send of the policy engine (\<open>route\<close>) appends the
  event and leaves the counters alone.
\<close>

inductive pool_step :: "pool_state \<Rightarrow> pool_state \<Rightarrow> bool" where
  work: "worker_step s s' \<Longrightarrow> pool_step s s'"
| submit: "Submit ev (ps_pool s) (ps_daemon s) = (True, wp, dm)
    \<Longrightarrow> pool_step s (s\<lparr>ps_pool := wp, ps_daemon := dm, ps_submitted := ps_submitted s + 1\<rparr>)"
| routed: "length (dm_queue (ps_daemon s)) < dm_queue_cap (ps_daemon s)
    \<Longrightarrow> pool_step s (s\<lparr>ps_daemon := (ps_daemon s)\<lparr>dm_queue := dm_queue (ps_daemon s) @ [ev]\<rparr>,
                       ps_routed := ps_routed s + 1\<rparr>)"
| cancel: "pool_step s (s\<lparr>ps_ctx_done := True\<rparr>)"

inductive_cases worker_stepE: "worker_step s s'"
inductive_cases pool_stepE: "pool_step s s'"

inductive pool_reachable :: "pool_state \<Rightarrow> pool_state \<Rightarrow> bool" for s0 where
  start: "pool_reachable s0 s0"
| step: "pool_reachable s0 s \<Longrightarrow> pool_step s s' \<Longrightarrow> pool_reachable s0 s'"

section \<open>Lemmas\<close>

lemma processEvent_counts [simp]:
  "wp_queueDepth (fst (processEvent ok r ev wp dm)) = wp_queueDepth wp"
  "wp_processedTotal (fst (processEvent ok r ev wp dm)) = wp_processedTotal wp + 1"
  "wp_config (fst (processEvent ok r ev wp dm)) = wp_config wp"
  by (simp_all add: processEvent_def Let_def split: sum.split)

lemma killProcess_frame [simp]:
  "dm_maps (killProcess pid dm) = dm_maps dm" "dm_queue (killProcess pid dm) = dm_queue dm"
  "dm_queue_cap (killProcess pid dm) = dm_queue_cap dm"
  "dm_kills (killProcess pid dm) = dm_kills dm @ [pid]"
  by (simp_all add: killProcess_def)

lemma processEvent_queue [simp]:
  "dm_queue (snd (processEvent ok r ev wp dm)) = dm_queue dm"
  "dm_queue_cap (snd (processEvent ok r ev wp dm)) = dm_queue_cap dm"
  by (auto simp: processEvent_def executeBlock_def Let_def split: sum.split)

lemma processEvent_verdict:
  assumes "outcome = Inr result"
  shows "bpf_map_lookup_elem (verdict_map (dm_maps (snd (processEvent ok outcome ev wp dm)))) k =
    (let block = Evaluate (ar_Verdict result) (pc_RiskThreshold (wp_config wp)) = AI_Block in
     if wp_loader wp \<and> e_hash_available ev \<noteq> 0 \<and> k = ExecKey ev \<and> ok
        \<and> (bpf_map_lookup_elem (verdict_map (dm_maps dm)) (ExecKey ev) \<noteq> None
           \<or> length (verdict_map (dm_maps dm)) < VERDICT_MAP_MAX)
        \<and> \<not> (block \<and> pc_Mode (wp_config wp) = ''monitor'')
     then Some (if block then VERDICT_BLOCK else VERDICT_ALLOW)
     else bpf_map_lookup_elem (verdict_map (dm_maps dm)) k)"
proof -
  have b: "(\<exists>m. BlockExec ok (ExecKey ev) (dm_maps dm) = Inr m) \<longleftrightarrow>
      ok \<and> (bpf_map_lookup_elem (verdict_map (dm_maps dm)) (ExecKey ev) \<noteq> None
            \<or> length (verdict_map (dm_maps dm)) < VERDICT_MAP_MAX)"
    by (rule BlockExec_ok_iff)
  have a: "(\<exists>m. AllowExec ok (ExecKey ev) (dm_maps dm) = Inr m) \<longleftrightarrow>
      ok \<and> (bpf_map_lookup_elem (verdict_map (dm_maps dm)) (ExecKey ev) \<noteq> None
            \<or> length (verdict_map (dm_maps dm)) < VERDICT_MAP_MAX)"
    by (rule AllowExec_ok_iff)
  show ?thesis
    using assms a b
    by (cases "BlockExec ok (ExecKey ev) (dm_maps dm)"; cases "AllowExec ok (ExecKey ev) (dm_maps dm)")
      (auto simp: processEvent_def executeBlock_def Let_def BlockExec_verdict AllowExec_verdict)
qed

lemma processEvent_verdicts_only:
  "verdicts_only (dm_maps dm) (dm_maps (snd (processEvent ok r ev wp dm)))"
  by (auto simp: processEvent_def executeBlock_def verdicts_only_def BlockExec_frame
      AllowExec_frame Let_def split: sum.split)

lemma receive_Some:
  assumes "receive ok r wp dm = Some (wp', dm')"
  shows "dm_queue dm = hd (dm_queue dm) # dm_queue dm'" "dm_queue_cap dm' = dm_queue_cap dm"
    "wp_queueDepth wp' = wp_queueDepth wp - 1"
    "wp_processedTotal wp' = wp_processedTotal wp + 1"
proof -
  obtain ev rest where q: "dm_queue dm = ev # rest"
    and p: "processEvent ok r ev (wp\<lparr>wp_queueDepth := wp_queueDepth wp - 1\<rparr>)
      (dm\<lparr>dm_queue := rest\<rparr>) = (wp', dm')"
    using assms by (auto simp: receive_def split: list.splits)
  note counts = processEvent_counts [of ok r ev "wp\<lparr>wp_queueDepth := wp_queueDepth wp - 1\<rparr>"
      "dm\<lparr>dm_queue := rest\<rparr>", unfolded p]
  note queue = processEvent_queue [of ok r ev "wp\<lparr>wp_queueDepth := wp_queueDepth wp - 1\<rparr>"
      "dm\<lparr>dm_queue := rest\<rparr>", unfolded p]
  show "dm_queue dm = hd (dm_queue dm) # dm_queue dm'" "dm_queue_cap dm' = dm_queue_cap dm"
    "wp_queueDepth wp' = wp_queueDepth wp - 1"
    "wp_processedTotal wp' = wp_processedTotal wp + 1"
    using q counts queue by simp_all
qed

text \<open>The books of the queue.\<close>

definition pool_inv :: "pool_state \<Rightarrow> bool" where
  "pool_inv s \<longleftrightarrow>
     wp_queueDepth (ps_pool s) = int (length (dm_queue (ps_daemon s))) - int (ps_routed s)
     \<and> wp_processedTotal (ps_pool s) + int (length (dm_queue (ps_daemon s)))
         = int (ps_submitted s) + int (ps_routed s)
     \<and> length (dm_queue (ps_daemon s)) \<le> dm_queue_cap (ps_daemon s)"

text \<open>The step \<open>routed\<close> is what \<open>route\<close> does.\<close>

lemma route_queued:
  assumes "route env en ev (ps_daemon s) = (ActionAIQueue, dm)"
  shows "pool_step s (s\<lparr>ps_daemon := dm, ps_routed := ps_routed s + 1\<rparr>)"
proof -
  have "dm = (ps_daemon s)\<lparr>dm_queue := dm_queue (ps_daemon s) @ [ev]\<rparr>"
    "length (dm_queue (ps_daemon s)) < dm_queue_cap (ps_daemon s)"
    using assms by (auto simp: route_def Let_def split: if_splits)
  then show ?thesis using pool_step.routed [of s ev] by simp
qed

lemma worker_step_inv: "worker_step s s' \<Longrightarrow> pool_inv s \<Longrightarrow> pool_inv s'"
proof (induction rule: worker_step.induct)
  case (take i s ok r wp dm)
  note r = receive_Some [OF take.hyps(3)]
  have "length (dm_queue (ps_daemon s)) = Suc (length (dm_queue dm))"
    using arg_cong [OF r(1), of length] by simp
  with r(2-) take.prems show ?case by (auto simp: pool_inv_def)
qed (auto simp: pool_inv_def)

lemma pool_step_inv: "pool_step s s' \<Longrightarrow> pool_inv s \<Longrightarrow> pool_inv s'"
  by (induction rule: pool_step.induct)
    (auto simp: pool_inv_def Submit_def
      split: if_splits dest: worker_step_inv)

lemma pool_reachable_inv: "pool_reachable s0 s \<Longrightarrow> pool_inv s0 \<Longrightarrow> pool_inv s"
  by (induction rule: pool_reachable.induct) (auto intro: pool_step_inv)

section \<open>The life of a worker\<close>

text \<open>A worker runs, then drains, then is gone; it never goes back.\<close>

instantiation worker_state :: linorder
begin

fun stage :: "worker_state \<Rightarrow> nat" where
  "stage Running = 0" | "stage Draining = 1" | "stage Exited = 2"

definition less_eq_worker_state :: "worker_state \<Rightarrow> worker_state \<Rightarrow> bool" where
  "w \<le> w' \<longleftrightarrow> stage w \<le> stage w'"

definition less_worker_state :: "worker_state \<Rightarrow> worker_state \<Rightarrow> bool" where
  "w < w' \<longleftrightarrow> stage w < stage w'"

instance
proof
  fix x y :: worker_state
  show "x \<le> y \<Longrightarrow> y \<le> x \<Longrightarrow> x = y"
    by (cases x; cases y) (simp_all add: less_eq_worker_state_def)
qed (auto simp: less_eq_worker_state_def less_worker_state_def)

end

lemma workers_update_le:
  fixes ws :: "worker_state list"
  assumes "i < length ws" "ws ! i \<le> w"
  shows "list_all2 (\<le>) ws (ws[i := w])"
  using assms by (auto simp: list_all2_conv_all_nth nth_list_update)

lemma worker_step_workers: "worker_step s s' \<Longrightarrow> list_all2 (\<le>) (ps_workers s) (ps_workers s')"
proof (induction rule: worker_step.induct)
  case (see_done i s)
  have "ps_workers s ! i \<le> Draining" by (simp add: see_done less_eq_worker_state_def)
  then show ?case using workers_update_le [OF see_done(1)] by simp
next
  case (drained i s)
  have "ps_workers s ! i \<le> Exited" by (simp add: drained less_eq_worker_state_def)
  then show ?case using workers_update_le [OF drained(1)] by simp
qed (simp add: list_all2_refl)

lemma pool_step_workers: "pool_step s s' \<Longrightarrow> list_all2 (\<le>) (ps_workers s) (ps_workers s')"
  by (induction rule: pool_step.induct) (simp_all add: list_all2_refl worker_step_workers)

lemma pool_reachable_workers:
  "pool_reachable s0 s \<Longrightarrow> list_all2 (\<le>) (ps_workers s0) (ps_workers s)"
proof (induction rule: pool_reachable.induct)
  case start
  show ?case by (simp add: list_all2_refl)
next
  case (step s s')
  then show ?case
    using list_all2_trans [of "(\<le>)" "(\<le>)" "(\<le>)"] pool_step_workers by (metis order_trans)
qed

text \<open>No worker leaves its loop before the context is over.\<close>

lemma worker_step_leaves:
  "worker_step s s' \<Longrightarrow> ps_ctx_done s \<or> set (ps_workers s) \<subseteq> {Running} \<Longrightarrow>
     ps_ctx_done s' \<or> set (ps_workers s') \<subseteq> {Running}"
  by (induction rule: worker_step.induct) (auto dest: nth_mem)

lemma pool_step_leaves:
  "pool_step s s' \<Longrightarrow> ps_ctx_done s \<or> set (ps_workers s) \<subseteq> {Running} \<Longrightarrow>
     ps_ctx_done s' \<or> set (ps_workers s') \<subseteq> {Running}"
  by (induction rule: pool_step.induct) (use worker_step_leaves in auto)

lemma pool_reachable_leaves:
  "pool_reachable (pool_start wp dm) s \<Longrightarrow> ps_ctx_done s \<or> set (ps_workers s) \<subseteq> {Running}"
  by (induction rule: pool_reachable.induct)
    (auto simp: pool_start_def intro: pool_step_leaves dest: pool_step_leaves)

section \<open>Shutdown\<close>

text \<open>What the workers can still do once nothing is sent: the waiting events and the exits.\<close>

definition pool_work :: "pool_state \<Rightarrow> nat" where
  "pool_work s = length (dm_queue (ps_daemon s)) + (\<Sum>w\<leftarrow>ps_workers s. 2 - stage w)"

definition all_exited :: "pool_state \<Rightarrow> bool" where
  "all_exited s \<longleftrightarrow> list_all (\<lambda>w. w = Exited) (ps_workers s)"

lemma sum_list_update_less:
  fixes f :: "'a \<Rightarrow> nat"
  assumes "i < length xs" "f x < f (xs ! i)"
  shows "sum_list (map f (xs[i := x])) < sum_list (map f xs)"
  using assms
proof (induction xs arbitrary: i)
  case (Cons y xs)
  then show ?case by (cases i) auto
qed simp

lemma worker_step_work: "worker_step s s' \<Longrightarrow> pool_work s' < pool_work s"
proof (induction rule: worker_step.induct)
  case (take i s ok r wp dm)
  have "length (dm_queue (ps_daemon s)) = Suc (length (dm_queue dm))"
    using arg_cong [OF receive_Some(1) [OF take(3)], of length] by simp
  then show ?case by (simp add: pool_work_def)
next
  case (see_done i s)
  then show ?case using sum_list_update_less [of i "ps_workers s" "\<lambda>w. 2 - stage w" Draining]
    by (simp add: pool_work_def)
next
  case (drained i s)
  then show ?case using sum_list_update_less [of i "ps_workers s" "\<lambda>w. 2 - stage w" Exited]
    by (simp add: pool_work_def)
qed

lemma worker_steps_bounded: "(worker_step ^^ n) s s' \<Longrightarrow> n + pool_work s' \<le> pool_work s"
proof (induction n arbitrary: s')
  case (Suc n)
  then obtain t where "(worker_step ^^ n) s t" "worker_step t s'" by auto
  then show ?case using Suc.IH [of t] worker_step_work [of t s'] by simp
qed simp

lemma worker_step_frame:
  "worker_step s s' \<Longrightarrow> ps_ctx_done s' = ps_ctx_done s
     \<and> length (ps_workers s') = length (ps_workers s)
     \<and> wp_processedTotal (ps_pool s') + int (length (dm_queue (ps_daemon s')))
         = wp_processedTotal (ps_pool s) + int (length (dm_queue (ps_daemon s)))"
proof (induction rule: worker_step.induct)
  case (take i s ok r wp dm)
  have "length (dm_queue (ps_daemon s)) = Suc (length (dm_queue dm))"
    using arg_cong [OF receive_Some(1) [OF take(3)], of length] by simp
  then show ?case using receive_Some(4) [OF take(3)] by simp
qed simp_all

text \<open>After the end of the context a worker that is not gone has a step.\<close>

lemma worker_can_step:
  assumes "ps_ctx_done s" "\<not> all_exited s"
  shows "\<exists>s'. worker_step s s'"
proof -
  obtain i where i: "i < length (ps_workers s)" "ps_workers s ! i \<noteq> Exited"
    using assms(2) by (auto simp: all_exited_def list_all_length)
  show ?thesis
  proof (cases "ps_workers s ! i")
    case Running
    then show ?thesis using worker_step.see_done [OF i(1) _ assms(1)] by blast
  next
    case Draining
    then show ?thesis
    proof (cases "dm_queue (ps_daemon s)")
      case Nil
      then show ?thesis using worker_step.drained [OF i(1) Draining] by blast
    next
      case (Cons ev evs)
      then obtain wp dm where "receive True (Inl HTTP_Request) (ps_pool s) (ps_daemon s) = Some (wp, dm)"
        by (auto simp: receive_def intro: prod.exhaust)
      then show ?thesis using worker_step.take [OF i] by blast
    qed
  qed (use i in simp)
qed

lemma worker_step_not_exited: "worker_step s s' \<Longrightarrow> \<not> all_exited s"
  by (induction rule: worker_step.induct) (auto simp: all_exited_def list_all_length)

text \<open>The last worker to go finds the queue empty.\<close>

lemma worker_step_empty:
  "worker_step s s' \<Longrightarrow> all_exited s' \<Longrightarrow> dm_queue (ps_daemon s') = []"
proof (induction rule: worker_step.induct)
  case (take i s ok r wp dm)
  then show ?case by (auto simp: all_exited_def list_all_length)
next
  case (see_done i s)
  then have "((ps_workers s)[i := Draining]) ! i = Exited" by (auto simp: all_exited_def list_all_length)
  then show ?case using see_done(1) by simp
qed simp

lemma workers_finish:
  assumes "ps_ctx_done s"
  shows "\<exists>s'. worker_step\<^sup>*\<^sup>* s s' \<and> all_exited s'"
  using assms
proof (induction "pool_work s" arbitrary: s rule: less_induct)
  case less
  show ?case
  proof (cases "all_exited s")
    case False
    then obtain t where t: "worker_step s t" using worker_can_step [OF less.prems] by blast
    then show ?thesis
      using less.hyps [OF worker_step_work [OF t]] worker_step_frame [OF t] less.prems
      by (auto intro: converse_rtranclp_into_rtranclp)
  qed auto
qed

lemma workers_frame:
  "worker_step\<^sup>*\<^sup>* s s' \<Longrightarrow> ps_ctx_done s' = ps_ctx_done s
     \<and> wp_processedTotal (ps_pool s') + int (length (dm_queue (ps_daemon s')))
         = wp_processedTotal (ps_pool s) + int (length (dm_queue (ps_daemon s)))"
  by (induction rule: rtranclp_induct) (auto dest: worker_step_frame)

lemma workers_empty:
  "worker_step\<^sup>*\<^sup>* s s' \<Longrightarrow> all_exited s' \<Longrightarrow> all_exited s \<or> dm_queue (ps_daemon s') = []"
  by (induction rule: rtranclp_induct) (auto dest: worker_step_empty)

text \<open>Without workers nothing is ever taken.\<close>

lemma exited_pool_step:
  assumes "pool_step s s'" "all_exited s"
  shows "all_exited s' \<and> (\<exists>evs. dm_queue (ps_daemon s') = dm_queue (ps_daemon s) @ evs)
    \<and> wp_processedTotal (ps_pool s') = wp_processedTotal (ps_pool s)"
  using assms
proof (induction rule: pool_step.induct)
  case (work s s')
  then show ?case using worker_step_not_exited by blast
qed (auto simp: Submit_def all_exited_def split: if_splits)

lemma exited_pool_reachable:
  assumes "pool_reachable s0 s" "all_exited s0"
  shows "all_exited s \<and> (\<exists>evs. dm_queue (ps_daemon s) = dm_queue (ps_daemon s0) @ evs)
    \<and> wp_processedTotal (ps_pool s) = wp_processedTotal (ps_pool s0)"
  using assms
proof (induction rule: pool_reachable.induct)
  case (step s s')
  then obtain evs where "all_exited s" "dm_queue (ps_daemon s) = dm_queue (ps_daemon s0) @ evs"
    "wp_processedTotal (ps_pool s) = wp_processedTotal (ps_pool s0)" by auto
  with exited_pool_step [OF step.hyps(2)] show ?case by auto
qed simp

section \<open>The queue as a bounded queue\<close>

text \<open>\<open>Submit\<close> on the pool with the daemon whose queue it sends to.\<close>

definition submit_to :: "event \<Rightarrow> WorkerPool \<times> daemon \<Rightarrow> WorkerPool \<times> daemon" where
  "submit_to ev s = snd (Submit ev (fst s) (snd s))"

interpretation pool_queue: bounded_queue submit_to "\<lambda>s. dm_queue (snd s)" "\<lambda>s. dm_queue_cap (snd s)"
  by unfold_locales (simp_all add: submit_to_def Submit_def)

lemma submit_to_depth:
  "wp_queueDepth (fst (submit_to ev s)) - int (length (dm_queue (snd (submit_to ev s))))
     = wp_queueDepth (fst s) - int (length (dm_queue (snd s)))"
  by (simp add: submit_to_def Submit_def)

lemma submit_burst_depth:
  "wp_queueDepth (fst (fold submit_to evs s)) - int (length (dm_queue (snd (fold submit_to evs s))))
     = wp_queueDepth (fst s) - int (length (dm_queue (snd s)))"
  by (induction evs arbitrary: s) (simp_all add: submit_to_depth)

end
