(* ===== verification/Config.thy ===== *)
theory Config
  imports AI_Verdict
begin

text \<open>
  \<open>internal/config/config.go\<close>: the configuration, its defaults and its validation. Durations
  are nanoseconds, floating-point fields \<open>float64\<close>; the constant \<open>0.8\<close> is the
  \<open>float64\<close> next to it. Decoding YAML over the defaults is the
  library's and is an argument of \<open>Load\<close>. The structs with one field only (\<open>MapPaths\<close>,
  \<open>Health\<close>, \<open>Rules\<close>, \<open>Audit\<close>) are represented by that field in \<open>Spec\<close>.
\<close>

section \<open>Types\<close>

record CircuitBreaker =
  cb_MaxFailures :: int
  cb_CooldownTime :: int
  cb_HalfOpenMaxReqs :: int

record AI =
  ai_ProviderURL :: string
  ai_Model :: string
  ai_APIKeyEnv :: string
  ai_APIKeyFile :: string
  ai_SystemPrompt :: string
  ai_CircuitBreaker :: CircuitBreaker
  ai_Timeout :: int
  ai_RiskThreshold :: float64
  ai_MaxRetries :: int
  ai_Workers :: int
  ai_QueueSize :: int
  ai_FailOpen :: bool

record Logging =
  lg_Level :: string
  lg_Format :: string
  lg_Output :: string

record RateLimiter =
  rt_Rate :: float64
  rt_Burst :: int

record AuditOutput =
  au_Format :: string
  au_Path :: string

record Spec =
  sp_SelfProtection :: "bool option"
  sp_Logging :: Logging
  sp_Mode :: string
  sp_VerdictMap :: string
  sp_ListenAddress :: string
  sp_RulesPath :: string
  sp_Interpreters :: "string list"
  sp_Audit_Outputs :: "AuditOutput list"
  sp_AI :: AI
  sp_RateLimiter :: RateLimiter

record Config =
  cf_APIVersion :: string
  cf_Kind :: string
  cf_Spec :: Spec

definition SelfProtectionEnabled :: "Spec \<Rightarrow> bool" where
  "SelfProtectionEnabled s = (case sp_SelfProtection s of None \<Rightarrow> True | Some b \<Rightarrow> b)"

section \<open>Defaults\<close>

definition DefaultConfig :: Config where
  "DefaultConfig = \<lparr>
     cf_APIVersion = ''zask.io/v1alpha1'', cf_Kind = ''ZaskConfig'',
     cf_Spec = \<lparr>
       sp_SelfProtection = None,
       sp_Logging = \<lparr>lg_Level = ''info'', lg_Format = ''json'', lg_Output = ''stdout''\<rparr>,
       sp_Mode = ''lockdown'', sp_VerdictMap = ''/sys/fs/bpf/zask_verdicts'',
       sp_ListenAddress = '':7453'', sp_RulesPath = ''/etc/zask/rules.yaml'',
       sp_Interpreters =
         [''python3'', ''python'', ''python2'', ''bash'', ''sh'', ''zsh'', ''dash'', ''fish'',
          ''node'', ''nodejs'', ''ruby'', ''perl'', ''php'', ''lua''],
       sp_Audit_Outputs = [\<lparr>au_Format = ''json'', au_Path = ''/var/log/zask/audit.json''\<rparr>],
       sp_AI = \<lparr>ai_ProviderURL = '''', ai_Model = '''', ai_APIKeyEnv = '''', ai_APIKeyFile = '''',
         ai_SystemPrompt = '''',
         ai_CircuitBreaker = \<lparr>cb_MaxFailures = 5, cb_CooldownTime = 30000000000,
           cb_HalfOpenMaxReqs = 1\<rparr>,
         ai_Timeout = 5000000000, ai_RiskThreshold = Fin (3602879701896397 / 4503599627370496), ai_MaxRetries = 3,
         ai_Workers = 4, ai_QueueSize = 256, ai_FailOpen = True\<rparr>,
       sp_RateLimiter = \<lparr>rt_Rate = Fin 10, rt_Burst = 20\<rparr>\<rparr>\<rparr>"

section \<open>Validation\<close>

datatype config_error =
    Unsupported_APIVersion | Unsupported_Kind | VerdictMap_Required | Invalid_Log_Level
  | Invalid_Log_Format | ListenAddress_Required | Rate_Not_Positive | Burst_Not_Positive
  | RiskThreshold_Range | Timeout_Negative | Invalid_Mode | Invalid_Audit_Format nat
  | Audit_Path_Required nat

fun fle :: "float64 \<Rightarrow> float64 \<Rightarrow> bool" where
  "fle (Fin x) (Fin y) = (x \<le> y)"
| "fle NaN _ = False"
| "fle _ NaN = False"
| "fle NegInf _ = True"
| "fle _ PosInf = True"
| "fle PosInf _ = False"
| "fle _ NegInf = False"

fun validate_outputs :: "nat \<Rightarrow> AuditOutput list \<Rightarrow> config_error option" where
  "validate_outputs i [] = None"
| "validate_outputs i (out # outs) =
     (if au_Format out \<notin> {''json'', ''parquet'', ''text''} then Some (Invalid_Audit_Format i)
      else if au_Path out = '''' then Some (Audit_Path_Required i)
      else validate_outputs (i + 1) outs)"

definition Validate :: "Config \<Rightarrow> config_error option" where
  "Validate c =
     (let s = cf_Spec c in
      if cf_APIVersion c \<noteq> ''zask.io/v1alpha1'' then Some Unsupported_APIVersion
      else if cf_Kind c \<noteq> ''ZaskConfig'' then Some Unsupported_Kind
      else if sp_VerdictMap s = '''' then Some VerdictMap_Required
      else if lg_Level (sp_Logging s) \<notin> {''trace'', ''debug'', ''info'', ''warn'', ''error'',
          ''fatal'', ''panic'', ''disabled''} then Some Invalid_Log_Level
      else if lg_Format (sp_Logging s) \<notin> {''json'', ''console''} then Some Invalid_Log_Format
      else if sp_ListenAddress s = '''' then Some ListenAddress_Required
      else if fle (rt_Rate (sp_RateLimiter s)) (Fin 0) then Some Rate_Not_Positive
      else if rt_Burst (sp_RateLimiter s) \<le> 0 then Some Burst_Not_Positive
      else if flt (ai_RiskThreshold (sp_AI s)) (Fin 0) \<or> flt (Fin 1) (ai_RiskThreshold (sp_AI s))
        then Some RiskThreshold_Range
      else if ai_Timeout (sp_AI s) < 0 then Some Timeout_Negative
      else if sp_Mode s \<notin> {''lockdown'', ''monitor''} then Some Invalid_Mode
      else validate_outputs 0 (sp_Audit_Outputs s))"

datatype load_error = Read_Config | Parse_Config | Validate_Config config_error

text \<open>\<open>unmarshal\<close> is the decoding of the document over a configuration.\<close>

definition Load :: "('d \<Rightarrow> Config \<Rightarrow> Config option) \<Rightarrow> 'd option \<Rightarrow> load_error + Config" where
  "Load unmarshal content =
     (case content of
        None \<Rightarrow> Inl Read_Config
      | Some data \<Rightarrow>
          (case unmarshal data DefaultConfig of
             None \<Rightarrow> Inl Parse_Config
           | Some cfg \<Rightarrow>
               (case Validate cfg of
                  Some err \<Rightarrow> Inl (Validate_Config err)
                | None \<Rightarrow> Inr cfg)))"

section \<open>Lemmas\<close>

lemma validate_outputs_None:
  "validate_outputs i outs = None \<longleftrightarrow>
     list_all (\<lambda>out. au_Format out \<in> {''json'', ''parquet'', ''text''} \<and> au_Path out \<noteq> '''') outs"
  by (induction outs arbitrary: i) auto

lemma DefaultConfig_valid: "Validate DefaultConfig = None"
  by (simp add: Validate_def DefaultConfig_def)

lemma fle_Fin: "fle x (Fin y) \<longleftrightarrow> x = NegInf \<or> (\<exists>z. x = Fin z \<and> z \<le> y)"
  by (cases x) auto

text \<open>What a valid configuration guarantees of its numbers; NaN passes every comparison.\<close>

lemma Validate_numbers:
  assumes "Validate c = None"
  shows "ai_RiskThreshold (sp_AI (cf_Spec c)) = NaN
      \<or> (\<exists>x. ai_RiskThreshold (sp_AI (cf_Spec c)) = Fin x \<and> 0 \<le> x \<and> x \<le> 1)"
    "0 < rt_Burst (sp_RateLimiter (cf_Spec c))"
    "sp_Mode (cf_Spec c) \<in> {''lockdown'', ''monitor''}"
proof -
  have t: "\<not> flt (ai_RiskThreshold (sp_AI (cf_Spec c))) (Fin 0)"
    "\<not> flt (Fin 1) (ai_RiskThreshold (sp_AI (cf_Spec c)))"
    using assms by (simp_all add: Validate_def Let_def split: if_splits)
  then show "ai_RiskThreshold (sp_AI (cf_Spec c)) = NaN
      \<or> (\<exists>x. ai_RiskThreshold (sp_AI (cf_Spec c)) = Fin x \<and> 0 \<le> x \<and> x \<le> 1)"
    by (cases "ai_RiskThreshold (sp_AI (cf_Spec c))") auto
  show "0 < rt_Burst (sp_RateLimiter (cf_Spec c))"
    using assms by (simp add: Validate_def Let_def split: if_splits)
  show "sp_Mode (cf_Spec c) \<in> {''lockdown'', ''monitor''}"
    using assms by (auto simp: Validate_def Let_def split: if_splits)
qed

end
