(* ===== verification/Bprm_Check.thy ===== *)
theory Bprm_Check
  imports Bpf_Helpers
begin

text \<open>
  \<open>zask_bprm_check\<close> of \<open>bpf/zask.c\<close>, the gatekeeper on \<open>bprm_check_security\<close>, in the
  steps the function has: identity of the file, process context, hash of the file, the
  compound key (with the update of \<open>pid_hash_map\<close>), the verdict lookup with its early
  return, the telemetry event, the enforcement. The lemmas give each step's effect on every
  branch and what it leaves unchanged.
\<close>

section \<open>Steps 1 and 2: the file and the process\<close>

definition inode_meta :: "hook_env \<Rightarrow> linux_binprm \<Rightarrow> u64 \<times> u32" where
  "inode_meta env bprm =
     (let km = he_mem env;
          f = bprm_file bprm;
          inode = core_read km (km_file km) f f_inode;
          inode_number = core_read km (km_inode km) inode i_ino;
          sb = core_read km (km_inode km) inode i_sb;
          device_id = core_read km (km_sb km) sb s_dev
      in (inode_number, device_id))"

definition cur_pid :: "hook_env \<Rightarrow> u32" where
  "cur_pid env = ucast (drop_bit 32 (he_pid_tgid env))"

definition par_pid :: "hook_env \<Rightarrow> u32" where
  "par_pid env =
     (let km = he_mem env;
          par = core_read km (km_task km) (he_task env) t_real_parent
      in core_read km (km_task km) par t_tgid)"

section \<open>Step 3: the hash of the file\<close>

text \<open>
  \<open>struct exec_key key = {}\<close>, then \<open>bpf_ima_file_hash(f, key.child_hash, HASH_SIZE)\<close>: the
  helper writes at most \<open>HASH_SIZE\<close> bytes over the zeros.
\<close>

definition ima_step :: "hook_env \<Rightarrow> linux_binprm \<Rightarrow> bool \<times> exec_key" where
  "ima_step env bprm =
     (let (ima_ret, digest) = he_ima env (bprm_file bprm)
      in (0 \<le> ima_ret, \<lparr>ek_parent = zero_hash, ek_child = store_bytes zero_hash digest\<rparr>))"

section \<open>Step 4: the compound key\<close>

definition exec_chain_step ::
  "hook_env \<Rightarrow> bool \<Rightarrow> exec_key \<Rightarrow> kmaps \<Rightarrow> bool \<times> exec_key \<times> kmaps" where
  "exec_chain_step env hash_available key st =
     (if hash_available then
        let phash = bpf_map_lookup_elem (pid_hash_map st) (par_pid env);
            key' = (case phash of
                      Some h \<Rightarrow> key\<lparr>ek_parent := take HASH_SIZE h\<rparr>
                    | None \<Rightarrow> key);
            st' = st\<lparr>pid_hash_map := bpf_lru_update PID_HASH_MAP_MAX (he_lru_victims env)
                       (he_lru_ok env) (pid_hash_map st) (cur_pid env) (ek_child key)\<rparr>
        in (phash \<noteq> None, key', st')
      else (False, key, st))"

section \<open>Step 5: the verdict\<close>

datatype verdict_result =
    Fast_Allow
  | Verdict u32 bool  \<comment> \<open>\<open>verdict\<close> and \<open>is_map_hit\<close>, for the rest of the function\<close>

definition verdict_step :: "bool \<Rightarrow> exec_key \<Rightarrow> kmaps \<Rightarrow> verdict_result" where
  "verdict_step hash_available key st =
     (if hash_available then
        (case bpf_map_lookup_elem (verdict_map st) key of
           None \<Rightarrow> Verdict VERDICT_ALLOW False
         | Some v \<Rightarrow> if v = VERDICT_ALLOW then Fast_Allow else Verdict v True)
      else Verdict VERDICT_ALLOW False)"

section \<open>Step 6: the event\<close>

text \<open>
  The loop that walks past \<open>argv[0]\<close>: \<open>n\<close> iterations are left, \<open>Some pos\<close> is the position
  behind the NUL byte, \<open>None\<close> every other way out of the loop.
\<close>

fun skip_argv0 :: "(ptr \<Rightarrow> u8 option) \<Rightarrow> u64 \<Rightarrow> nat \<Rightarrow> u64 \<Rightarrow> u64 option" where
  "skip_argv0 um limit 0 pos = None"
| "skip_argv0 um limit (Suc n) pos =
     (if limit \<le> pos then None
      else (case um pos of
              None \<Rightarrow> None
            | Some ch \<Rightarrow> if ch = 0 then Some (pos + 1) else skip_argv0 um limit n (pos + 1)))"

definition SCAN_MAX :: nat where "SCAN_MAX = 128"

definition arg_region :: "hook_env \<Rightarrow> u64 \<times> u64" where
  "arg_region env =
     (let km = he_mem env;
          mm = core_read km (km_task km) (he_task env) t_mm
      in if mm \<noteq> 0
         then (core_read km (km_mm km) mm arg_start, core_read km (km_mm km) mm arg_end)
         else (0, 0))"

definition read_script_argv :: "hook_env \<Rightarrow> u8 list \<Rightarrow> u8 list" where
  "read_script_argv env script_argv =
     (let km = he_mem env; (a_start, a_end) = arg_region env
      in if a_start \<noteq> 0 \<and> a_end > a_start then
           let limit = a_start + word_of_nat SCAN_MAX;
               limit = (if limit > a_end then a_end else limit)
           in (case skip_argv0 (um_byte km) limit SCAN_MAX a_start of
                 None \<Rightarrow> script_argv
               | Some pos \<Rightarrow>
                   if pos < a_end then read_str_into km (um_byte km) script_argv pos
                   else script_argv)
         else script_argv)"

definition fill_event ::
  "hook_env \<Rightarrow> linux_binprm \<Rightarrow> bool \<Rightarrow> bool \<Rightarrow> bool \<Rightarrow> exec_key \<Rightarrow> event \<Rightarrow> event" where
  "fill_event env bprm is_map_hit hash_available parent_hash_available key e =
     (let (inode_number, device_id) = inode_meta env bprm; km = he_mem env
      in e\<lparr>e_pid := cur_pid env,
           e_uid := ucast (he_uid_gid env),
           e_ppid := par_pid env,
           e_inode_number := inode_number,
           e_device_id := device_id,
           e_cgroup_id := he_cgroup_id env,
           e_is_map_hit := of_bool is_map_hit,
           e_hash_available := of_bool hash_available,
           e_hash := take HASH_SIZE (ek_child key),
           e_parent_hash_available := of_bool parent_hash_available,
           e_parent_hash := take HASH_SIZE (ek_parent key),
           e_argv := read_str_into km (km_byte km) (e_argv e) (bprm_filename bprm),
           e_script_argv := read_script_argv env (e_script_argv e)\<rparr>)"

definition emit_step ::
  "hook_env \<Rightarrow> linux_binprm \<Rightarrow> bool \<Rightarrow> bool \<Rightarrow> bool \<Rightarrow> exec_key \<Rightarrow> kmaps \<Rightarrow> kmaps" where
  "emit_step env bprm is_map_hit hash_available parent_hash_available key st =
     (case he_reserve env of
        Some e \<Rightarrow> st\<lparr>events := events st @
          [fill_event env bprm is_map_hit hash_available parent_hash_available key e]\<rparr>
      | None \<Rightarrow> st\<lparr>drop_counter := percpu_inc (he_cpu env) (drop_counter st)\<rparr>)"

section \<open>The hook\<close>

definition zask_bprm_check :: "hook_env \<Rightarrow> linux_binprm \<Rightarrow> kmaps \<Rightarrow> int \<times> kmaps" where
  "zask_bprm_check env bprm st =
     (let (hash_available, key0) = ima_step env bprm;
          (parent_hash_available, key, st1) = exec_chain_step env hash_available key0 st
      in (case verdict_step hash_available key st1 of
            Fast_Allow \<Rightarrow>
              (0, st1\<lparr>baseline_allow_counter :=
                        percpu_inc (he_cpu env) (baseline_allow_counter st1)\<rparr>)
          | Verdict verdict is_map_hit \<Rightarrow>
              (let st2 = emit_step env bprm is_map_hit hash_available parent_hash_available key st1
               in if verdict = VERDICT_BLOCK then (- EPERM, st2) else (0, st2))))"

section \<open>The key of an execution\<close>

text \<open>The compound key the hook computes, as a function of the state before the call.\<close>

definition hash_available :: "hook_env \<Rightarrow> linux_binprm \<Rightarrow> bool" where
  "hash_available env bprm \<longleftrightarrow> 0 \<le> fst (he_ima env (bprm_file bprm))"

definition child_hash_of :: "hook_env \<Rightarrow> linux_binprm \<Rightarrow> hash" where
  "child_hash_of env bprm = store_bytes zero_hash (snd (he_ima env (bprm_file bprm)))"

definition parent_hash_of :: "hook_env \<Rightarrow> kmaps \<Rightarrow> hash" where
  "parent_hash_of env st =
     (case bpf_map_lookup_elem (pid_hash_map st) (par_pid env) of
        Some h \<Rightarrow> take HASH_SIZE h
      | None \<Rightarrow> zero_hash)"

definition chain_key :: "hook_env \<Rightarrow> linux_binprm \<Rightarrow> kmaps \<Rightarrow> exec_key" where
  "chain_key env bprm st =
     \<lparr>ek_parent = parent_hash_of env st, ek_child = child_hash_of env bprm\<rparr>"

definition pid_update :: "hook_env \<Rightarrow> linux_binprm \<Rightarrow> kmaps \<Rightarrow> kmaps" where
  "pid_update env bprm st =
     st\<lparr>pid_hash_map := bpf_lru_update PID_HASH_MAP_MAX (he_lru_victims env)
          (he_lru_ok env) (pid_hash_map st) (cur_pid env) (child_hash_of env bprm)\<rparr>"

definition parent_known :: "hook_env \<Rightarrow> kmaps \<Rightarrow> bool" where
  "parent_known env st \<longleftrightarrow> bpf_map_lookup_elem (pid_hash_map st) (par_pid env) \<noteq> None"

lemma child_hash_of_wf [simp, kwf]: "hash_wf (child_hash_of env bprm)"
  by (simp add: hash_wf_def child_hash_of_def zero_hash_def)

lemma ima_step_eq:
  "ima_step env bprm =
     (hash_available env bprm, \<lparr>ek_parent = zero_hash, ek_child = child_hash_of env bprm\<rparr>)"
  by (simp add: ima_step_def hash_available_def child_hash_of_def split: prod.split)

lemma exec_chain_step_eq:
  assumes "ek_parent key = zero_hash" "ek_child key = child_hash_of env bprm"
  shows "exec_chain_step env True key st =
     (parent_known env st, chain_key env bprm st, pid_update env bprm st)"
proof -
  have "(case bpf_map_lookup_elem (pid_hash_map st) (par_pid env) of
           Some h \<Rightarrow> key\<lparr>ek_parent := take HASH_SIZE h\<rparr> | None \<Rightarrow> key) = chain_key env bprm st"
    using assms by (simp add: chain_key_def parent_hash_of_def split: option.split)
  then show ?thesis
    using assms by (simp add: exec_chain_step_def Let_def parent_known_def pid_update_def)
qed

text \<open>The hook, branch by branch.\<close>

lemma bprm_check_no_hash:
  assumes "\<not> hash_available env bprm"
  shows "zask_bprm_check env bprm st =
    (0, emit_step env bprm False False False
          \<lparr>ek_parent = zero_hash, ek_child = child_hash_of env bprm\<rparr> st)"
  using assms
  by (simp add: zask_bprm_check_def ima_step_eq exec_chain_step_def verdict_step_def)

lemma bprm_check_hash:
  assumes "hash_available env bprm"
  shows "zask_bprm_check env bprm st =
    (case bpf_map_lookup_elem (verdict_map st) (chain_key env bprm st) of
       None \<Rightarrow> (0, emit_step env bprm False True (parent_known env st)
                     (chain_key env bprm st) (pid_update env bprm st))
     | Some v \<Rightarrow>
         if v = VERDICT_ALLOW then
           (0, (pid_update env bprm st)\<lparr>baseline_allow_counter :=
              percpu_inc (he_cpu env) (baseline_allow_counter st)\<rparr>)
         else (if v = VERDICT_BLOCK then - EPERM else 0,
               emit_step env bprm True True (parent_known env st)
                 (chain_key env bprm st) (pid_update env bprm st)))"
proof -
  have "zask_bprm_check env bprm st =
    (case verdict_step True (chain_key env bprm st) (pid_update env bprm st) of
       Fast_Allow \<Rightarrow>
         (0, (pid_update env bprm st)\<lparr>baseline_allow_counter :=
            percpu_inc (he_cpu env) (baseline_allow_counter (pid_update env bprm st))\<rparr>)
     | Verdict verdict is_map_hit \<Rightarrow>
         (let st2 = emit_step env bprm is_map_hit True (parent_known env st)
                      (chain_key env bprm st) (pid_update env bprm st)
          in if verdict = VERDICT_BLOCK then (- EPERM, st2) else (0, st2)))"
    using assms
    by (simp add: zask_bprm_check_def ima_step_eq exec_chain_step_eq)
  moreover have "verdict_map (pid_update env bprm st) = verdict_map st"
    "baseline_allow_counter (pid_update env bprm st) = baseline_allow_counter st"
    by (simp_all add: pid_update_def)
  ultimately show ?thesis
    by (auto simp: verdict_step_def Let_def split: option.split)
qed

text \<open>What the hook leaves unchanged.\<close>

lemma emit_step_frame [simp, kframe]:
  "verdict_map (emit_step env bprm m h p k st) = verdict_map st"
  "pid_hash_map (emit_step env bprm m h p k st) = pid_hash_map st"
  "protected_pids (emit_step env bprm m h p k st) = protected_pids st"
  "baseline_allow_counter (emit_step env bprm m h p k st) = baseline_allow_counter st"
  by (simp_all add: emit_step_def split: option.split)

lemma pid_update_frame [simp, kframe]:
  "verdict_map (pid_update env bprm st) = verdict_map st"
  "events (pid_update env bprm st) = events st"
  "protected_pids (pid_update env bprm st) = protected_pids st"
  "drop_counter (pid_update env bprm st) = drop_counter st"
  "baseline_allow_counter (pid_update env bprm st) = baseline_allow_counter st"
  by (simp_all add: pid_update_def)

lemma bprm_check_frame [simp, kframe]:
  "verdict_map (snd (zask_bprm_check env bprm st)) = verdict_map st"
  "protected_pids (snd (zask_bprm_check env bprm st)) = protected_pids st"
  by (cases "hash_available env bprm",
      simp_all add: bprm_check_no_hash bprm_check_hash split: option.split)+

lemma bprm_check_pid_hash_map:
  "pid_hash_map (snd (zask_bprm_check env bprm st)) =
     (if hash_available env bprm then pid_hash_map (pid_update env bprm st) else pid_hash_map st)"
  by (simp add: bprm_check_no_hash bprm_check_hash split: option.split)

text \<open>The return value.\<close>

lemma bprm_check_ret:
  "fst (zask_bprm_check env bprm st) =
     (if hash_available env bprm
         \<and> bpf_map_lookup_elem (verdict_map st) (chain_key env bprm st) = Some VERDICT_BLOCK
      then - EPERM else 0)"
  by (cases "hash_available env bprm")
    (auto simp: bprm_check_no_hash bprm_check_hash split: option.split)

end
