(* ===== verification/Kernel_Hooks.thy ===== *)
theory Kernel_Hooks
  imports Bprm_Check
begin

text \<open>
  The two other programs of \<open>bpf/zask.c\<close>, the eviction of a PID on exit and the
  self-protection hook, and the lemmas about them. The entry of \<open>pid_hash_map\<close> is removed
  by every thread exit, whichever thread of the process it is.
\<close>

section \<open>zask_process_exit\<close>

definition zask_process_exit :: "u64 \<Rightarrow> kmaps \<Rightarrow> int \<times> kmaps" where
  "zask_process_exit pid_tgid st =
     (let pid = ucast (drop_bit 32 pid_tgid) :: u32
      in (0, st\<lparr>pid_hash_map := bpf_map_delete_elem (pid_hash_map st) pid\<rparr>))"

text \<open>\<open>current_task->tgid << 32 | current_task->pid\<close>, as the helper documents it.\<close>

definition pid_tgid_of :: "u32 \<Rightarrow> u32 \<Rightarrow> u64" where
  "pid_tgid_of tgid pid = push_bit 32 (ucast tgid) OR ucast pid"

lemma tgid_of_pid_tgid [simp]: "ucast (drop_bit 32 (pid_tgid_of tgid pid)) = tgid"
  by (rule bit_word_eqI)
    (auto simp: pid_tgid_of_def bit_ucast_iff bit_drop_bit_eq bit_or_iff bit_push_bit_iff
      dest: bit_imp_le_length)

lemma process_exit_lookup:
  "bpf_map_lookup_elem (pid_hash_map (snd (zask_process_exit pt st))) p =
     (if p = ucast (drop_bit 32 pt) then None else bpf_map_lookup_elem (pid_hash_map st) p)"
  by (simp add: zask_process_exit_def)

lemma process_exit_frame [simp, kframe]:
  "verdict_map (snd (zask_process_exit pt st)) = verdict_map st"
  "events (snd (zask_process_exit pt st)) = events st"
  "protected_pids (snd (zask_process_exit pt st)) = protected_pids st"
  "drop_counter (snd (zask_process_exit pt st)) = drop_counter st"
  "baseline_allow_counter (snd (zask_process_exit pt st)) = baseline_allow_counter st"
  by (simp_all add: zask_process_exit_def)

section \<open>zask_task_kill\<close>

definition zask_task_kill :: "kmem \<Rightarrow> u64 \<Rightarrow> ptr \<Rightarrow> u32 \<Rightarrow> kmaps \<Rightarrow> int" where
  "zask_task_kill km pid_tgid target sig st =
     (if sig \<noteq> SIG_KILL \<and> sig \<noteq> SIG_TERM then 0
      else
        let target_pid = core_read km (km_task km) target t_tgid
        in (case bpf_map_lookup_elem (protected_pids st) target_pid of
              None \<Rightarrow> 0
            | Some prot \<Rightarrow>
                let sender_pid = ucast (drop_bit 32 pid_tgid) :: u32
                in if sender_pid = target_pid then 0 else - EPERM))"

lemma task_kill_denied:
  "zask_task_kill km pt target sig st = - EPERM \<longleftrightarrow>
     (sig = SIG_KILL \<or> sig = SIG_TERM)
     \<and> bpf_map_lookup_elem (protected_pids st) (core_read km (km_task km) target t_tgid) \<noteq> None
     \<and> ucast (drop_bit 32 pt) \<noteq> core_read km (km_task km) target t_tgid"
  by (auto simp: zask_task_kill_def Let_def EPERM_def split: option.split)

lemma task_kill_ret: "zask_task_kill km pt target sig st \<in> {0, - EPERM}"
  by (auto simp: zask_task_kill_def Let_def split: option.split)

end
