(* ===== verification/Kernel_Machine.thy ===== *)
theory Kernel_Machine
  imports Kernel_Hooks Verdict_Loader
begin

text \<open>
  The kernel programs and the daemon as one machine over the shared maps: every operation
  that touches the maps, in any order. The invariant of the maps, the accounting of
  executions, and the identity that \<open>pid_hash_map\<close> keeps for a process.
\<close>

section \<open>Operations and runs\<close>

datatype kop =
    Exec hook_env linux_binprm
  | Thread_Exit u64
  | Kill kmem u64 ptr u32
  | Allow_Exec bool exec_key
  | Block_Exec bool exec_key
  | Register_PID bool u32

definition keep_on_error :: "'e + 's \<Rightarrow> 's \<Rightarrow> 's" where
  "keep_on_error r s = (case r of Inl _ \<Rightarrow> s | Inr s' \<Rightarrow> s')"

fun kstep :: "kop \<Rightarrow> kmaps \<Rightarrow> kmaps" where
  "kstep (Exec env bprm) st = snd (zask_bprm_check env bprm st)"
| "kstep (Thread_Exit pid_tgid) st = snd (zask_process_exit pid_tgid st)"
| "kstep (Kill km pid_tgid target sig) st = st"
| "kstep (Allow_Exec ok key) st = keep_on_error (AllowExec ok key st) st"
| "kstep (Block_Exec ok key) st = keep_on_error (BlockExec ok key st) st"
| "kstep (Register_PID ok pid) st = keep_on_error (RegisterProtectedPID ok pid st) st"

definition krun :: "kop list \<Rightarrow> kmaps \<Rightarrow> kmaps" where
  "krun ops st = fold kstep ops st"

text \<open>
  What an operation needs to be one of a machine with \<open>n\<close> CPUs: the CPU exists, the record
  handed out by the ring buffer has the size of the struct, keys have two hashes of 32
  bytes.
\<close>

fun kop_ok :: "nat \<Rightarrow> kop \<Rightarrow> bool" where
  "kop_ok n (Exec env bprm) \<longleftrightarrow> he_cpu env < n
     \<and> (case he_reserve env of None \<Rightarrow> True | Some e \<Rightarrow> event_wf e)"
| "kop_ok n (Allow_Exec ok key) \<longleftrightarrow> exec_key_wf key"
| "kop_ok n (Block_Exec ok key) \<longleftrightarrow> exec_key_wf key"
| "kop_ok n _ \<longleftrightarrow> True"

section \<open>The invariant of the maps\<close>

definition kmaps_wf :: "nat \<Rightarrow> kmaps \<Rightarrow> bool" where
  "kmaps_wf n st \<longleftrightarrow>
     bpf_map_wf VERDICT_MAP_MAX (verdict_map st)
     \<and> list_all (\<lambda>(k, v). exec_key_wf k \<and> v \<in> {VERDICT_ALLOW, VERDICT_BLOCK}) (verdict_map st)
     \<and> bpf_map_wf PID_HASH_MAP_MAX (pid_hash_map st)
     \<and> list_all (\<lambda>(p, h). hash_wf h) (pid_hash_map st)
     \<and> bpf_map_wf PROTECTED_PIDS_MAX (protected_pids st)
     \<and> list_all event_wf (events st)
     \<and> percpu_wf n (drop_counter st)
     \<and> percpu_wf n (baseline_allow_counter st)"

lemma kmaps_wf_fresh: "kmaps_wf n (fresh_kmaps n)"
  by (auto simp: kmaps_wf_def fresh_kmaps_def bpf_map_wf_def percpu_wf_def)

lemma list_all_alist_update:
  "list_all P m \<Longrightarrow> P (k, v) \<Longrightarrow> list_all P (AList.update k v m)"
  by (induction m) auto

lemma list_all_alist_delete: "list_all P m \<Longrightarrow> list_all P (AList.delete k m)"
  by (simp add: AList.delete_eq list_all_iff)

lemma list_all_lru_update:
  assumes "list_all P m" "P (k, v)"
  shows "list_all P (bpf_lru_update cap vs ok m k v)"
proof -
  have ev: "list_all P (bpf_lru_evict vs m)"
    using assms(1) by (auto simp: bpf_lru_evict_def list_all_iff)
  show ?thesis
  proof (cases "bpf_hash_update cap (bpf_lru_evict vs m) k v")
    case None
    with ev show ?thesis by (simp add: bpf_lru_update_def Let_def)
  next
    case (Some m')
    then have "m' = AList.update k v (bpf_lru_evict vs m)" by (rule bpf_hash_update_Some(2))
    then have "list_all P m'" using ev assms(2) by (simp add: list_all_alist_update)
    with Some ev show ?thesis by (simp add: bpf_lru_update_def Let_def)
  qed
qed

lemma lookup_list_all:
  "list_all (\<lambda>(p, h). P h) m \<Longrightarrow> bpf_map_lookup_elem m k = Some h \<Longrightarrow> P h"
  by (auto simp: bpf_map_lookup_elem_def list_all_iff dest: map_of_SomeD)

lemma hash_wf_take [simp, kwf]: "hash_wf h \<Longrightarrow> hash_wf (take HASH_SIZE h)"
  by (simp add: hash_wf_def)

lemma parent_hash_of_wf: "kmaps_wf n st \<Longrightarrow> hash_wf (parent_hash_of env st)"
  by (auto simp: parent_hash_of_def kmaps_wf_def dest: lookup_list_all split: option.split)

lemma chain_key_wf: "kmaps_wf n st \<Longrightarrow> exec_key_wf (chain_key env bprm st)"
  by (simp add: exec_key_wf_def chain_key_def parent_hash_of_wf)

lemma length_read_script_argv [simp, kwf]: "length (read_script_argv env buf) = length buf"
  by (simp add: read_script_argv_def Let_def split: prod.split option.split)

lemma fill_event_wf:
  "event_wf e \<Longrightarrow> exec_key_wf k \<Longrightarrow> event_wf (fill_event env bprm m h p k e)"
  by (simp add: fill_event_def event_wf_def exec_key_wf_def hash_wf_def Let_def split: prod.split)

lemma emit_step_wf:
  assumes "kmaps_wf n st" "kop_ok n (Exec env bprm)" "exec_key_wf k"
  shows "kmaps_wf n (emit_step env bprm m h p k st)"
  using assms
  by (auto simp: kmaps_wf_def emit_step_def fill_event_wf percpu_inc_wf split: option.splits)

lemma pid_update_wf: "kmaps_wf n st \<Longrightarrow> kmaps_wf n (pid_update env bprm st)"
  by (auto simp: kmaps_wf_def pid_update_def bpf_lru_update_wf list_all_lru_update)

lemma bprm_check_wf:
  assumes wf: "kmaps_wf n st" and ok: "kop_ok n (Exec env bprm)"
  shows "kmaps_wf n (snd (zask_bprm_check env bprm st))"
proof (cases "hash_available env bprm")
  case False
  then show ?thesis
    using wf ok by (simp add: bprm_check_no_hash emit_step_wf exec_key_wf_def)
next
  case True
  have "kmaps_wf n ((pid_update env bprm st)\<lparr>baseline_allow_counter :=
      percpu_inc (he_cpu env) (baseline_allow_counter st)\<rparr>)"
    using pid_update_wf [OF wf, of env bprm]
    by (auto simp: kmaps_wf_def intro: percpu_inc_wf)
  then show ?thesis
    using True wf ok
    by (auto simp: bprm_check_hash emit_step_wf pid_update_wf chain_key_wf split: option.split)
qed

lemma put_verdict_wf:
  assumes "kmaps_wf n st" "exec_key_wf key" "v \<in> {VERDICT_ALLOW, VERDICT_BLOCK}"
    and "map_put ok VERDICT_MAP_MAX (verdict_map st) key v = Some m"
  shows "kmaps_wf n (st\<lparr>verdict_map := m\<rparr>)"
proof -
  have up: "bpf_hash_update VERDICT_MAP_MAX (verdict_map st) key v = Some m"
    using assms by (simp add: map_put_def split: if_splits)
  let ?P = "\<lambda>(k, v). exec_key_wf k \<and> v \<in> {VERDICT_ALLOW, VERDICT_BLOCK}"
  have "list_all ?P (AList.update key v (verdict_map st))"
    using assms(1-3) by (intro list_all_alist_update) (simp_all add: kmaps_wf_def)
  then have "list_all ?P m" by (simp only: bpf_hash_update_Some(2) [OF up])
  moreover have "bpf_map_wf VERDICT_MAP_MAX m"
    using assms(1) bpf_hash_update_wf [OF _ up] by (simp add: kmaps_wf_def)
  ultimately show ?thesis using assms(1) by (simp add: kmaps_wf_def)
qed

lemma kstep_wf: "kmaps_wf n st \<Longrightarrow> kop_ok n op \<Longrightarrow> kmaps_wf n (kstep op st)"
proof (cases op)
  case (Thread_Exit pt)
  moreover assume "kmaps_wf n st"
  ultimately show ?thesis
    by (auto simp: kmaps_wf_def zask_process_exit_def bpf_map_delete_elem_wf
        bpf_map_delete_elem_def list_all_alist_delete
        intro: bpf_map_delete_elem_wf [unfolded bpf_map_delete_elem_def])
next
  case (Allow_Exec ok key)
  moreover assume "kmaps_wf n st" "kop_ok n op"
  ultimately show ?thesis
    by (auto simp: keep_on_error_def AllowExec_def intro: put_verdict_wf split: option.split)
next
  case (Block_Exec ok key)
  moreover assume "kmaps_wf n st" "kop_ok n op"
  ultimately show ?thesis
    by (auto simp: keep_on_error_def BlockExec_def intro: put_verdict_wf split: option.split)
next
  case (Register_PID ok pid)
  moreover assume "kmaps_wf n st"
  ultimately show ?thesis
    by (auto simp: keep_on_error_def RegisterProtectedPID_def map_put_def kmaps_wf_def
        intro: bpf_hash_update_wf split: option.split if_splits)
qed (auto simp: bprm_check_wf simp del: kop_ok.simps)

interpretation kwf: step_invariant kstep "kop_ok n" "kmaps_wf n"
  for n
  by unfold_locales (rule kstep_wf)

section \<open>Reachable states\<close>

inductive reachable :: "nat \<Rightarrow> kmaps \<Rightarrow> bool"
  for n where
  loaded: "reachable n (fresh_kmaps n)"
| operated: "reachable n st \<Longrightarrow> kop_ok n op \<Longrightarrow> reachable n (kstep op st)"

lemma reachable_kmaps_wf: "reachable n st \<Longrightarrow> kmaps_wf n st"
  by (induction rule: reachable.induct) (auto intro: kmaps_wf_fresh kstep_wf)

lemma reachable_krun: "reachable n st \<Longrightarrow> list_all (kop_ok n) ops \<Longrightarrow> reachable n (krun ops st)"
  unfolding krun_def by (induction ops arbitrary: st) (auto intro: reachable.operated)

section \<open>Accounting of executions\<close>

fun is_exec :: "kop \<Rightarrow> bool" where
  "is_exec (Exec _ _) = True"
| "is_exec _ = False"

definition accounted :: "kmaps \<Rightarrow> u64" where
  "accounted st = word_of_nat (length (events st))
     + percpu_total (drop_counter st) + percpu_total (baseline_allow_counter st)"

lemma emit_step_accounted:
  assumes "kmaps_wf n st" "he_cpu env < n"
  shows "accounted (emit_step env bprm m h p k st) = accounted st + 1"
  using assms
  by (auto simp: accounted_def emit_step_def kmaps_wf_def percpu_inc_total algebra_simps
      split: option.split)

lemma pid_update_accounted [simp]: "accounted (pid_update env bprm st) = accounted st"
  by (simp add: accounted_def)

lemma bprm_check_accounted:
  assumes "kmaps_wf n st" "he_cpu env < n"
  shows "accounted (snd (zask_bprm_check env bprm st)) = accounted st + 1"
proof -
  have "percpu_total (percpu_inc (he_cpu env) (baseline_allow_counter st))
      = percpu_total (baseline_allow_counter st) + 1"
    using assms by (auto simp: kmaps_wf_def intro: percpu_inc_total)
  then have "accounted ((pid_update env bprm st)\<lparr>baseline_allow_counter :=
      percpu_inc (he_cpu env) (baseline_allow_counter st)\<rparr>) = accounted st + 1"
    by (simp add: accounted_def algebra_simps)
  then show ?thesis
    using assms pid_update_wf [OF assms(1), of env bprm]
    by (cases "hash_available env bprm")
      (auto simp: bprm_check_no_hash bprm_check_hash emit_step_accounted split: option.split)
qed

lemma keep_on_error_accounted [simp]:
  "accounted (keep_on_error (AllowExec ok key st) st) = accounted st"
  "accounted (keep_on_error (BlockExec ok key st) st) = accounted st"
  "accounted (keep_on_error (RegisterProtectedPID ok pid st) st) = accounted st"
  by (auto simp: keep_on_error_def accounted_def AllowExec_frame BlockExec_frame
      RegisterProtectedPID_frame split: sum.split)

lemma process_exit_accounted [simp]:
  "accounted (snd (zask_process_exit pt st)) = accounted st"
  by (simp add: accounted_def)

interpretation kacc: step_measure kstep "kop_ok n" "kmaps_wf n" accounted
  "\<lambda>op. of_bool (is_exec op)"
  for n
proof unfold_locales
  fix st op
  assume "kmaps_wf n st" "kop_ok n op"
  then show "accounted (kstep op st) = accounted st + of_bool (is_exec op)"
    by (cases op) (auto simp: bprm_check_accounted)
qed

lemma accounted_fresh [simp]: "accounted (fresh_kmaps n) = 0"
  by (simp add: accounted_def fresh_kmaps_def percpu_total_def COUNTER_ENTRIES_def sum_list_replicate)

section \<open>Protected PIDs are never released\<close>

lemma keep_on_error_frame [simp, kframe]:
  "protected_pids (keep_on_error (AllowExec ok key st) st) = protected_pids st"
  "protected_pids (keep_on_error (BlockExec ok key st) st) = protected_pids st"
  "verdict_map (keep_on_error (RegisterProtectedPID ok pid st) st) = verdict_map st"
  by (auto simp: keep_on_error_def AllowExec_frame BlockExec_frame RegisterProtectedPID_frame
      split: sum.split)

definition shielded :: "u32 \<Rightarrow> kmaps \<Rightarrow> bool" where
  "shielded pid st \<longleftrightarrow> bpf_map_lookup_elem (protected_pids st) pid \<noteq> None"

lemma kstep_shielded: "shielded pid st \<Longrightarrow> shielded pid (kstep op st)"
  by (cases op)
    (auto simp: shielded_def keep_on_error_def AllowExec_frame BlockExec_frame
      RegisterProtectedPID_lookup split: sum.split)

interpretation kshield: step_invariant kstep "\<lambda>_. True" "shielded pid"
  for pid
  by unfold_locales (rule kstep_shielded)

lemma krun_shielded: "shielded pid st \<Longrightarrow> shielded pid (krun ops st)"
  unfolding krun_def by (rule kshield.run_inv) (auto simp: list_all_iff)

section \<open>Who writes a verdict\<close>

fun writes_key :: "kop \<Rightarrow> exec_key option" where
  "writes_key (Allow_Exec ok key) = Some key"
| "writes_key (Block_Exec ok key) = Some key"
| "writes_key _ = None"

definition has_verdict :: "exec_key \<Rightarrow> u32 option \<Rightarrow> kmaps \<Rightarrow> bool" where
  "has_verdict key v st \<longleftrightarrow> bpf_map_lookup_elem (verdict_map st) key = v"

lemma kstep_verdict:
  "has_verdict key v st \<Longrightarrow> writes_key op \<noteq> Some key \<Longrightarrow> has_verdict key v (kstep op st)"
  by (cases op)
    (auto simp: has_verdict_def keep_on_error_def AllowExec_verdict BlockExec_verdict
      RegisterProtectedPID_frame split: sum.split)

interpretation kverdict: step_invariant kstep "\<lambda>op. writes_key op \<noteq> Some key" "has_verdict key v"
  for key v
  by unfold_locales (rule kstep_verdict)

lemma krun_verdict:
  "list_all (\<lambda>op. writes_key op \<noteq> Some key) ops \<Longrightarrow>
     bpf_map_lookup_elem (verdict_map (krun ops st)) key = bpf_map_lookup_elem (verdict_map st) key"
  using kverdict.run_inv [of key "bpf_map_lookup_elem (verdict_map st) key" st ops]
  by (simp add: has_verdict_def krun_def)

end
