(* ===== verification/Process_Identity.thy ===== *)
theory Process_Identity
  imports Kernel_Machine
begin

text \<open>
  What \<open>pid_hash_map\<close> is for: the comments of \<open>bpf/zask.c\<close> specify it as the hash of the
  last binary each process executed, removed when the process (its thread group leader)
  exits. That specification is \<open>intended\<close>, a map kept beside the kernel maps; the lemmas
  say on which runs the program agrees with it (\<open>regular\<close>) and what it does on the others.
\<close>

section \<open>The specification\<close>

type_synonym identity = "u32 \<Rightarrow> hash option"

definition exec_allowed :: "hook_env \<Rightarrow> linux_binprm \<Rightarrow> kmaps \<Rightarrow> bool" where
  "exec_allowed env bprm st \<longleftrightarrow> fst (zask_bprm_check env bprm st) = 0"

definition leader_exit :: "u64 \<Rightarrow> bool" where
  "leader_exit pid_tgid \<longleftrightarrow> (ucast (drop_bit 32 pid_tgid) :: u32) = ucast pid_tgid"

text \<open>
  An execution that the hook lets through gives the process the hash of the new binary, or
  no known hash when there is none; a denied one leaves the process the binary it was. The
  exit of the leader ends the process.
\<close>

fun intended :: "kop \<Rightarrow> kmaps \<Rightarrow> identity \<Rightarrow> identity" where
  "intended (Exec env bprm) st ident =
     (if exec_allowed env bprm st
      then ident(cur_pid env :=
             (if hash_available env bprm then Some (child_hash_of env bprm) else None))
      else ident)"
| "intended (Thread_Exit pid_tgid) st ident =
     (if leader_exit pid_tgid then ident(ucast (drop_bit 32 pid_tgid) := None) else ident)"
| "intended _ st ident = ident"

definition tracks :: "kmaps \<Rightarrow> identity \<Rightarrow> bool" where
  "tracks st ident \<longleftrightarrow> (\<forall>p. bpf_map_lookup_elem (pid_hash_map st) p = ident p)"

section \<open>Runs on which the program meets it\<close>

definition lru_stores :: "hook_env \<Rightarrow> kmaps \<Rightarrow> bool" where
  "lru_stores env st \<longleftrightarrow> he_lru_ok env
     \<and> bpf_hash_update PID_HASH_MAP_MAX (bpf_lru_evict (he_lru_victims env) (pid_hash_map st))
         (cur_pid env) zero_hash \<noteq> None"

fun regular :: "kop \<Rightarrow> kmaps \<Rightarrow> bool" where
  "regular (Exec env bprm) st \<longleftrightarrow> hash_available env bprm \<and> exec_allowed env bprm st
     \<and> he_lru_victims env = [] \<and> lru_stores env st"
| "regular (Thread_Exit pid_tgid) st \<longleftrightarrow> leader_exit pid_tgid"
| "regular _ st \<longleftrightarrow> True"

fun regular_run :: "kop list \<Rightarrow> kmaps \<Rightarrow> bool" where
  "regular_run [] st \<longleftrightarrow> True"
| "regular_run (op # ops) st \<longleftrightarrow> regular op st \<and> regular_run ops (kstep op st)"

fun intended_run :: "kop list \<Rightarrow> kmaps \<Rightarrow> identity \<Rightarrow> identity" where
  "intended_run [] st ident = ident"
| "intended_run (op # ops) st ident = intended_run ops (kstep op st) (intended op st ident)"

lemma evict_Nil [simp]: "bpf_lru_evict [] m = m"
  by (simp add: bpf_lru_evict_def)

lemma pid_update_lookup:
  assumes "lru_stores env st"
  shows "bpf_map_lookup_elem (pid_hash_map (pid_update env bprm st)) p =
     (if p = cur_pid env then Some (child_hash_of env bprm)
      else if p \<in> set (he_lru_victims env) then None
      else bpf_map_lookup_elem (pid_hash_map st) p)"
proof -
  let ?m = "bpf_lru_evict (he_lru_victims env) (pid_hash_map st)"
  obtain m' where m': "bpf_hash_update PID_HASH_MAP_MAX ?m (cur_pid env) (child_hash_of env bprm)
      = Some m'"
    using assms by (auto simp: lru_stores_def bpf_hash_update_def split: if_splits)
  then have "pid_hash_map (pid_update env bprm st) = m'"
    using assms by (simp add: pid_update_def bpf_lru_update_def Let_def lru_stores_def)
  then show ?thesis
    using bpf_hash_update_Some(1) [OF m'] by (simp add: bpf_map_lookup_elem_def map_of_evict)
qed

lemma kstep_pid_hash_map_other [simp]:
  "pid_hash_map (keep_on_error (AllowExec ok key st) st) = pid_hash_map st"
  "pid_hash_map (keep_on_error (BlockExec ok key st) st) = pid_hash_map st"
  "pid_hash_map (keep_on_error (RegisterProtectedPID ok pid st) st) = pid_hash_map st"
  by (auto simp: keep_on_error_def AllowExec_frame BlockExec_frame RegisterProtectedPID_frame
      split: sum.split)

lemma tracks_step:
  assumes "tracks st ident" "regular op st"
  shows "tracks (kstep op st) (intended op st ident)"
proof (cases op)
  case (Exec env bprm)
  with assms show ?thesis
    by (auto simp: tracks_def bprm_check_pid_hash_map pid_update_lookup)
next
  case (Thread_Exit pt)
  with assms show ?thesis by (auto simp: tracks_def process_exit_lookup)
qed (use assms in \<open>auto simp: tracks_def\<close>)

lemma tracks_run:
  "tracks st ident \<Longrightarrow> regular_run ops st \<Longrightarrow>
     tracks (krun ops st) (intended_run ops st ident)"
  unfolding krun_def
  by (induction ops arbitrary: st ident) (auto simp: tracks_step)

lemma tracks_fresh: "tracks (fresh_kmaps n) Map.empty"
  by (simp add: tracks_def fresh_kmaps_def bpf_map_lookup_elem_def)

section \<open>A process that never executed anything\<close>

fun execs_as :: "u32 \<Rightarrow> kop \<Rightarrow> bool" where
  "execs_as pid (Exec env bprm) \<longleftrightarrow> cur_pid env = pid"
| "execs_as pid _ \<longleftrightarrow> False"

definition unknown_to :: "u32 \<Rightarrow> kmaps \<Rightarrow> bool" where
  "unknown_to pid st \<longleftrightarrow> bpf_map_lookup_elem (pid_hash_map st) pid = None"

lemma unknown_step:
  assumes "unknown_to pid st" "\<not> execs_as pid op"
  shows "unknown_to pid (kstep op st)"
proof (cases op)
  case (Exec env bprm)
  then have ne: "cur_pid env \<noteq> pid" using assms by simp
  have "bpf_map_lookup_elem (pid_hash_map (pid_update env bprm st)) pid = None"
  proof (cases "bpf_map_lookup_elem (pid_hash_map (pid_update env bprm st)) pid")
    case (Some w)
    then have "bpf_map_lookup_elem (pid_hash_map st) pid = Some w"
      using ne by (auto simp: pid_update_def dest: bpf_lru_update_back)
    then show ?thesis using assms by (simp add: unknown_to_def)
  qed
  then show ?thesis using Exec assms by (simp add: unknown_to_def bprm_check_pid_hash_map)
qed (use assms in \<open>auto simp: unknown_to_def process_exit_lookup\<close>)

interpretation kunknown: step_invariant kstep "\<lambda>op. \<not> execs_as pid op" "unknown_to pid"
  for pid
  by unfold_locales (rule unknown_step)

lemma unknown_fresh: "unknown_to pid (fresh_kmaps n)"
  by (simp add: unknown_to_def fresh_kmaps_def bpf_map_lookup_elem_def)

lemma parent_unknown_key:
  "unknown_to (par_pid env) st \<Longrightarrow>
     chain_key env bprm st = \<lparr>ek_parent = zero_hash, ek_child = child_hash_of env bprm\<rparr>"
  by (simp add: chain_key_def parent_hash_of_def unknown_to_def)

end
