(* ===== verification/Argv_Scan.thy ===== *)
theory Argv_Scan
  imports Bprm_Check
begin

text \<open>
  The extraction of \<open>argv[1]\<close> in step 6 of \<open>zask_bprm_check\<close>: what the bounded loop over
  \<open>argv[0]\<close> finds, against the strings that lie in user memory, and the cases where the
  field of the event is not written at all.
\<close>

section \<open>The loop\<close>

lemma unat_add_one:
  assumes "unat (a :: u64) < unat (b :: u64)"
  shows "unat (a + 1) = Suc (unat a)"
proof -
  have "unat b < 2 ^ LENGTH(64)" by (rule unsigned_less)
  with assms have "unat a + 1 < 2 ^ LENGTH(64)" by linarith
  then show ?thesis by (simp add: unat_word_ariths)
qed

text \<open>A string that ends within the limit and the iterations left is skipped, NUL included.\<close>

lemma skip_argv0_string:
  assumes "cstr_at um a s" "length s < n" "unat a + length s < unat limit"
  shows "skip_argv0 um limit n a = Some (a + word_of_nat (length s) + 1)"
  using assms
proof (induction s arbitrary: a n)
  case Nil
  then obtain m where n: "n = Suc m" by (cases n) auto
  have "\<not> limit \<le> a" using Nil by (simp add: word_le_nat_alt)
  then show ?case using Nil n by (simp add: cstr_at_Nil)
next
  case (Cons b s)
  then obtain m where n: "n = Suc m" by (cases n) auto
  have lt: "\<not> limit \<le> a" using Cons.prems by (simp add: word_le_nat_alt)
  then have up: "unat (a + 1) = Suc (unat a)"
    by (simp add: word_le_nat_alt not_le unat_add_one)
  have "skip_argv0 um limit m (a + 1) = Some (a + 1 + word_of_nat (length s) + 1)"
    using Cons.prems n up by (intro Cons.IH) (auto simp: cstr_at_Cons)
  then show ?case
    using Cons.prems n lt by (simp add: cstr_at_Cons add.assoc)
qed

text \<open>Without a NUL among the bytes the loop may read, there is no position.\<close>

lemma skip_argv0_none:
  assumes "\<And>i. i < n \<Longrightarrow> um (a + word_of_nat i) \<noteq> Some 0"
  shows "skip_argv0 um limit n a = None"
  using assms
proof (induction n arbitrary: a)
  case 0
  then show ?case by simp
next
  case (Suc n)
  have "skip_argv0 um limit n (a + 1) = None"
  proof (rule Suc.IH)
    fix i
    assume "i < n"
    then show "um (a + 1 + word_of_nat i) \<noteq> Some 0"
      using Suc.prems [of "Suc i"] by (simp add: add.assoc)
  qed
  moreover have "um a \<noteq> Some 0" using Suc.prems [of 0] by simp
  ultimately show ?case by (auto split: option.split)
qed

text \<open>A position found is behind a NUL, at most \<open>n\<close> bytes further and within the limit.\<close>

lemma skip_argv0_Some:
  assumes "skip_argv0 um limit n a = Some pos"
  shows "\<exists>k < n. pos = a + word_of_nat k + 1 \<and> um (a + word_of_nat k) = Some 0
    \<and> (\<forall>i < k. \<exists>b. um (a + word_of_nat i) = Some b \<and> b \<noteq> 0)
    \<and> (\<forall>i \<le> k. a + word_of_nat i < limit)"
  using assms
proof (induction n arbitrary: a)
  case 0
  then show ?case by simp
next
  case (Suc n)
  have le: "\<not> limit \<le> a" using Suc.prems by (simp split: if_splits)
  then have lt: "a < limit" by simp
  from Suc.prems le obtain b where b: "um a = Some b"
    by (auto split: option.splits)
  show ?case
  proof (cases "b = 0")
    case True
    then show ?thesis using Suc.prems le lt b by (intro exI [of _ 0]) auto
  next
    case False
    with Suc.prems le b have "skip_argv0 um limit n (a + 1) = Some pos" by simp
    from Suc.IH [OF this] obtain k where k: "k < n" "pos = a + 1 + word_of_nat k + 1"
      "um (a + 1 + word_of_nat k) = Some 0"
      "\<forall>i < k. \<exists>b. um (a + 1 + word_of_nat i) = Some b \<and> b \<noteq> 0"
      "\<forall>i \<le> k. a + 1 + word_of_nat i < limit"
      by blast
    have nz: "\<exists>b. um (a + word_of_nat i) = Some b \<and> b \<noteq> 0" if "i < Suc k" for i
      using that k(4) b False by (cases i) (auto simp: add.assoc)
    have win: "a + word_of_nat i < limit" if "i \<le> Suc k" for i
      using that k(5) lt by (cases i) (auto simp: add.assoc)
    show ?thesis
      using k nz win by (intro exI [of _ "Suc k"]) (auto simp: add.assoc)
  qed
qed

section \<open>The field script_argv\<close>

lemma read_script_argv_no_mm:
  "fst (arg_region env) = 0 \<or> snd (arg_region env) \<le> fst (arg_region env) \<Longrightarrow>
     read_script_argv env buf = buf"
  by (auto simp: read_script_argv_def Let_def split: prod.split)

lemma read_script_argv_long_argv0:
  assumes "\<And>i. i < SCAN_MAX \<Longrightarrow>
      um_byte (he_mem env) (fst (arg_region env) + word_of_nat i) \<noteq> Some 0"
  shows "read_script_argv env buf = buf"
proof -
  have "skip_argv0 (um_byte (he_mem env)) limit SCAN_MAX (fst (arg_region env)) = None" for limit
    using assms by (rule skip_argv0_none)
  then show ?thesis by (auto simp: read_script_argv_def Let_def split: prod.split)
qed

text \<open>The window of the loop: \<open>SCAN_MAX\<close> bytes, or up to the end of the arguments.\<close>

lemma scan_limit:
  fixes a b :: u64
  assumes "unat a + k < unat b" "k < SCAN_MAX" "unat a + SCAN_MAX < 2 ^ 64"
  shows "unat a + k < unat (if a + word_of_nat SCAN_MAX > b then b else a + word_of_nat SCAN_MAX)"
proof -
  have "unat (word_of_nat SCAN_MAX :: u64) = SCAN_MAX" by (simp add: SCAN_MAX_def)
  then have "unat (a + word_of_nat SCAN_MAX) = unat a + SCAN_MAX"
    using assms(3) by (simp add: unat_word_ariths)
  then show ?thesis using assms by simp
qed

lemma read_script_argv_at:
  assumes region: "arg_region env = (a, b)" and a: "a \<noteq> 0"
    and argv0: "cstr_at (um_byte (he_mem env)) a s0" and short: "length s0 < SCAN_MAX"
    and argv1: "cstr_at (um_byte (he_mem env)) (a + word_of_nat (length s0) + 1) s1"
    and inside: "unat a + length s0 + 1 < unat b" and wrap: "unat a + SCAN_MAX < 2 ^ 64"
    and buf: "0 < length buf"
  shows "read_script_argv env buf = store_bytes buf (take (length buf - 1) s1 @ [0])"
proof -
  let ?l = "if a + word_of_nat SCAN_MAX > b then b else a + word_of_nat SCAN_MAX"
  let ?p = "a + word_of_nat (length s0) + 1"
  have "unat a + length s0 < unat b" using inside by simp
  then have "unat a + length s0 < unat ?l" using short wrap by (intro scan_limit)
  then have skip: "skip_argv0 (um_byte (he_mem env)) ?l SCAN_MAX a = Some ?p"
    using argv0 short by (intro skip_argv0_string)
  have "unat b < 2 ^ LENGTH(64)" by (rule unsigned_less)
  then have "unat ?p = unat a + length s0 + 1"
    using inside by (simp add: unat_word_ariths unat_of_nat)
  then have "?p < b" "a < b" using inside by (simp_all add: word_less_nat_alt)
  then show ?thesis
    using region a skip buf read_str_into_at [OF argv1, of buf]
    by (simp add: read_script_argv_def Let_def del: skip_argv0.simps)
qed

end
