(* ===== verification/Scenarios.thy ===== *)
theory Scenarios
  imports Kernel_Machine
begin

text \<open>
  Concrete executions for the evaluations of the other theories: a task with a given PID
  whose parent has a given PID executes \<open>/bin/sh\<close>, with the result of IMA given. The hash
  of a binary is one byte repeated.
\<close>

definition sc_hash :: "u8 \<Rightarrow> hash" where
  "sc_hash b = replicate HASH_SIZE b"

definition bytes_at :: "ptr \<Rightarrow> u8 list \<Rightarrow> ptr \<Rightarrow> u8 option" where
  "bytes_at base bs p =
     (if base \<le> p \<and> unat (p - base) < length bs then Some (bs ! unat (p - base)) else None)"

lemma bytes_at_offset:
  assumes "unat base + i < 2 ^ 64"
  shows "bytes_at base bs (base + word_of_nat i) = (if i < length bs then Some (bs ! i) else None)"
proof -
  have i: "unat (word_of_nat i :: ptr) = i" using assms by (simp add: unat_of_nat)
  have "unat (base + word_of_nat i) = unat base + i"
    using assms i by (subst unat_plus_if') simp
  then have "base \<le> base + word_of_nat i" by (simp add: word_le_nat_alt)
  then show ?thesis using i by (simp add: bytes_at_def)
qed

text \<open>A NUL-terminated string in memory.\<close>

lemma cstr_at_bytes_at:
  assumes "0 \<notin> set s" "unat base + length s < 2 ^ 64"
  shows "cstr_at (bytes_at base (s @ [0])) base s"
  using assms by (simp add: cstr_at_def bytes_at_offset nth_append)

definition sc_args :: "u8 list" where
  "sc_args = map char_byte ''sh'' @ [0] @ map char_byte ''-x'' @ [0]"

definition sc_mem :: "u32 \<Rightarrow> u32 \<Rightarrow> kmem" where
  "sc_mem pid ppid = \<lparr>
     km_file = [0x10 \<mapsto> \<lparr>f_inode = 0x20\<rparr>],
     km_inode = [0x20 \<mapsto> \<lparr>i_ino = 77, i_sb = 0x30\<rparr>],
     km_sb = [0x30 \<mapsto> \<lparr>s_dev = 8\<rparr>],
     km_task = [0x40 \<mapsto> \<lparr>t_pid = pid, t_tgid = pid, t_flags = 0, t_mm = 0x60,
                         t_parent = 0x50, t_real_parent = 0x50\<rparr>,
                0x50 \<mapsto> \<lparr>t_pid = ppid, t_tgid = ppid, t_flags = 0, t_mm = 0,
                         t_parent = 0, t_real_parent = 0\<rparr>],
     km_mm = [0x60 \<mapsto> \<lparr>arg_start = 0x1000, arg_end = 0x1006\<rparr>],
     km_byte = bytes_at 0x2000 (map char_byte ''/bin/sh'' @ [0]),
     um_byte = bytes_at 0x1000 sc_args,
     fault_word = 0, fault_bytes = []\<rparr>"

definition sc_event :: event where
  "sc_event = \<lparr>e_inode_number = 0, e_cgroup_id = 0, e_pid = 0, e_ppid = 0, e_uid = 0,
     e_device_id = 0, e_is_map_hit = 0, e_hash_available = 0, e_hash = zero_hash,
     e_parent_hash_available = 0, e_parent_hash = zero_hash,
     e_argv = replicate ARGV_MAX 0, e_script_argv = replicate ARGV_MAX 0\<rparr>"

definition sc_bprm :: linux_binprm where
  "sc_bprm = \<lparr>bprm_file = 0x10, bprm_argc = 2, bprm_envc = 0, bprm_filename = 0x2000\<rparr>"

definition sc_env :: "u32 \<Rightarrow> u32 \<Rightarrow> int \<times> u8 list \<Rightarrow> hook_env" where
  "sc_env pid ppid ima = \<lparr>he_cpu = 0, he_pid_tgid = pid_tgid_of pid pid, he_uid_gid = 0,
     he_cgroup_id = 1, he_task = 0x40, he_mem = sc_mem pid ppid, he_ima = (\<lambda>_. ima),
     he_lru_victims = [], he_lru_ok = True, he_reserve = Some sc_event\<rparr>"

text \<open>An execution of the binary with hash byte \<open>b\<close> by process \<open>pid\<close>, child of \<open>ppid\<close>.\<close>

definition sc_exec :: "u32 \<Rightarrow> u32 \<Rightarrow> u8 \<Rightarrow> hook_env" where
  "sc_exec pid ppid b = sc_env pid ppid (4, sc_hash b)"

lemma sc_event_wf [simp]: "event_wf sc_event"
  by (simp add: event_wf_def sc_event_def)

lemma sc_hash_wf [simp]: "hash_wf (sc_hash b)"
  by (simp add: hash_wf_def sc_hash_def)

lemma length_sc_hash [simp]: "length (sc_hash b) = HASH_SIZE"
  by (simp add: sc_hash_def)

lemma sc_hash_inj [simp]: "sc_hash a = sc_hash b \<longleftrightarrow> a = b"
  by (simp add: sc_hash_def HASH_SIZE_def)

lemma sc_hash_zero [simp]: "zero_hash = sc_hash 0"
  by (simp add: zero_hash_def sc_hash_def)

lemma store_sc_hash [simp]: "store_bytes (sc_hash a) (sc_hash b) = sc_hash b"
  by (rule store_bytes_full) simp

lemma take_sc_hash [simp]: "take HASH_SIZE (sc_hash b) = sc_hash b"
  by (simp add: sc_hash_def)

lemma sc_env_simps [simp]:
  "cur_pid (sc_env pid ppid ima) = pid"
  "par_pid (sc_env pid ppid ima) = ppid"
  "he_cpu (sc_env pid ppid ima) = 0"
  "he_lru_victims (sc_env pid ppid ima) = []"
  "he_lru_ok (sc_env pid ppid ima) = True"
  "he_reserve (sc_env pid ppid ima) = Some sc_event"
  "hash_available (sc_env pid ppid ima) bprm \<longleftrightarrow> 0 \<le> fst ima"
  "child_hash_of (sc_env pid ppid ima) bprm = store_bytes (sc_hash 0) (snd ima)"
  by (simp_all add: sc_env_def cur_pid_def par_pid_def sc_mem_def core_read_def
      hash_available_def child_hash_of_def)

lemma sc_exec_simps [simp]:
  "cur_pid (sc_exec pid ppid b) = pid"
  "par_pid (sc_exec pid ppid b) = ppid"
  "he_cpu (sc_exec pid ppid b) = 0"
  "he_lru_victims (sc_exec pid ppid b) = []"
  "he_lru_ok (sc_exec pid ppid b) = True"
  "he_reserve (sc_exec pid ppid b) = Some sc_event"
  "hash_available (sc_exec pid ppid b) bprm"
  "child_hash_of (sc_exec pid ppid b) bprm = sc_hash b"
  by (simp_all add: sc_exec_def)

text \<open>Maps with one parent known and one verdict stored.\<close>

definition sc_state :: "(u32 \<times> hash) list \<Rightarrow> (exec_key \<times> u32) list \<Rightarrow> kmaps" where
  "sc_state pids verdicts = (fresh_kmaps 1)\<lparr>pid_hash_map := pids, verdict_map := verdicts\<rparr>"

definition sc_key :: "u8 \<Rightarrow> u8 \<Rightarrow> exec_key" where
  "sc_key p c = \<lparr>ek_parent = sc_hash p, ek_child = sc_hash c\<rparr>"

lemma sc_key_inj [simp]: "sc_key p c = sc_key p' c' \<longleftrightarrow> p = p' \<and> c = c'"
  by (simp add: sc_key_def)

lemma sc_key_wf [simp]: "exec_key_wf (sc_key p c)"
  by (simp add: sc_key_def exec_key_wf_def)

lemma sc_state_simps [simp]:
  "pid_hash_map (sc_state ps vs) = ps" "verdict_map (sc_state ps vs) = vs"
  "protected_pids (sc_state ps vs) = []" "events (sc_state ps vs) = []"
  by (simp_all add: sc_state_def fresh_kmaps_def)

lemma sc_chain_key_known:
  "bpf_map_lookup_elem (pid_hash_map st) ppid = Some (sc_hash p) \<Longrightarrow>
     chain_key (sc_exec pid ppid c) bprm st = sc_key p c"
  by (simp add: chain_key_def parent_hash_of_def sc_key_def)

lemma sc_chain_key_unknown:
  "bpf_map_lookup_elem (pid_hash_map st) ppid = None \<Longrightarrow>
     chain_key (sc_exec pid ppid c) bprm st = sc_key 0 c"
  by (simp add: chain_key_def parent_hash_of_def sc_key_def)

end
