(* ===== verification/Gate_Properties.thy ===== *)
theory Gate_Properties
  imports Process_Identity Argv_Scan Event_Codec Scenarios
begin

text \<open>
  The properties of the kernel programs: the decision of the gatekeeper and its telemetry,
  the self-protection of the daemon, the invariant of the maps, the identity of processes
  and the extraction of the arguments. Each is stated on the definitions of the model and
  proved from the lemmas of the component theories.
\<close>

section \<open>Decision and telemetry\<close>

text \<open>
  C1: an execution is denied exactly when IMA gave a hash and the verdict map holds BLOCK
  under the compound key; every other execution gets 0, whatever the map holds; the hook
  writes neither the verdicts nor the protected PIDs.
\<close>
theorem gate_decision:
  "fst (zask_bprm_check env bprm st) =
     (if hash_available env bprm
         \<and> bpf_map_lookup_elem (verdict_map st) (chain_key env bprm st) = Some VERDICT_BLOCK
      then - EPERM else 0)
   \<and> verdict_map (snd (zask_bprm_check env bprm st)) = verdict_map st
   \<and> protected_pids (snd (zask_bprm_check env bprm st)) = protected_pids st"
  by (simp add: bprm_check_ret)

text \<open>The event that an execution submits, where it submits one.\<close>

definition event_of :: "hook_env \<Rightarrow> linux_binprm \<Rightarrow> kmaps \<Rightarrow> event \<Rightarrow> event" where
  "event_of env bprm st e =
     fill_event env bprm
       (hash_available env bprm
        \<and> bpf_map_lookup_elem (verdict_map st) (chain_key env bprm st) \<noteq> None)
       (hash_available env bprm) (hash_available env bprm \<and> parent_known env st)
       (if hash_available env bprm then chain_key env bprm st
        else \<lparr>ek_parent = zero_hash, ek_child = child_hash_of env bprm\<rparr>) e"

definition fast_allowed :: "hook_env \<Rightarrow> linux_binprm \<Rightarrow> kmaps \<Rightarrow> bool" where
  "fast_allowed env bprm st \<longleftrightarrow> hash_available env bprm
     \<and> bpf_map_lookup_elem (verdict_map st) (chain_key env bprm st) = Some VERDICT_ALLOW"

lemma bprm_check_events:
  "events (snd (zask_bprm_check env bprm st)) =
     events st @ (if fast_allowed env bprm st then []
                  else (case he_reserve env of None \<Rightarrow> [] | Some e \<Rightarrow> [event_of env bprm st e]))"
  by (cases "hash_available env bprm")
    (auto simp: bprm_check_no_hash bprm_check_hash fast_allowed_def event_of_def emit_step_def
      split: option.split)

lemma bprm_check_counters:
  "drop_counter (snd (zask_bprm_check env bprm st)) =
     (if \<not> fast_allowed env bprm st \<and> he_reserve env = None
      then percpu_inc (he_cpu env) (drop_counter st) else drop_counter st)"
  "baseline_allow_counter (snd (zask_bprm_check env bprm st)) =
     (if fast_allowed env bprm st
      then percpu_inc (he_cpu env) (baseline_allow_counter st) else baseline_allow_counter st)"
  by (cases "hash_available env bprm";
      auto simp: bprm_check_no_hash bprm_check_hash fast_allowed_def emit_step_def
      split: option.split)+

lemma ExecKey_event_of:
  assumes "kmaps_wf n st" "hash_available env bprm"
  shows "ExecKey (event_of env bprm st e) = chain_key env bprm st"
  using chain_key_wf [OF assms(1), of env bprm] assms(2)
  by (simp add: ExecKey_def event_of_def fill_event_def exec_key_wf_def hash_wf_def Let_def
      split: prod.split)

lemma event_of_fields:
  "e_is_map_hit (event_of env bprm st e) = of_bool (hash_available env bprm
     \<and> bpf_map_lookup_elem (verdict_map st) (chain_key env bprm st) \<noteq> None)"
  "e_hash_available (event_of env bprm st e) = of_bool (hash_available env bprm)"
  "e_parent_hash_available (event_of env bprm st e) =
     of_bool (hash_available env bprm \<and> parent_known env st)"
  "e_pid (event_of env bprm st e) = cur_pid env"
  "e_ppid (event_of env bprm st e) = par_pid env"
  "e_uid (event_of env bprm st e) = ucast (he_uid_gid env)"
  by (simp_all add: event_of_def fill_event_def Let_def split: prod.split)

lemma event_of_wf:
  assumes "kmaps_wf n st" "event_wf e"
  shows "event_wf (event_of env bprm st e)"
  using chain_key_wf [OF assms(1), of env bprm] assms(2)
  by (simp add: event_of_def fill_event_wf exec_key_wf_def)


text \<open>The parent 10 runs the binary 1, which must not start the binary 2.\<close>

definition st_block :: kmaps where
  "st_block = sc_state [(10, sc_hash 1)] [(sc_key 1 2, VERDICT_BLOCK)]"

lemma st_block_wf: "kmaps_wf 1 st_block"
  using kmaps_wf_fresh [of 1]
  by (auto simp: kmaps_wf_def st_block_def sc_state_def bpf_map_wf_def VERDICT_MAP_MAX_def
      PID_HASH_MAP_MAX_def)

lemma st_block_simps [simp]:
  "bpf_map_lookup_elem (pid_hash_map st_block) 10 = Some (sc_hash 1)"
  "bpf_map_lookup_elem (verdict_map st_block) (sc_key 1 2) = Some VERDICT_BLOCK"
  "bpf_map_lookup_elem (verdict_map st_block) \<lparr>ek_parent = sc_hash 0, ek_child = sc_hash 2\<rparr> = None"
  "chain_key (sc_exec 11 10 2) sc_bprm st_block = sc_key 1 2"
  by (simp_all add: st_block_def bpf_map_lookup_elem_def sc_chain_key_known sc_key_def)


text \<open>
  An execution with an ALLOW verdict returns 0, submits no record and counts no drop; it
  adds one to the counter of fast-path hits.
\<close>
theorem allow_fast_path:
  assumes "kmaps_wf n st" "he_cpu env < n" "hash_available env bprm"
    and "bpf_map_lookup_elem (verdict_map st) (chain_key env bprm st) = Some VERDICT_ALLOW"
  shows "fst (zask_bprm_check env bprm st) = 0
    \<and> events (snd (zask_bprm_check env bprm st)) = events st
    \<and> drop_counter (snd (zask_bprm_check env bprm st)) = drop_counter st
    \<and> percpu_total (baseline_allow_counter (snd (zask_bprm_check env bprm st)))
        = percpu_total (baseline_allow_counter st) + 1"
proof -
  have "percpu_total (percpu_inc (he_cpu env) (baseline_allow_counter st))
      = percpu_total (baseline_allow_counter st) + 1"
    using assms(1,2) by (auto simp: kmaps_wf_def intro: percpu_inc_total)
  then show ?thesis
    using assms(3,4)
    by (simp add: bprm_check_ret bprm_check_events bprm_check_counters fast_allowed_def)
qed

definition st_allow :: kmaps where
  "st_allow = sc_state [(10, sc_hash 1)] [(sc_key 1 2, VERDICT_ALLOW)]"

lemma st_allow_wf: "kmaps_wf 1 st_allow"
  using kmaps_wf_fresh [of 1]
  by (auto simp: kmaps_wf_def st_allow_def sc_state_def bpf_map_wf_def VERDICT_MAP_MAX_def
      PID_HASH_MAP_MAX_def)

lemma st_allow_simps [simp]:
  "bpf_map_lookup_elem (pid_hash_map st_allow) 10 = Some (sc_hash 1)"
  "bpf_map_lookup_elem (verdict_map st_allow) (sc_key 1 2) = Some VERDICT_ALLOW"
  "chain_key (sc_exec 11 10 2) sc_bprm st_allow = sc_key 1 2"
  by (simp_all add: st_allow_def bpf_map_lookup_elem_def sc_chain_key_known)

lemma allow_fast_path_witness:
  "fst (zask_bprm_check (sc_exec 11 10 2) sc_bprm st_allow) = 0
    \<and> events (snd (zask_bprm_check (sc_exec 11 10 2) sc_bprm st_allow)) = events st_allow
    \<and> drop_counter (snd (zask_bprm_check (sc_exec 11 10 2) sc_bprm st_allow)) = drop_counter st_allow
    \<and> percpu_total (baseline_allow_counter (snd (zask_bprm_check (sc_exec 11 10 2) sc_bprm st_allow)))
        = percpu_total (baseline_allow_counter st_allow) + 1"
  by (rule allow_fast_path [OF st_allow_wf]) simp_all

text \<open>
  C20: no execution is lost: after any admissible run from the loaded program, the records
  submitted, the drops the daemon reads and the fast-path hits it reads add up to the number
  of executions (modulo \<open>2 ^ 64\<close>).
\<close>
theorem exec_accounting:
  assumes "list_all (kop_ok n) ops" "st = krun ops (fresh_kmaps n)"
  shows "\<exists>drops hits. ReadDropCounter True st = Inr drops
    \<and> ReadBaselineAllowCounter True st = Inr hits
    \<and> word_of_nat (length (events st)) + drops + hits
        = word_of_nat (length (filter is_exec ops))"
proof -
  have "accounted st = accounted (fresh_kmaps n) + sum_list (map (\<lambda>op. of_bool (is_exec op)) ops)"
    unfolding assms(2) krun_def by (rule kacc.run_total [OF kmaps_wf_fresh assms(1)])
  moreover have "sum_list (map (\<lambda>op. of_bool (is_exec op)) ops)
      = (word_of_nat (length (filter is_exec ops)) :: u64)"
    by (induction ops) auto
  moreover have "kmaps_wf n st"
    unfolding assms(2) krun_def by (rule kwf.run_inv [OF kmaps_wf_fresh assms(1)])
  then have "ReadDropCounter True st = Inr (percpu_total (drop_counter st))"
    "ReadBaselineAllowCounter True st = Inr (percpu_total (baseline_allow_counter st))"
    by (auto simp: kmaps_wf_def ReadDropCounter_def ReadBaselineAllowCounter_def
        intro: ReadCounter_total)
  moreover have "accounted (fresh_kmaps n) = 0" by simp
  ultimately show ?thesis by (simp add: accounted_def)
qed

definition sc_ops :: "kop list" where
  "sc_ops = [Exec (sc_exec 10 1 1) sc_bprm, Block_Exec True (sc_key 1 2),
     Exec (sc_exec 11 10 2) sc_bprm, Thread_Exit (pid_tgid_of 10 10)]"

lemma sc_ops_ok: "list_all (kop_ok 1) sc_ops"
  by (simp add: sc_ops_def)

lemma exec_accounting_witness:
  "\<exists>drops hits. ReadDropCounter True (krun sc_ops (fresh_kmaps 1)) = Inr drops
    \<and> ReadBaselineAllowCounter True (krun sc_ops (fresh_kmaps 1)) = Inr hits
    \<and> word_of_nat (length (events (krun sc_ops (fresh_kmaps 1)))) + drops + hits
        = word_of_nat (length (filter is_exec sc_ops))"
  by (rule exec_accounting [OF sc_ops_ok refl])

section \<open>The maps\<close>

text \<open>
  C21: in every reachable state each map has distinct keys and respects the capacity of its
  definition, verdict keys are two hashes of 32 bytes with ALLOW or BLOCK, process hashes
  have 32 bytes, every submitted record has the size of \<open>struct event\<close>, and each counter has
  one cell per CPU.
\<close>
theorem maps_wellformed: "reachable n st \<Longrightarrow> kmaps_wf n st"
  by (rule reachable_kmaps_wf)

lemma sc_ops_reachable: "reachable 1 (krun sc_ops (fresh_kmaps 1))"
  by (rule reachable_krun [OF reachable.loaded sc_ops_ok])

lemma maps_wellformed_witness: "kmaps_wf 1 (krun sc_ops (fresh_kmaps 1))"
  by (rule maps_wellformed [OF sc_ops_reachable])

section \<open>Self-protection\<close>

text \<open>
  C22: once a PID is registered, no later operation of the kernel programs or the daemon
  exposes it: SIGKILL and SIGTERM to it from another process are denied after every run.
\<close>
theorem protected_stays_protected:
  assumes "RegisterProtectedPID ok pid st = Inr st'"
    and "core_read km (km_task km) target t_tgid = pid"
    and "ucast (drop_bit 32 sender) \<noteq> pid"
    and "sig = SIG_KILL \<or> sig = SIG_TERM"
  shows "zask_task_kill km sender target sig (krun ops st') = - EPERM"
proof -
  have "shielded pid st'"
    using RegisterProtectedPID_lookup [OF assms(1)] by (simp add: shielded_def)
  then have "shielded pid (krun ops st')" by (rule krun_shielded)
  then show ?thesis using assms(2-4) by (auto simp: task_kill_denied shielded_def)
qed

definition st_shield :: kmaps where
  "st_shield = (fresh_kmaps 1)\<lparr>protected_pids := [(99, 1)]\<rparr>"

lemma st_shield_registered: "RegisterProtectedPID True 99 (fresh_kmaps 1) = Inr st_shield"
  by (simp add: RegisterProtectedPID_def map_put_def bpf_hash_update_def fresh_kmaps_def
      st_shield_def PROTECTED_PIDS_MAX_def)

lemma protected_stays_protected_witness:
  "zask_task_kill (sc_mem 99 1) (pid_tgid_of 7 7) 0x40 SIG_TERM (krun sc_ops st_shield) = - EPERM"
  by (rule protected_stays_protected [OF st_shield_registered])
    (simp_all add: core_read_def sc_mem_def)

text \<open>
  The self-protection hook denies exactly SIGKILL and SIGTERM to a PID that has an entry
  (whatever its value) from a process other than the target, and lets every other signal
  through; it writes no map.
\<close>
theorem kill_decision:
  "zask_task_kill km sender target sig st =
     (if sig \<in> {SIG_KILL, SIG_TERM}
         \<and> core_read km (km_task km) target t_tgid \<in> fst ` set (protected_pids st)
         \<and> ucast (drop_bit 32 sender) \<noteq> core_read km (km_task km) target t_tgid
      then - EPERM else 0)
   \<and> kstep (Kill km sender target sig) st = st"
proof -
  have "p \<in> fst ` set m \<longleftrightarrow> bpf_map_lookup_elem m p \<noteq> None"
    for m :: "(u32 \<times> u32) list" and p
    by (simp add: bpf_map_lookup_elem_def map_of_eq_None_iff)
  moreover have "zask_task_kill km sender target sig st = 0
      \<or> zask_task_kill km sender target sig st = - EPERM"
    using task_kill_ret [of km sender target sig st] by simp
  ultimately show ?thesis by (auto simp: task_kill_denied)
qed

section \<open>Identity of processes\<close>

text \<open>
  C18: on every run in which executions are let through with a hash, the LRU map keeps its
  entries and only thread group leaders exit, \<open>pid_hash_map\<close> is the specified identity: the
  hash of the last binary each live process executed.
\<close>
theorem identity_refinement:
  assumes "regular_run ops (fresh_kmaps n)"
  shows "tracks (krun ops (fresh_kmaps n)) (intended_run ops (fresh_kmaps n) Map.empty)"
  by (rule tracks_run [OF tracks_fresh assms])

definition sc_regular :: "kop list" where
  "sc_regular = [Exec (sc_exec 10 1 1) sc_bprm, Exec (sc_exec 11 10 2) sc_bprm,
     Thread_Exit (pid_tgid_of 10 10)]"

lemma leader_exit_same [simp]: "leader_exit (pid_tgid_of p t) \<longleftrightarrow> p = t"
proof -
  have "(ucast (pid_tgid_of p t) :: u32) = t"
    by (rule bit_word_eqI)
      (auto simp: pid_tgid_of_def bit_ucast_iff bit_or_iff bit_push_bit_iff)
  then show ?thesis by (simp add: leader_exit_def)
qed

lemma exec_allowed_iff:
  "exec_allowed env bprm st \<longleftrightarrow> \<not> (hash_available env bprm
     \<and> bpf_map_lookup_elem (verdict_map st) (chain_key env bprm st) = Some VERDICT_BLOCK)"
  by (auto simp: exec_allowed_def bprm_check_ret EPERM_def)

lemma sc_regular_run: "regular_run sc_regular (fresh_kmaps 1)"
proof -
  have "exec_allowed env sc_bprm st" if "verdict_map st = []" for env st
    using that by (simp add: exec_allowed_iff bpf_map_lookup_elem_def)
  then show ?thesis
    by (simp add: sc_regular_def lru_stores_def bprm_check_pid_hash_map pid_update_def
        bpf_lru_update_def bpf_hash_update_def fresh_kmaps_def PID_HASH_MAP_MAX_def)
qed

lemma identity_refinement_witness:
  "tracks (krun sc_regular (fresh_kmaps 1)) (intended_run sc_regular (fresh_kmaps 1) Map.empty)"
  by (rule identity_refinement [OF sc_regular_run])



text \<open>
  A denied execution changes the identity of the process that attempted it: the process
  goes on with its old binary, but its children are judged as children of the binary it was
  not allowed to start.
\<close>
theorem blocked_exec_changes_identity:
  assumes "hash_available env bprm"
    and "fst (zask_bprm_check env bprm st) = - EPERM"
    and "lru_stores env st"
    and "par_pid env' = cur_pid env"
  shows "parent_hash_of env' (kstep (Exec env bprm) st) = child_hash_of env bprm
    \<and> intended (Exec env bprm) st ident = ident"
proof -
  have "bpf_map_lookup_elem (pid_hash_map (kstep (Exec env bprm) st)) (cur_pid env)
      = Some (child_hash_of env bprm)"
    using assms(1,3) by (simp add: bprm_check_pid_hash_map pid_update_lookup)
  moreover have "take HASH_SIZE (child_hash_of env bprm) = child_hash_of env bprm"
    using child_hash_of_wf [of env bprm] by (simp add: hash_wf_def)
  ultimately show ?thesis
    using assms(2,4) by (simp add: parent_hash_of_def exec_allowed_def EPERM_def)
qed

lemma blocked_exec_changes_identity_witness:
  "parent_hash_of (sc_exec 12 11 3) (kstep (Exec (sc_exec 11 10 2) sc_bprm) st_block)
     = child_hash_of (sc_exec 11 10 2) sc_bprm
    \<and> intended (Exec (sc_exec 11 10 2) sc_bprm) st_block [11 \<mapsto> sc_hash 1] = [11 \<mapsto> sc_hash 1]"
  by (rule blocked_exec_changes_identity)
    (simp_all add: bprm_check_ret lru_stores_def bpf_hash_update_def st_block_def
      bpf_map_lookup_elem_def sc_key_def PID_HASH_MAP_MAX_def sc_chain_key_known)

text \<open>
  An execution for which IMA has no hash leaves the process the identity of the binary
  it ran before: its children carry the old parent hash.
\<close>
theorem hashless_exec_keeps_identity:
  assumes "\<not> hash_available env bprm"
  shows "exec_allowed env bprm st
    \<and> pid_hash_map (kstep (Exec env bprm) st) = pid_hash_map st
    \<and> intended (Exec env bprm) st ident (cur_pid env) = None"
  using assms by (simp add: exec_allowed_iff bprm_check_pid_hash_map)

lemma hashless_exec_keeps_identity_witness:
  "exec_allowed (sc_env 10 1 (- 95, [])) sc_bprm st_block
    \<and> pid_hash_map (kstep (Exec (sc_env 10 1 (- 95, [])) sc_bprm) st_block) = pid_hash_map st_block
    \<and> intended (Exec (sc_env 10 1 (- 95, [])) sc_bprm) st_block [10 \<mapsto> sc_hash 1]
        (cur_pid (sc_env 10 1 (- 95, []))) = None"
  by (rule hashless_exec_keeps_identity) simp

text \<open>
  A process that has not executed a binary itself since the program was loaded (a forked
  worker, whatever its parent runs) has no identity, so its children are judged under the
  key with the unknown parent, after every run.
\<close>
theorem forked_process_unknown:
  assumes "list_all (\<lambda>op. \<not> execs_as (par_pid env) op) ops"
  shows "chain_key env bprm (krun ops (fresh_kmaps n))
      = \<lparr>ek_parent = zero_hash, ek_child = child_hash_of env bprm\<rparr>"
proof -
  have "unknown_to (par_pid env) (krun ops (fresh_kmaps n))"
    unfolding krun_def by (rule kunknown.run_inv [OF unknown_fresh assms])
  then show ?thesis by (rule parent_unknown_key)
qed

lemma forked_process_unknown_witness:
  "chain_key (sc_exec 21 20 2) sc_bprm (krun sc_ops (fresh_kmaps 1))
     = \<lparr>ek_parent = zero_hash, ek_child = child_hash_of (sc_exec 21 20 2) sc_bprm\<rparr>"
  by (rule forked_process_unknown) (simp add: sc_ops_def)

section \<open>Arguments\<close>

text \<open>
  With the arguments \<open>argv[0]\<close> and \<open>argv[1]\<close> in the task's memory, \<open>argv[0]\<close> shorter
  than 128 bytes and \<open>argv[1]\<close> inside the argument region, the event carries \<open>argv[1]\<close>, cut at
  255 bytes, as a NUL-terminated string.
\<close>
theorem script_argv_extracted:
  assumes "arg_region env = (a, b)" "a \<noteq> 0" "unat a + SCAN_MAX < 2 ^ 64"
    and "cstr_at (um_byte (he_mem env)) a name" "length name < SCAN_MAX"
    and "cstr_at (um_byte (he_mem env)) (a + word_of_nat (length name) + 1) arg"
    and "unat a + length name + 1 < unat b"
    and "event_wf e"
  shows "GetScriptArgv (fill_event env bprm m h p k e) = map byte_char (take (ARGV_MAX - 1) arg)"
proof -
  have len: "length (e_script_argv e) = ARGV_MAX" using assms(8) by (rule event_wfD)
  have "read_script_argv env (e_script_argv e)
      = store_bytes (e_script_argv e) (take (ARGV_MAX - 1) arg @ [0])"
    using assms len by (subst read_script_argv_at) (auto simp: ARGV_MAX_def)
  moreover have "0 \<notin> set (take (ARGV_MAX - 1) arg)"
    using assms(6) by (auto simp: cstr_at_def dest: in_set_takeD)
  ultimately show ?thesis
    using len
    by (simp add: GetScriptArgv_def fill_event_def nullTerminated_store ARGV_MAX_def Let_def
        split: prod.split)
qed

lemma sc_args_at:
  "cstr_at (um_byte (sc_mem 11 10)) 0x1000 (map char_byte ''sh'')"
  "cstr_at (um_byte (sc_mem 11 10)) 0x1003 (map char_byte ''-x'')"
  by (auto simp: cstr_at_def sc_mem_def sc_args_def bytes_at_def less_Suc_eq char_byte_def)

lemma script_argv_extracted_witness:
  "GetScriptArgv (fill_event (sc_exec 11 10 2) sc_bprm False True True (sc_key 1 2) sc_event)
     = map byte_char (take (ARGV_MAX - 1) (map char_byte ''-x''))"
  by (rule script_argv_extracted [where a = "0x1000" and b = "0x1006" and name = "map char_byte ''sh''"])
    (use sc_args_at in \<open>simp_all add: arg_region_def sc_exec_def sc_env_def core_read_def
       SCAN_MAX_def sc_mem_def\<close>)

text \<open>
  When the task has no argument region, or no NUL lies in the first 128 bytes of it, the
  field is not written: the record submitted carries the bytes the ring-buffer memory held
  before.
\<close>
theorem script_argv_stale:
  assumes "fst (arg_region env) = 0 \<or> snd (arg_region env) \<le> fst (arg_region env)
      \<or> (\<forall>i < SCAN_MAX. um_byte (he_mem env) (fst (arg_region env) + word_of_nat i) \<noteq> Some 0)"
    and "he_reserve env = Some e" "\<not> fast_allowed env bprm st"
  shows "\<exists>ev. events (snd (zask_bprm_check env bprm st)) = events st @ [ev]
    \<and> e_script_argv ev = e_script_argv e"
proof -
  have "read_script_argv env (e_script_argv e) = e_script_argv e"
    using assms(1) read_script_argv_no_mm read_script_argv_long_argv0 by blast
  then show ?thesis
    using assms(2,3)
    by (simp add: bprm_check_events event_of_def fill_event_def Let_def split: prod.split)
qed

text \<open>The task 11 with no arguments, and memory that still holds an older script path.\<close>

definition sc_stale :: event where
  "sc_stale = sc_event\<lparr>e_script_argv :=
     store_bytes (replicate ARGV_MAX 0) (map char_byte ''/tmp/old.py'')\<rparr>"

definition sc_noargs :: hook_env where
  "sc_noargs = (sc_exec 11 10 2)\<lparr>he_mem := (sc_mem 11 10)\<lparr>km_mm := Map.empty\<rparr>,
     he_reserve := Some sc_stale\<rparr>"

lemma sc_noargs_region: "fst (arg_region sc_noargs) = 0"
  by (simp add: arg_region_def sc_noargs_def sc_exec_def sc_env_def sc_mem_def core_read_def)

lemma script_argv_stale_witness:
  "\<exists>ev. events (snd (zask_bprm_check sc_noargs sc_bprm (fresh_kmaps 1))) = events (fresh_kmaps 1) @ [ev]
    \<and> e_script_argv ev = e_script_argv sc_stale"
proof (rule script_argv_stale)
  show "he_reserve sc_noargs = Some sc_stale" by (simp add: sc_noargs_def)
  show "\<not> fast_allowed sc_noargs sc_bprm (fresh_kmaps 1)"
    by (simp add: fast_allowed_def fresh_kmaps_def bpf_map_lookup_elem_def)
qed (simp add: sc_noargs_region)

end
