(* ===== verification/Channel_Properties.thy ===== *)
theory Channel_Properties
  imports Gate_Properties
begin

text \<open>
  The properties of the two channels between kernel and daemon: events through the ring
  buffer (encoding, decoding, strings) and verdicts through the maps (effect of a write,
  the full map, the feedback from an event to the next execution).
\<close>

section \<open>Events\<close>

lemma slice_all_bytes:
  assumes "EVENT_SIZE \<le> length raw"
  shows "take EVENT_SIZE raw =
    slice 0 8 raw @ slice 8 8 raw @ slice 16 4 raw @ slice 20 4 raw @ slice 24 4 raw @
    slice 28 4 raw @ slice 32 1 raw @ slice 33 1 raw @ slice 34 32 raw @ slice 66 1 raw @
    slice 67 32 raw @ slice 99 256 raw @ slice 355 256 raw @ slice 611 5 raw"
proof -
  have "take EVENT_SIZE raw = slice 0 EVENT_SIZE raw" by (simp add: slice_def)
  also have "\<dots> = slice 0 8 raw @ slice 8 8 raw @ slice 16 4 raw @ slice 20 4 raw @ slice 24 4 raw @
    slice 28 4 raw @ slice 32 1 raw @ slice 33 1 raw @ slice 34 32 raw @ slice 66 1 raw @
    slice 67 32 raw @ slice 99 256 raw @ slice 355 256 raw @ slice 611 5 raw"
    using slice_slice_append [of 355 256 raw 5] slice_slice_append [of 99 256 raw 261]
      slice_slice_append [of 67 32 raw 517] slice_slice_append [of 66 1 raw 549]
      slice_slice_append [of 34 32 raw 550] slice_slice_append [of 33 1 raw 582]
      slice_slice_append [of 32 1 raw 583] slice_slice_append [of 28 4 raw 584]
      slice_slice_append [of 24 4 raw 588] slice_slice_append [of 20 4 raw 592]
      slice_slice_append [of 16 4 raw 596] slice_slice_append [of 8 8 raw 600]
      slice_slice_append [of 0 8 raw 608]
    by (simp add: EVENT_SIZE_def)
  finally show ?thesis .
qed

lemma slice_single:
  assumes "off < length xs"
  shows "slice off (Suc 0) xs = [xs ! off]"
  using assms by (simp add: slice_def take_Suc_conv_app_nth hd_drop_conv_nth take_Suc)

lemma decode_event_bytes:
  assumes "event_wf e" "length pad = 5"
  shows "DecodeEvent (event_bytes pad e @ rest) = Inr e"
proof -
  have len: "length (event_bytes pad e) = 616"
    using length_event_bytes [OF assms(1), of pad] assms(2) by simp
  have sl: "slice off len' (event_bytes pad e @ rest) = slice off len' (event_bytes pad e)"
    if "off + len' \<le> 616" for off len'
    using that len by (simp add: slice_def)
  have "event_bytes pad e \<noteq> []" using len by auto
  then show ?thesis
    using len event_bytes_fields [OF assms(1), of pad]
    by (simp add: DecodeEvent_def EVENT_SIZE_def sl zask_consts le_decode_encode)
qed

lemma decode_inverse:
  assumes "DecodeEvent raw = Inr e"
  shows "EVENT_SIZE \<le> length raw" "event_wf e"
    "event_bytes (slice 611 5 raw) e = take EVENT_SIZE raw"
proof -
  show len: "EVENT_SIZE \<le> length raw"
    using assms by (auto simp: DecodeEvent_def not_less split: if_splits)
  show "event_wf e" using DecodeEvent_ok [OF len] assms by auto
  have l: "616 \<le> length raw" using len by (simp add: EVENT_SIZE_def)
  then have e8: "le_encode n (le_decode (slice off n raw) :: 'a::len word) = slice off n raw"
    if "8 * n \<le> LENGTH('a)" "off + n \<le> 616" for n off
    using that by (intro le_encode_decode) (simp_all add: length_slice)
  from assms len have "e = \<lparr>e_inode_number = le_decode (slice 0 8 raw),
      e_cgroup_id = le_decode (slice 8 8 raw), e_pid = le_decode (slice 16 4 raw),
      e_ppid = le_decode (slice 20 4 raw), e_uid = le_decode (slice 24 4 raw),
      e_device_id = le_decode (slice 28 4 raw), e_is_map_hit = le_decode (slice 32 1 raw),
      e_hash_available = le_decode (slice 33 1 raw), e_hash = slice 34 32 raw,
      e_parent_hash_available = le_decode (slice 66 1 raw), e_parent_hash = slice 67 32 raw,
      e_argv = slice 99 256 raw, e_script_argv = slice 355 256 raw\<rparr>"
    by (auto simp: DecodeEvent_def zask_consts not_less split: if_splits)
  then show "event_bytes (slice 611 5 raw) e = take EVENT_SIZE raw"
    using l
    by (simp add: event_bytes_def e8 slice_all_bytes [OF len] slice_single)
qed

text \<open>
  C27: decoding is the exact inverse of the layout: it yields an event precisely when the
  record has at least 616 bytes, and then the event is the one whose layout is the first 616
  of them, padding included; bytes behind are ignored.
\<close>
theorem decode_iff_layout:
  "DecodeEvent raw = Inr e \<longleftrightarrow>
     EVENT_SIZE \<le> length raw \<and> event_wf e
     \<and> event_bytes (slice 611 5 raw) e = take EVENT_SIZE raw"
proof
  assume "DecodeEvent raw = Inr e"
  then show "EVENT_SIZE \<le> length raw \<and> event_wf e
     \<and> event_bytes (slice 611 5 raw) e = take EVENT_SIZE raw"
    using decode_inverse by blast
next
  assume *: "EVENT_SIZE \<le> length raw \<and> event_wf e
     \<and> event_bytes (slice 611 5 raw) e = take EVENT_SIZE raw"
  then have "DecodeEvent (event_bytes (slice 611 5 raw) e @ drop EVENT_SIZE raw) = Inr e"
    by (intro decode_event_bytes) (auto simp: length_slice EVENT_SIZE_def)
  then show "DecodeEvent raw = Inr e" using * by simp
qed

lemma GetArgv_event_of:
  assumes "event_wf e" "cstr_at (km_byte (he_mem env)) (bprm_filename bprm) s"
  shows "GetArgv (event_of env bprm st e) = map byte_char (take (ARGV_MAX - 1) s)"
proof -
  have len: "length (e_argv e) = ARGV_MAX" using assms(1) by (rule event_wfD)
  have "e_argv (event_of env bprm st e) = store_bytes (e_argv e) (take (ARGV_MAX - 1) s @ [0])"
    using len read_str_into_at [OF assms(2), of "e_argv e"]
    by (simp add: event_of_def fill_event_def ARGV_MAX_def Let_def split: prod.split)
  moreover have "0 \<notin> set (take (ARGV_MAX - 1) s)"
    using assms(2) by (auto simp: cstr_at_def dest: in_set_takeD)
  ultimately show ?thesis
    using len by (simp add: GetArgv_def nullTerminated_store ARGV_MAX_def)
qed

text \<open>
  An event the kernel submits for a mapped file name reaches the daemon with that name,
  cut at 255 bytes: through the copy into the record, the bytes of the record and the
  decoding.
\<close>
theorem argv_delivered:
  assumes "kmaps_wf n st" "he_reserve env = Some e" "event_wf e" "length pad = 5"
    and "\<not> fast_allowed env bprm st"
    and "cstr_at (km_byte (he_mem env)) (bprm_filename bprm) s"
  shows "\<exists>ev ev'. events (snd (zask_bprm_check env bprm st)) = events st @ [ev]
    \<and> DecodeEvent (event_bytes pad ev) = Inr ev'
    \<and> GetArgv ev' = map byte_char (take (ARGV_MAX - 1) s)"
proof -
  let ?ev = "event_of env bprm st e"
  have wf: "event_wf ?ev" using assms(1,3) by (rule event_of_wf)
  have "GetArgv ?ev = map byte_char (take (ARGV_MAX - 1) s)"
    using assms(3,6) by (rule GetArgv_event_of)
  moreover have "DecodeEvent (event_bytes pad ?ev) = Inr ?ev"
    using decode_event_bytes [OF wf assms(4), of "[]"] by simp
  ultimately show ?thesis using assms(2,5) by (auto simp: bprm_check_events)
qed

lemma sc_filename: "cstr_at (km_byte (sc_mem 11 10)) 0x2000 (map char_byte ''/bin/sh'')"
  by (auto simp: cstr_at_def sc_mem_def bytes_at_def less_Suc_eq char_byte_def)

lemma argv_delivered_witness:
  "\<exists>ev ev'. events (snd (zask_bprm_check (sc_exec 11 10 2) sc_bprm st_block)) = events st_block @ [ev]
    \<and> DecodeEvent (event_bytes [9, 9, 9, 9, 9] ev) = Inr ev'
    \<and> GetArgv ev' = map byte_char (take (ARGV_MAX - 1) (map char_byte ''/bin/sh''))"
proof (rule argv_delivered [OF st_block_wf, where e = sc_event])
  show "cstr_at (km_byte (he_mem (sc_exec 11 10 2))) (bprm_filename sc_bprm)
      (map char_byte ''/bin/sh'')"
    using sc_filename by (simp add: sc_exec_def sc_env_def sc_bprm_def)
  show "\<not> fast_allowed (sc_exec 11 10 2) sc_bprm st_block"
    by (simp add: fast_allowed_def)
qed simp_all

section \<open>Verdicts\<close>

text \<open>
  With the verdict map full, a BLOCK for a chain it does not hold is lost: the write
  fails, whatever the system call does, and the next execution of that chain is let through.
\<close>
theorem full_map_fails_open:
  assumes "length (verdict_map st) = VERDICT_MAP_MAX"
    and "bpf_map_lookup_elem (verdict_map st) (chain_key env bprm st) = None"
  shows "BlockExec ok (chain_key env bprm st) st = Inl WriteVerdictMap
    \<and> fst (zask_bprm_check env bprm (kstep (Block_Exec ok (chain_key env bprm st)) st)) = 0"
proof -
  have err: "BlockExec ok (chain_key env bprm st) st = Inl WriteVerdictMap"
    using assms
    by (simp add: BlockExec_def map_put_def bpf_hash_update_def bpf_map_lookup_elem_def)
  then show ?thesis using assms by (simp add: keep_on_error_def bprm_check_ret)
qed

text \<open>A full map of ALLOW verdicts for the child 3.\<close>

definition st_full :: kmaps where
  "st_full = sc_state [] (map (\<lambda>i. (sc_key 0 3\<lparr>ek_parent := le_encode HASH_SIZE (word_of_nat i :: u32)\<rparr>,
     VERDICT_ALLOW)) [0..<VERDICT_MAP_MAX])"

lemma st_full_lookup:
  "bpf_map_lookup_elem (verdict_map st_full) (chain_key (sc_exec 11 10 2) sc_bprm st_full) = None"
proof -
  have "chain_key (sc_exec 11 10 2) sc_bprm st_full = sc_key 0 2"
    by (rule sc_chain_key_unknown) (simp add: st_full_def bpf_map_lookup_elem_def)
  then show ?thesis
    by (auto simp: bpf_map_lookup_elem_def map_of_eq_None_iff st_full_def sc_key_def)
qed

lemma full_map_fails_open_witness:
  "BlockExec True (chain_key (sc_exec 11 10 2) sc_bprm st_full) st_full = Inl WriteVerdictMap
    \<and> fst (zask_bprm_check (sc_exec 11 10 2) sc_bprm
         (kstep (Block_Exec True (chain_key (sc_exec 11 10 2) sc_bprm st_full)) st_full)) = 0"
  by (rule full_map_fails_open [OF _ st_full_lookup]) (simp add: st_full_def)

end
