(* ===== verification/Engine_Properties.thy ===== *)
theory Engine_Properties
  imports Policy_Engine Gate_Properties
begin

text \<open>
  The properties of the policy engine: the decision of the cascade and its effect on the
  kernel's later decisions, the modes, the cache, the rules and the resolution of scripts.
\<close>

section \<open>A concrete engine\<close>

text \<open>Rules of the form \<open>script_path.startsWith(p)\<close>; the program of a rule is \<open>p\<close>.\<close>

definition sc_cel :: "(string, string) cel" where
  "sc_cel = \<lparr>cel_Compile = Some, cel_OutputType_bool = (\<lambda>_. True), cel_Program = Some,
     cel_Eval = (\<lambda>p act. if HasPrefix (act_script_path act) p then Eval_True else Eval_Other)\<rparr>"

definition sc_rule :: "string \<Rightarrow> string \<Rightarrow> string rule" where
  "sc_rule pre action = \<lparr>rl_name = ''r'', rl_description = '''', rl_condition = pre,
     rl_action = action, rl_severity = ''high'', rl_program = pre\<rparr>"

definition sc_engine :: "string \<Rightarrow> string rule list \<Rightarrow> cache_entries \<Rightarrow> string Engine" where
  "sc_engine mode rules entries = \<lparr>
     en_cache = \<lparr>cc_entries = entries, cc_ttl = 100, cc_maxSize = 2\<rparr>,
     en_rules = \<lparr>re_rules = rules, re_stopped = False\<rparr>, en_loader = True, en_aiQueue = True,
     en_interpreters = buildInterpreterSet [''/bin/sh''], en_mode = mode\<rparr>"

definition sc_cmdline :: "u8 list list" where
  "sc_cmdline = map (map char_byte) [''sh'', ''-x'', ''/tmp/a'']"

definition sc_penv :: process_env where
  "sc_penv = \<lparr>pe_cmdline = Some (concat (map (\<lambda>a. a @ [0]) sc_cmdline)),
     pe_now_lookup = 10, pe_now_evict = 11, pe_now_add = 12, pe_order = rev,
     pe_sys_ok = True, pe_limiter_allow = True, pe_ctx_done = False, pe_select_send = True\<rparr>"

text \<open>Process 11, child of the binary 1, has executed the binary 2, \<open>/bin/sh\<close>.\<close>

definition sc_pevent :: event where
  "sc_pevent = sc_event\<lparr>e_pid := 11, e_ppid := 10, e_hash_available := 1, e_hash := sc_hash 2,
     e_parent_hash_available := 1, e_parent_hash := sc_hash 1,
     e_argv := store_bytes (replicate ARGV_MAX 0) (map char_byte ''/bin/sh'')\<rparr>"

definition sc_daemon :: "kmaps \<Rightarrow> daemon" where
  "sc_daemon st = \<lparr>dm_maps = st, dm_kills = [], dm_queue = [], dm_queue_cap = 1\<rparr>"

text \<open>The parent 10 runs the binary 1; no verdict is stored.\<close>

definition st_open :: kmaps where
  "st_open = sc_state [(10, sc_hash 1)] []"

lemma ARGV_MAX_256 [simp]: "ARGV_MAX = 256" by (simp add: ARGV_MAX_def)

lemma sc_pevent_simps [simp]:
  "e_pid sc_pevent = 11" "e_hash_available sc_pevent = 1" "ExecKey sc_pevent = sc_key 1 2"
  "length (e_script_argv sc_pevent) = ARGV_MAX"
  by (simp_all add: sc_pevent_def ExecKey_def sc_key_def sc_event_def)

lemma sc_daemon_simps [simp]:
  "dm_maps (sc_daemon st) = st" "dm_kills (sc_daemon st) = []" "dm_queue (sc_daemon st) = []"
  "dm_queue_cap (sc_daemon st) = 1"
  by (simp_all add: sc_daemon_def)

lemma sc_engine_simps [simp]:
  "en_mode (sc_engine mode rules cache) = mode" "en_loader (sc_engine mode rules cache)"
  "en_aiQueue (sc_engine mode rules cache)"
  "en_rules (sc_engine mode rules cache) = \<lparr>re_rules = rules, re_stopped = False\<rparr>"
  "en_cache (sc_engine mode rules cache) = \<lparr>cc_entries = cache, cc_ttl = 100, cc_maxSize = 2\<rparr>"
  "en_interpreters (sc_engine mode rules cache) = buildInterpreterSet [''/bin/sh'']"
  by (simp_all add: sc_engine_def)

lemma sc_penv_simps [simp]:
  "pe_sys_ok sc_penv" "pe_limiter_allow sc_penv" "\<not> pe_ctx_done sc_penv"
  "pe_now_lookup sc_penv = 10" "pe_now_evict sc_penv = 11" "pe_now_add sc_penv = 12"
  "pe_order sc_penv = rev"
  by (simp_all add: sc_penv_def)

lemma sc_pevent_argv: "GetArgv sc_pevent = ''/bin/sh''"
proof -
  have "e_argv sc_pevent = map char_byte ''/bin/sh'' @ 0 # replicate 248 0"
    by (simp add: sc_pevent_def store_bytes_def numeral_eq_Suc)
  moreover have "0 \<notin> set (map char_byte ''/bin/sh'')" by (auto simp: char_byte_zero)
  ultimately show ?thesis
    using nullTerminated_string [of "map char_byte ''/bin/sh''"] by (simp add: GetArgv_def)
qed

lemma sc_interpreter: "is_interpreter (sc_engine mode rules cache) (Base (GetArgv sc_pevent))"
  by (simp add: is_interpreter_def sc_pevent_argv buildInterpreterSet_lookup Base_def slash_def)

lemma sc_no_nul: "\<forall>a \<in> set sc_cmdline. 0 \<notin> set a"
  by (auto simp: sc_cmdline_def char_byte_zero)

lemma sc_find: "find script_candidate (map (map byte_char) (tl sc_cmdline)) = Some ''/tmp/a''"
  by (simp add: sc_cmdline_def script_candidate_def comp_def)

lemma sc_script_path: "script_path_of sc_penv sc_pevent = ''/tmp/a''"
proof -
  have "FindScriptPath 11 (pe_cmdline sc_penv) = findScriptInArgs (tl sc_cmdline)"
    unfolding sc_penv_def process_env.simps
    by (rule FindScriptPath_args) (simp_all add: sc_no_nul, simp add: sc_cmdline_def)
  then show ?thesis by (simp add: script_path_of_def findScriptInArgs_find sc_find Let_def)
qed

lemma sc_script_event: "GetScriptArgv (snd (resolve_script sc_penv (sc_engine mode rules cache) sc_pevent))
    = ''/tmp/a''"
proof -
  have "GetScriptArgv (setScriptArgv sc_pevent ''/tmp/a'') = take ARGV_MAX ''/tmp/a''"
    by (rule setScriptArgv_read) simp_all
  then show ?thesis
    using sc_interpreter [of mode rules cache]
    by (auto simp: resolve_script_def sc_script_path Let_def)
qed

lemma sc_rule_for:
  "rule_for sc_cel sc_penv sc_pevent (sc_engine mode [sc_rule ''/tmp/'' action] cache)
     = Some (sc_rule ''/tmp/'' action)"
  "rule_for sc_cel sc_penv sc_pevent (sc_engine mode [] cache) = None"
  using sc_script_event [of mode "[sc_rule ''/tmp/'' action]" cache]
  by (simp_all add: rule_for_def Match_def activation_of_def sc_cel_def sc_rule_def HasPrefix_def)

lemma sc_rule_action [simp]: "rl_action (sc_rule p a) = a" "rl_name (sc_rule p a) = ''r''"
  by (simp_all add: sc_rule_def)

lemma sc_not_cached: "\<not> cached sc_penv sc_pevent (sc_engine mode rules [])"
  by (simp add: cached_def Contains_def)

section \<open>The decision\<close>



lemma sc_open_write:
  "BlockExec True (sc_key 1 2) st_open = Inr (sc_state [(10, sc_hash 1)] [(sc_key 1 2, VERDICT_BLOCK)])"
  "AllowExec True (sc_key 1 2) st_open = Inr (sc_state [(10, sc_hash 1)] [(sc_key 1 2, VERDICT_ALLOW)])"
  by (simp_all add: BlockExec_def AllowExec_def map_put_def bpf_hash_update_def st_open_def
      VERDICT_MAP_MAX_def) (simp_all add: sc_state_def)


text \<open>
  Monitor mode enforces nothing: \<open>Process\<close> kills no process and stores no BLOCK that was
  not there, whatever the rules say.
\<close>
theorem monitor_never_blocks:
  assumes "en_mode en = ModeMonitor"
  shows "case Process cel env ev en dm of (v, en', dm') \<Rightarrow>
     dm_kills dm' = dm_kills dm \<and>
     (bpf_map_lookup_elem (verdict_map (dm_maps dm')) k = Some VERDICT_BLOCK \<longrightarrow>
        bpf_map_lookup_elem (verdict_map (dm_maps dm)) k = Some VERDICT_BLOCK)"
  using assms
  by (auto simp: Process_tiers Let_def rule_outcome_def enforce_kills enforce_verdict
      promote_verdict split: option.split if_splits)

lemma monitor_never_blocks_witness:
  "case Process sc_cel sc_penv sc_pevent (sc_engine ''monitor'' [sc_rule ''/tmp/'' ''BLOCK''] [])
      (sc_daemon st_open) of (v, en', dm') \<Rightarrow>
     dm_kills dm' = dm_kills (sc_daemon st_open) \<and>
     (bpf_map_lookup_elem (verdict_map (dm_maps dm')) (sc_key 1 2) = Some VERDICT_BLOCK \<longrightarrow>
        bpf_map_lookup_elem (verdict_map (dm_maps (sc_daemon st_open))) (sc_key 1 2)
          = Some VERDICT_BLOCK)"
  by (rule monitor_never_blocks) (simp add: ModeMonitor_def)

text \<open>
  An event without an IMA hash leaves no trace under the zero key: the kernel maps, the
  cache and the rules are as before; a BLOCK rule still kills.
\<close>
theorem hashless_event_leaves_no_verdict:
  assumes "e_hash_available ev = 0"
  shows "case Process cel env ev en dm of (v, en', dm') \<Rightarrow>
     en' = en \<and> dm_maps dm' = dm_maps dm \<and> ve_Tier v \<noteq> 1 \<and>
     dm_kills dm' = dm_kills dm @
       (if ve_Action v = ActionBlock \<and> en_mode en \<noteq> ModeMonitor then [e_pid ev] else [])"
  using assms route_action [of env en "snd (resolve_script env en ev)" dm]
  by (auto simp: Process_tiers Let_def cached_def looked_up_def remember_def promote_def
      rule_outcome_def enforce_def split: option.split)

lemma hashless_event_leaves_no_verdict_witness:
  "case Process sc_cel sc_penv (sc_pevent\<lparr>e_hash_available := 0\<rparr>)
      (sc_engine ''lockdown'' [sc_rule '''' ''BLOCK''] []) (sc_daemon st_open) of (v, en', dm') \<Rightarrow>
     en' = sc_engine ''lockdown'' [sc_rule '''' ''BLOCK''] []
     \<and> dm_maps dm' = dm_maps (sc_daemon st_open) \<and> ve_Tier v \<noteq> 1 \<and>
     dm_kills dm' = dm_kills (sc_daemon st_open) @
       (if ve_Action v = ActionBlock
           \<and> en_mode (sc_engine ''lockdown'' [sc_rule '''' ''BLOCK''] []) \<noteq> ModeMonitor
        then [e_pid (sc_pevent\<lparr>e_hash_available := 0\<rparr>)] else [])"
  by (rule hashless_event_leaves_no_verdict) simp

section \<open>Allowing a chain\<close>

text \<open>What the hook does with an execution of a chain that has an ALLOW verdict.\<close>

lemma allowed_silent:
  assumes "bpf_map_lookup_elem (verdict_map st) (chain_key henv bprm st) = Some VERDICT_ALLOW"
    and "hash_available henv bprm"
  shows "fst (zask_bprm_check henv bprm st) = 0"
    "events (snd (zask_bprm_check henv bprm st)) = events st"
  using assms by (simp_all add: bprm_check_ret bprm_check_events fast_allowed_def)

text \<open>
  An event no rule decides, or an ALLOW rule does, silences its exec chain: after
  \<open>Process\<close> every execution of that chain is let through by the kernel without an event,
  whatever its arguments and its script are; for an unmatched event this is before any
  verdict of the AI.
\<close>
theorem allowed_goes_silent:
  assumes "en_loader en" "e_hash_available ev \<noteq> 0" "\<not> cached env ev en"
    and "case rule_for cel env ev en of None \<Rightarrow> True | Some r \<Rightarrow> rl_action r = ''ALLOW''"
    and "AllowExec (pe_sys_ok env) (ExecKey ev) (dm_maps dm) = Inr maps"
  shows "let st = dm_maps (snd (snd (Process cel env ev en dm))) in
     \<forall>henv bprm. hash_available henv bprm \<and> chain_key henv bprm st = ExecKey ev \<longrightarrow>
        fst (zask_bprm_check henv bprm st) = 0 \<and> events (snd (zask_bprm_check henv bprm st)) = events st"
proof -
  let ?st = "dm_maps (snd (snd (Process cel env ev en dm)))"
  have "bpf_map_lookup_elem (verdict_map ?st) (ExecKey ev) = Some VERDICT_ALLOW"
    using assms
    by (auto simp: Process_tiers Let_def rule_outcome_def promote_verdict actionBlockLabel_def
        actionAllowLabel_def split: option.splits)
  then show ?thesis by (simp add: Let_def allowed_silent)
qed

lemma allowed_goes_silent_witness:
  "let st = dm_maps (snd (snd (Process sc_cel sc_penv sc_pevent (sc_engine ''lockdown'' [] [])
                                 (sc_daemon st_open)))) in
     \<forall>henv bprm. hash_available henv bprm \<and> chain_key henv bprm st = ExecKey sc_pevent \<longrightarrow>
        fst (zask_bprm_check henv bprm st) = 0 \<and> events (snd (zask_bprm_check henv bprm st)) = events st"
  by (rule allowed_goes_silent) (simp_all add: sc_not_cached sc_rule_for sc_open_write)

text \<open>
  A reload does not reach the chains the kernel already allows: the cache is emptied
  and the new rules would block the event, but the hook lets the execution through without
  submitting one.
\<close>
theorem reload_misses_allowed_chain:
  assumes "fst (LoadFromFile cel um (Some Clear) content (en_rules en, en_cache en)) = None"
    and "bpf_map_lookup_elem (verdict_map (dm_maps dm)) (ExecKey ev) = Some VERDICT_ALLOW"
    and "rule_for cel env ev (reload cel um (Sighup content) en) = Some r" "rl_action r = ''BLOCK''"
    and "hash_available henv bprm" "chain_key henv bprm (dm_maps dm) = ExecKey ev"
  shows "ve_Action (fst (Process cel env ev (reload cel um (Sighup content) en) dm)) = ActionBlock
    \<and> fst (zask_bprm_check henv bprm (dm_maps dm)) = 0
    \<and> events (snd (zask_bprm_check henv bprm (dm_maps dm))) = events (dm_maps dm)"
proof -
  have "cc_entries (en_cache (reload cel um (Sighup content) en)) = []"
    using assms(1)
    by (auto simp: reload_def LoadFromFile_def LoadFromBytes_def split: option.splits sum.splits)
  then have "\<not> cached env ev (reload cel um (Sighup content) en)"
    by (simp add: cached_def Contains_lookup)
  then have "ve_Action (fst (Process cel env ev (reload cel um (Sighup content) en) dm))
      = ActionBlock"
    using assms(3,4) by (simp add: Process_tiers Let_def rule_outcome_def actionBlockLabel_def)
  then show ?thesis using assms(2,5,6) by (simp add: allowed_silent)
qed

text \<open>A file that holds one rule, which blocks scripts in /tmp.\<close>

definition sc_um :: "nat \<Rightarrow> rule_spec list option" where
  "sc_um d = Some [\<lparr>rl_name = ''r'', rl_description = '''', rl_condition = ''/tmp/'',
     rl_action = ''BLOCK'', rl_severity = ''high''\<rparr>]"

lemma sc_reload:
  "fst (LoadFromFile sc_cel sc_um (Some Clear) (Some 0) (en_rules en, en_cache en)) = None"
  "reload sc_cel sc_um (Sighup (Some 0)) (sc_engine mode rules cache)
     = sc_engine mode [sc_rule ''/tmp/'' ''BLOCK''] []"
  by (simp_all add: LoadFromFile_def LoadFromBytes_def sc_um_def compile_rule_def sc_cel_def
      reload_def sc_engine_def sc_rule_def rule_spec.defs Clear_def)

lemma reload_misses_allowed_chain_witness:
  "ve_Action (fst (Process sc_cel sc_penv sc_pevent
       (reload sc_cel sc_um (Sighup (Some 0)) (sc_engine ''lockdown'' [] [(sc_key 1 2, 50)]))
       (sc_daemon st_allow))) = ActionBlock
    \<and> fst (zask_bprm_check (sc_exec 11 10 2) sc_bprm (dm_maps (sc_daemon st_allow))) = 0
    \<and> events (snd (zask_bprm_check (sc_exec 11 10 2) sc_bprm (dm_maps (sc_daemon st_allow))))
        = events (dm_maps (sc_daemon st_allow))"
proof (rule reload_misses_allowed_chain [OF sc_reload(1)])
  show "rule_for sc_cel sc_penv sc_pevent
      (reload sc_cel sc_um (Sighup (Some 0)) (sc_engine ''lockdown'' [] [(sc_key 1 2, 50)]))
      = Some (sc_rule ''/tmp/'' ''BLOCK'')"
    by (simp only: sc_reload(2) sc_rule_for(1))
qed (simp_all add: sc_chain_key_known)

text \<open>
  \<open>Process\<close> does not look at the map-hit flag, so the report of a denied execution must
  not reach it: where no rule matches and the cache has no entry, it overwrites the BLOCK
  verdict of the chain with ALLOW, and the next execution is let through.
\<close>
theorem processed_denial_unblocks:
  assumes "bpf_map_lookup_elem (verdict_map (dm_maps dm)) (ExecKey ev) = Some VERDICT_BLOCK"
    and "e_is_map_hit ev = 1" "e_hash_available ev \<noteq> 0"
    and "en_loader en" "\<not> cached env ev en" "rule_for cel env ev en = None" "pe_sys_ok env"
    and "hash_available henv bprm" "chain_key henv bprm (dm_maps dm) = ExecKey ev"
  shows "fst (zask_bprm_check henv bprm (dm_maps dm)) = - EPERM
    \<and> fst (zask_bprm_check henv bprm (dm_maps (snd (snd (Process cel env ev en dm))))) = 0"
proof -
  let ?st = "dm_maps (snd (snd (Process cel env ev en dm)))"
  obtain m where "AllowExec (pe_sys_ok env) (ExecKey ev) (dm_maps dm) = Inr m"
    using AllowExec_ok_iff [of "pe_sys_ok env" "ExecKey ev" "dm_maps dm"] assms(1,7) by auto
  then have "bpf_map_lookup_elem (verdict_map ?st) (ExecKey ev) = Some VERDICT_ALLOW"
    using assms by (simp add: Process_tiers Let_def promote_verdict)
  moreover have "chain_key henv bprm ?st = ExecKey ev"
    using assms(9) Process_verdicts_only [of dm cel env ev en]
    by (simp add: verdicts_only_def chain_key_def parent_hash_of_def)
  ultimately show ?thesis using assms by (simp add: bprm_check_ret)
qed

lemma processed_denial_unblocks_witness:
  "fst (zask_bprm_check (sc_exec 11 10 2) sc_bprm (dm_maps (sc_daemon st_block))) = - EPERM
    \<and> fst (zask_bprm_check (sc_exec 11 10 2) sc_bprm (dm_maps (snd (snd (Process sc_cel sc_penv
         (sc_pevent\<lparr>e_is_map_hit := 1\<rparr>) (sc_engine ''lockdown'' [] []) (sc_daemon st_block)))))) = 0"
proof -
  have same: "ExecKey (sc_pevent\<lparr>e_is_map_hit := 1\<rparr>) = sc_key 1 2"
    by (simp add: ExecKey_def sc_pevent_def sc_event_def sc_key_def)
  show ?thesis
    by (rule processed_denial_unblocks)
      (simp_all add: same sc_chain_key_known cached_def Contains_def rule_for_def Match_def)
qed

text \<open>
  A matching rule whose action is any other string than BLOCK and ALLOW (ALERT, or a
  misspelling) only reports: nothing is enforced, stored, cached or queued for the AI.
\<close>
theorem other_action_only_reports:
  assumes "\<not> cached env ev en" "rule_for cel env ev en = Some r"
    and "rl_action r \<noteq> ''BLOCK''" "rl_action r \<noteq> ''ALLOW''"
  shows "case Process cel env ev en dm of (v, en', dm') \<Rightarrow>
     ve_Action v = ActionAlert \<and> ve_Tier v = 2 \<and> dm' = dm \<and>
     (\<forall>k t. map_of (cc_entries (en_cache en')) k = Some t
        \<longrightarrow> map_of (cc_entries (en_cache en)) k = Some t)"
  using assms
  by (auto simp: Process_tiers Let_def rule_outcome_def actionBlockLabel_def
      actionAllowLabel_def looked_up_def Contains_entries split: if_splits)

lemma other_action_only_reports_witness:
  "case Process sc_cel sc_penv sc_pevent (sc_engine ''lockdown'' [sc_rule ''/tmp/'' ''block''] [])
      (sc_daemon st_open) of (v, en', dm') \<Rightarrow>
     ve_Action v = ActionAlert \<and> ve_Tier v = 2 \<and> dm' = sc_daemon st_open \<and>
     (\<forall>k t. map_of (cc_entries (en_cache en')) k = Some t
        \<longrightarrow> map_of (cc_entries (en_cache (sc_engine ''lockdown'' [sc_rule ''/tmp/'' ''block''] []))) k
              = Some t)"
  by (rule other_action_only_reports [OF sc_not_cached sc_rule_for(1)]) simp_all

section \<open>The cache\<close>

text \<open>
  C39: a hit of the cache has a reason: in any history of the cache, a key found at some
  time was added, the cache was not cleared since, and the addition was no longer ago than
  the time to live.
\<close>
theorem cache_hit_justified:
  assumes "list_all cache_op_ok ops"
    and "fst (Contains now key (fold cache_step ops (NewContentCache maxSize ttl)))"
  shows "\<exists>ops1 order n n' ops2. ops = ops1 @ Cache_Add order n n' key # ops2
    \<and> \<not> list_ex cache_clears ops2 \<and> now \<le> n' + ttl"
proof -
  obtain t where t: "map_of (cc_entries (fold cache_step ops (NewContentCache maxSize ttl))) key = Some t"
    "now \<le> t"
    using assms(2) by (auto simp: Contains_lookup)
  then obtain ops1 a ops2 where a: "ops = ops1 @ a # ops2" "cache_adds ttl a = Some (key, t)"
    "\<not> list_ex cache_clears ops2"
    using ccache.run_expiry [OF cache_of_new assms(1) t(1)] by (auto simp: NewContentCache_def)
  then obtain order n n' where "a = Cache_Add order n n' key" "t = n' + ttl"
    by (cases a) auto
  with a t(2) show ?thesis by blast
qed

lemma cache_hit_justified_witness:
  "\<exists>ops1 order n n' ops2.
     [Cache_Add rev 0 1 (sc_key 1 2), Cache_Contains 5 (sc_key 1 3)]
       = ops1 @ Cache_Add order n n' (sc_key 1 2) # ops2
     \<and> \<not> list_ex cache_clears ops2 \<and> 50 \<le> n' + 100"
  by (rule cache_hit_justified [where maxSize = 2])
    (simp_all add: order_ok_def Contains_lookup Contains_entries Add_lookup_same
      NewContentCache_def)

text \<open>
  Adding to a full cache without expired entries removes exactly one entry, one with
  the earliest expiry, and keeps the others; the size never exceeds the capacity (one entry
  for a capacity below one).
\<close>
theorem cache_evicts_oldest:
  assumes "cache_wf c" "order_ok order" "Size c = cc_maxSize c" "0 < Size c"
    and "\<forall>(j, e) \<in> set (cc_entries c). now \<le> e"
  shows "Size (Add order now now' key c) \<le> cc_maxSize c \<and>
    (\<exists>k t. (k, t) \<in> set (cc_entries c) \<and> (\<forall>(j, e) \<in> set (cc_entries c). t \<le> e)
       \<and> map_of (cc_entries (Add order now now' key c)) =
           ((map_of (cc_entries c))(k := None))(key \<mapsto> now' + cc_ttl c))"
proof -
  let ?m = "cc_entries c"
  have wf: "cache_wf (Add order now now' key c)" using assms(1,2) by (rule Add_wf)
  have d: "distinct (map fst ?m)" and cap: "int (length ?m) = cc_maxSize c" and ne: "?m \<noteq> []"
    using assms(1,3,4) by (auto simp: cache_wf_def Size_def)
  have "evict_expired now (order ?m) ?m = ?m"
    using assms(5) evict_expired_self [OF d order_set [OF assms(2)]]
    by (force simp: filter_id_conv)
  moreover obtain f k t where fo: "find_oldest (order ?m) (True, zero_exec_key, 0) = (f, k, t)"
    by (metis prod_cases3)
  ultimately have "make_room order now (cc_maxSize c) ?m = AList.delete k ?m"
    using cap by (simp add: make_room_def Let_def)
  then have "map_of (cc_entries (Add order now now' key c)) =
      ((map_of ?m)(k := None))(key \<mapsto> now' + cc_ttl c)"
    by (simp add: Add_make_room update_conv' delete_conv')
  moreover have os: "set (order ?m) = set ?m" using assms(2) by (rule order_set)
  have "order ?m \<noteq> []" using os ne by auto
  then have "(k, t) \<in> set ?m" "\<forall>(j, e) \<in> set ?m. t \<le> e"
    using find_oldest_min [OF _ fo] os by auto
  moreover have "1 \<le> cc_maxSize c" using cap ne by (cases ?m) auto
  then have "Size (Add order now now' key c) \<le> cc_maxSize c"
    using wf by (simp add: cache_wf_def max_def)
  ultimately show ?thesis by blast
qed

definition sc_cache :: ContentCache where
  "sc_cache = \<lparr>cc_entries = [(sc_key 1 2, 50), (sc_key 1 3, 40)], cc_ttl = 100, cc_maxSize = 2\<rparr>"

lemma cache_evicts_oldest_witness:
  "Size (Add rev 30 31 (sc_key 1 4) sc_cache) \<le> cc_maxSize sc_cache \<and>
    (\<exists>k t. (k, t) \<in> set (cc_entries sc_cache) \<and> (\<forall>(j, e) \<in> set (cc_entries sc_cache). t \<le> e)
       \<and> map_of (cc_entries (Add rev 30 31 (sc_key 1 4) sc_cache)) =
           ((map_of (cc_entries sc_cache))(k := None))(sc_key 1 4 \<mapsto> 31 + cc_ttl sc_cache))"
  by (rule cache_evicts_oldest) (simp_all add: sc_cache_def cache_wf_def Size_def order_ok_def)

section \<open>The rules\<close>

text \<open>
  Loading is all or nothing: a file with a rule that lacks a condition, does not
  compile or is not boolean leaves the rules and the cache as they were; otherwise exactly
  the file's rules, in their order, replace the old ones and the cache is emptied.
\<close>
theorem load_all_or_nothing:
  "case LoadFromBytes cel um (Some Clear) data (re, cache) of (err, re', cache') \<Rightarrow>
     case err of
       Some e \<Rightarrow> re' = re \<and> cache' = cache
         \<and> (um data = None \<or> (\<exists>specs r. um data = Some specs \<and> r \<in> set specs
              \<and> compile_rule cel r = Inl e))
     | None \<Rightarrow> (\<exists>specs. um data = Some specs
          \<and> map rule_spec.truncate (re_rules re') = map rule_spec.truncate specs
          \<and> list_all (\<lambda>r. rl_condition r \<noteq> '''') specs)
         \<and> re_stopped re' = re_stopped re \<and> cache' = Clear cache"
proof (cases "um data")
  case None
  then show ?thesis by (simp add: LoadFromBytes_def)
next
  case (Some specs)
  show ?thesis
  proof (cases "compile_rules cel specs")
    case (Inl e)
    then show ?thesis
      using Some compile_rules_Inl [OF Inl] by (auto simp: LoadFromBytes_def)
  next
    case (Inr cs)
    have "\<forall>r \<in> set specs. rl_condition r \<noteq> ''''"
      using compile_rules_Inr [OF Inr] compile_rule_Inr(2)
      by (fastforce simp: list_all2_conv_all_nth in_set_conv_nth)
    then show ?thesis
      using Some Inr compile_rules_names [OF Inr] by (simp add: LoadFromBytes_def list_all_iff)
  qed
qed

section \<open>Scripts\<close>

text \<open>
  For an interpreter that is still alive, the script is the first argument after
  \<open>argv[0]\<close> that is neither empty nor a flag, whether or not it looks like a path, and the
  rules see it in \<open>script_path\<close>, cut at 256 bytes.
\<close>
theorem interpreter_script_resolved:
  assumes "is_interpreter en (Base (GetArgv ev))" "e_pid ev \<noteq> 0"
    and "pe_cmdline env = Some (concat (map (\<lambda>a. a @ [0]) args))" "args \<noteq> []"
    and "\<forall>a \<in> set args. 0 \<notin> set a"
    and "find script_candidate (map (map byte_char) (tl args)) = Some s"
    and "length (e_script_argv ev) = ARGV_MAX"
  shows "fst (resolve_script env en ev) = s
    \<and> GetScriptArgv (snd (resolve_script env en ev)) = take ARGV_MAX s
    \<and> ExecKey (snd (resolve_script env en ev)) = ExecKey ev"
proof -
  have f: "FindScriptPath (e_pid ev) (pe_cmdline env) = s"
    unfolding assms(3) using FindScriptPath_args [OF assms(2,4,5)] assms(6)
    by (simp add: findScriptInArgs_find)
  have "s \<in> set (map (map byte_char) (tl args))" "script_candidate s"
    using assms(6) by (auto simp: find_Some_iff)
  then obtain a where a: "a \<in> set args" "s = map byte_char a" "s \<noteq> ''''"
    by (cases args) (auto simp: script_candidate_def)
  have "CHR 0x00 \<notin> set s"
  proof
    assume "CHR 0x00 \<in> set s"
    then obtain b where "b \<in> set a" "byte_char b = CHR 0x00" using a(2) by auto
    then have "b = 0" by (metis char_byte_char char_byte_zero)
    with \<open>b \<in> set a\<close> a(1) assms(5) show False by auto
  qed
  note read = setScriptArgv_read [OF assms(7) this]
  have sp: "script_path_of env ev = s" using f a(3) by (simp add: script_path_of_def)
  have "length (GetScriptArgv ev) \<le> ARGV_MAX"
    using assms(7) first_nul_le [of "e_script_argv ev"]
    by (simp add: GetScriptArgv_def nullTerminatedInt8ToString_def)
  then show ?thesis
    using assms(1) sp a(3) read by (auto simp: resolve_script_def Let_def)
qed

lemma interpreter_script_resolved_witness:
  "fst (resolve_script sc_penv (sc_engine ''lockdown'' [] []) sc_pevent) = ''/tmp/a''
    \<and> GetScriptArgv (snd (resolve_script sc_penv (sc_engine ''lockdown'' [] []) sc_pevent))
        = take ARGV_MAX ''/tmp/a''
    \<and> ExecKey (snd (resolve_script sc_penv (sc_engine ''lockdown'' [] []) sc_pevent))
        = ExecKey sc_pevent"
  by (rule interpreter_script_resolved [OF sc_interpreter _ _ _ sc_no_nul sc_find])
    (simp_all add: sc_penv_def sc_cmdline_def)

end
