(* ===== verification/AI_Properties.thy ===== *)
theory AI_Properties
  imports Worker_Pool Config Channel_Properties Engine_Properties
begin

text \<open>
  The properties of tier 3: what a verdict of the AI does to the kernel's decisions, what a
  failure does, the books of the queue, the answers that are accepted, the retries and the
  configuration.
\<close>

section \<open>Concrete values\<close>

definition sc_pool :: "string \<Rightarrow> bool \<Rightarrow> WorkerPool" where
  "sc_pool mode failOpen = \<lparr>wp_config = \<lparr>pc_Mode = mode, pc_Workers = 1, pc_QueueSize = 1,
       pc_RiskThreshold = Fin (1 / 2), pc_FailOpen = failOpen\<rparr>,
     wp_loader = True, wp_onVerdict = False, wp_queueDepth = 0, wp_processedTotal = 0,
     wp_verdicts = []\<rparr>"

definition sc_result :: "rat \<Rightarrow> AnalysisResult" where
  "sc_result x = \<lparr>ar_Model = ''m'', ar_Verdict = \<lparr>vd_Reasoning = ''r'', vd_Risk = Fin x\<rparr>,
     ar_Duration = 0\<rparr>"

lemma sc_pool_simps [simp]:
  "pc_Mode (wp_config (sc_pool mode fo)) = mode" "wp_loader (sc_pool mode fo)"
  "pc_RiskThreshold (wp_config (sc_pool mode fo)) = Fin (1 / 2)"
  "pc_FailOpen (wp_config (sc_pool mode fo)) = fo"
  by (simp_all add: sc_pool_def)

section \<open>Verdicts of the AI\<close>


lemma st_open_wf: "kmaps_wf 1 st_open"
  by (simp add: st_open_def sc_state_def kmaps_wf_def bpf_map_wf_def percpu_wf_def
      fresh_kmaps_def PID_HASH_MAP_MAX_def)

lemma sc_open_key [simp]: "chain_key (sc_exec 11 10 2) sc_bprm st_open = sc_key 1 2"
  by (rule sc_chain_key_known) (simp add: st_open_def bpf_map_lookup_elem_def)


text \<open>
  Monitor mode does not hold for failures: with \<open>failOpen\<close> off a worker kills the
  process exactly when the analysis fails, in monitor mode as in lockdown; verdicts kill
  nothing there and store no BLOCK.
\<close>
theorem monitor_kills_on_failure:
  assumes "pc_Mode (wp_config wp) = ''monitor''" "\<not> pc_FailOpen (wp_config wp)"
  shows "case processEvent sys_ok outcome ev wp dm of (wp', dm') \<Rightarrow>
    dm_kills dm' = dm_kills dm @ (case outcome of Inl _ \<Rightarrow> [e_pid ev] | Inr _ \<Rightarrow> [])
    \<and> (bpf_map_lookup_elem (verdict_map (dm_maps dm')) k = Some VERDICT_BLOCK \<longrightarrow>
         bpf_map_lookup_elem (verdict_map (dm_maps dm)) k = Some VERDICT_BLOCK)"
proof (cases outcome)
  case (Inl e)
  then show ?thesis using assms by (simp add: processEvent_def Let_def)
next
  case (Inr result)
  have "dm_kills (snd (processEvent sys_ok outcome ev wp dm)) = dm_kills dm"
    using assms Inr by (auto simp: processEvent_def executeBlock_def Let_def split: sum.split)
  moreover have "bpf_map_lookup_elem (verdict_map (dm_maps (snd (processEvent sys_ok outcome ev wp dm)))) k
      = Some VERDICT_BLOCK \<longrightarrow> bpf_map_lookup_elem (verdict_map (dm_maps dm)) k = Some VERDICT_BLOCK"
    using assms by (auto simp: processEvent_verdict [OF Inr] Let_def split: if_splits)
  ultimately show ?thesis using Inr by (simp add: case_prod_unfold)
qed

lemma monitor_kills_on_failure_witness:
  "case processEvent True (Inl HTTP_Request) sc_pevent (sc_pool ''monitor'' False) (sc_daemon st_open)
    of (wp', dm') \<Rightarrow>
    dm_kills dm' = dm_kills (sc_daemon st_open)
      @ (case Inl HTTP_Request :: ai_error + AnalysisResult of Inl _ \<Rightarrow> [e_pid sc_pevent] | Inr _ \<Rightarrow> [])
    \<and> (bpf_map_lookup_elem (verdict_map (dm_maps dm')) (sc_key 1 2) = Some VERDICT_BLOCK \<longrightarrow>
         bpf_map_lookup_elem (verdict_map (dm_maps (sc_daemon st_open))) (sc_key 1 2)
           = Some VERDICT_BLOCK)"
  by (rule monitor_kills_on_failure) simp_all

section \<open>The queue\<close>

text \<open>
  C28: the books of the pool in every state it reaches: every event sent is in the queue or
  processed, the queue is never longer than its capacity, and \<open>queueDepth\<close> is the length of
  the queue less the number of events that came through \<open>QueueCh\<close>, so it is wrong, and
  negative, as soon as the policy engine has sent one and a worker taken it.
\<close>
theorem queue_books:
  assumes "pool_reachable (pool_start wp dm) s" "dm_queue dm = []"
    and "wp_queueDepth wp = 0" "wp_processedTotal wp = 0"
  shows "wp_queueDepth (ps_pool s) = int (length (dm_queue (ps_daemon s))) - int (ps_routed s)
    \<and> wp_processedTotal (ps_pool s) + int (length (dm_queue (ps_daemon s)))
        = int (ps_submitted s) + int (ps_routed s)
    \<and> length (dm_queue (ps_daemon s)) \<le> dm_queue_cap (ps_daemon s)"
proof -
  have "pool_inv (pool_start wp dm)"
    using assms(2-4) by (simp add: pool_inv_def pool_start_def)
  then show ?thesis using pool_reachable_inv [OF assms(1)] by (simp add: pool_inv_def)
qed

text \<open>The engine sends one event, a worker takes it.\<close>

definition sc_pool_routed :: pool_state where
  "sc_pool_routed = (let s = pool_start (sc_pool ''lockdown'' True) (sc_daemon st_open)
     in s\<lparr>ps_daemon := (ps_daemon s)\<lparr>dm_queue := [sc_pevent]\<rparr>, ps_routed := 1\<rparr>)"

definition sc_pool_taken :: pool_state where
  "sc_pool_taken = sc_pool_routed\<lparr>
     ps_pool := (sc_pool ''lockdown'' True)\<lparr>wp_queueDepth := -1, wp_processedTotal := 1\<rparr>,
     ps_daemon := sc_daemon st_open\<rparr>"

lemma sc_pool_reachable:
  "pool_reachable (pool_start (sc_pool ''lockdown'' True) (sc_daemon st_open)) sc_pool_taken"
proof (rule pool_reachable.step)
  let ?s = "pool_start (sc_pool ''lockdown'' True) (sc_daemon st_open)"
  have "pool_step ?s (?s\<lparr>ps_daemon := (ps_daemon ?s)\<lparr>dm_queue := dm_queue (ps_daemon ?s) @ [sc_pevent]\<rparr>,
      ps_routed := ps_routed ?s + 1\<rparr>)"
    by (rule pool_step.routed) (simp add: pool_start_def)
  then have "pool_step ?s sc_pool_routed"
    by (simp add: sc_pool_routed_def pool_start_def Let_def)
  then show "pool_reachable ?s sc_pool_routed"
    by (rule pool_reachable.step [OF pool_reachable.start])
  have "receive True (Inl HTTP_Request) (ps_pool sc_pool_routed) (ps_daemon sc_pool_routed)
      = Some ((sc_pool ''lockdown'' True)\<lparr>wp_queueDepth := -1, wp_processedTotal := 1\<rparr>,
              sc_daemon st_open)"
    by (simp add: receive_def sc_pool_routed_def pool_start_def Let_def processEvent_def sc_pool_def
        sc_daemon_def)
  then show "pool_step sc_pool_routed sc_pool_taken"
    unfolding sc_pool_taken_def
    by (intro pool_step.work worker_step.take [where i = 0])
      (simp_all add: sc_pool_routed_def pool_start_def Let_def Start_workers_def sc_pool_def)
qed

lemma queue_books_witness:
  "wp_queueDepth (ps_pool sc_pool_taken)
      = int (length (dm_queue (ps_daemon sc_pool_taken))) - int (ps_routed sc_pool_taken)
    \<and> wp_processedTotal (ps_pool sc_pool_taken) + int (length (dm_queue (ps_daemon sc_pool_taken)))
        = int (ps_submitted sc_pool_taken) + int (ps_routed sc_pool_taken)
    \<and> length (dm_queue (ps_daemon sc_pool_taken)) \<le> dm_queue_cap (ps_daemon sc_pool_taken)"
  by (rule queue_books [OF sc_pool_reachable]) (simp_all add: sc_pool_def)

text \<open>
  C29: shutdown ends, and loses nothing that was queued: once the context is over and no
  more events are sent, the workers make at most \<open>pool_work\<close> steps, they are stuck exactly
  when all of them have returned, so \<open>Stop\<close> returns, and then, if a worker was left to
  drain, the queue is empty and every event that waited in it has been processed.
\<close>
theorem stop_returns_drained:
  assumes "ps_ctx_done s"
  shows "((worker_step ^^ n) s s' \<longrightarrow> n \<le> pool_work s)
    \<and> (\<exists>t. worker_step\<^sup>*\<^sup>* s t \<and> all_exited t)
    \<and> (worker_step\<^sup>*\<^sup>* s s' \<longrightarrow>
         ((\<nexists>t. worker_step s' t) \<longleftrightarrow> all_exited s')
         \<and> (all_exited s' \<longrightarrow> all_exited s \<or> dm_queue (ps_daemon s') = []
              \<and> wp_processedTotal (ps_pool s')
                  = wp_processedTotal (ps_pool s) + int (length (dm_queue (ps_daemon s)))))"
proof (intro conjI impI)
  show "n \<le> pool_work s" if "(worker_step ^^ n) s s'" using worker_steps_bounded [OF that] by simp
  show "\<exists>t. worker_step\<^sup>*\<^sup>* s t \<and> all_exited t" by (rule workers_finish [OF assms])
next
  assume run: "worker_step\<^sup>*\<^sup>* s s'"
  then show "(\<nexists>t. worker_step s' t) \<longleftrightarrow> all_exited s'"
    using workers_frame [OF run] assms worker_can_step worker_step_not_exited by blast
  assume "all_exited s'"
  then show "all_exited s \<or> dm_queue (ps_daemon s') = []
      \<and> wp_processedTotal (ps_pool s')
          = wp_processedTotal (ps_pool s) + int (length (dm_queue (ps_daemon s)))"
    using workers_empty [OF run] workers_frame [OF run] by auto
qed

text \<open>One event waits when the context ends; the worker handles it and returns.\<close>

definition sc_pool_ended :: pool_state where
  "sc_pool_ended = sc_pool_routed\<lparr>ps_ctx_done := True\<rparr>"

definition sc_pool_gone :: pool_state where
  "sc_pool_gone = sc_pool_taken\<lparr>ps_ctx_done := True, ps_workers := [Exited]\<rparr>"

lemma sc_pool_runs: "(worker_step ^^ 3) sc_pool_ended sc_pool_gone"
proof -
  let ?taken = "sc_pool_taken\<lparr>ps_ctx_done := True\<rparr>"
  note defs = sc_pool_ended_def sc_pool_gone_def sc_pool_taken_def sc_pool_routed_def
    pool_start_def Let_def Start_workers_def sc_pool_def
  have "receive True (Inl HTTP_Request) (ps_pool sc_pool_ended) (ps_daemon sc_pool_ended)
      = Some ((sc_pool ''lockdown'' True)\<lparr>wp_queueDepth := -1, wp_processedTotal := 1\<rparr>,
              sc_daemon st_open)"
    by (simp add: receive_def defs processEvent_def sc_daemon_def)
  then have "worker_step sc_pool_ended (sc_pool_ended\<lparr>ps_pool := (sc_pool ''lockdown'' True)\<lparr>
      wp_queueDepth := -1, wp_processedTotal := 1\<rparr>, ps_daemon := sc_daemon st_open\<rparr>)"
    by (intro worker_step.take [where i = 0]) (simp_all add: defs)
  then have a: "worker_step sc_pool_ended ?taken" by (simp add: defs)
  have b: "worker_step ?taken (?taken\<lparr>ps_workers := (ps_workers ?taken)[0 := Draining]\<rparr>)"
    by (rule worker_step.see_done) (simp_all add: defs)
  let ?drain = "?taken\<lparr>ps_workers := [Draining]\<rparr>"
  have c: "worker_step ?drain (?drain\<lparr>ps_workers := (ps_workers ?drain)[0 := Exited]\<rparr>)"
    by (rule worker_step.drained) (simp_all add: defs sc_daemon_def)
  have "ps_workers ?taken = [Running]" by (simp add: defs)
  then show ?thesis using a b c by (simp add: numeral_3_eq_3 sc_pool_gone_def) blast
qed

lemma stop_returns_drained_witness:
  "3 \<le> pool_work sc_pool_ended \<and> (\<exists>t. worker_step\<^sup>*\<^sup>* sc_pool_ended t \<and> all_exited t)
    \<and> (\<nexists>t. worker_step sc_pool_gone t) \<and> dm_queue (ps_daemon sc_pool_gone) = []
    \<and> wp_processedTotal (ps_pool sc_pool_gone)
        = wp_processedTotal (ps_pool sc_pool_ended) + int (length (dm_queue (ps_daemon sc_pool_ended)))"
proof -
  have "ps_ctx_done sc_pool_ended" by (simp add: sc_pool_ended_def)
  note stops = stop_returns_drained [OF this, of 3 sc_pool_gone]
  have "all_exited sc_pool_gone" by (simp add: all_exited_def sc_pool_gone_def)
  moreover have "\<not> all_exited sc_pool_ended"
    by (simp add: all_exited_def sc_pool_ended_def sc_pool_routed_def pool_start_def Let_def
        Start_workers_def sc_pool_def)
  moreover have "worker_step\<^sup>*\<^sup>* sc_pool_ended sc_pool_gone"
    using sc_pool_runs by (rule relpowp_imp_rtranclp)
  ultimately show ?thesis using stops sc_pool_runs by simp
qed

text \<open>
  After the last worker has returned the pool still accepts: \<open>Submit\<close> reports success
  while there is room, and the event it took is never processed, whatever happens next. With
  a negative number of workers this is so from the start.
\<close>
theorem stopped_pool_strands_events:
  assumes "all_exited s" "length (dm_queue (ps_daemon s)) < dm_queue_cap (ps_daemon s)"
    and "Submit ev (ps_pool s) (ps_daemon s) = (ok, wp, dm)"
    and "pool_reachable (s\<lparr>ps_pool := wp, ps_daemon := dm, ps_submitted := ps_submitted s + 1\<rparr>) s'"
  shows "ok \<and> (\<exists>evs. dm_queue (ps_daemon s') = dm_queue (ps_daemon s) @ [ev] @ evs)
    \<and> wp_processedTotal (ps_pool s') = wp_processedTotal (ps_pool s)"
proof -
  have sub: "ok" "dm_queue dm = dm_queue (ps_daemon s) @ [ev]"
    "wp_processedTotal wp = wp_processedTotal (ps_pool s)"
    using assms(2,3) by (auto simp: Submit_def)
  have "all_exited (s\<lparr>ps_pool := wp, ps_daemon := dm, ps_submitted := ps_submitted s + 1\<rparr>)"
    using assms(1) by (simp add: all_exited_def)
  from exited_pool_reachable [OF assms(4) this] show ?thesis using sub by auto
qed

lemma stopped_pool_strands_events_witness:
  "let s = pool_start ((sc_pool ''lockdown'' True)\<lparr>wp_config := (wp_config (sc_pool ''lockdown'' True))
             \<lparr>pc_Workers := -1\<rparr>\<rparr>) (sc_daemon st_open);
       (ok, wp, dm) = Submit sc_pevent (ps_pool s) (ps_daemon s);
       s' = s\<lparr>ps_pool := wp, ps_daemon := dm, ps_submitted := ps_submitted s + 1\<rparr>
   in ok \<and> (\<exists>evs. dm_queue (ps_daemon s') = dm_queue (ps_daemon s) @ [sc_pevent] @ evs)
    \<and> wp_processedTotal (ps_pool s') = wp_processedTotal (ps_pool s)"
  unfolding Let_def case_prod_unfold
  by (rule stopped_pool_strands_events [OF _ _ prod.collapse [symmetric, THEN trans]])
    (auto simp: all_exited_def pool_start_def Start_workers_def sc_daemon_def
      intro: pool_reachable.start prod_eqI)

section \<open>The client\<close>

text \<open>
  C33: exactly these answers are accepted: one object and nothing behind it, all of whose
  members are a reasoning or a risk (in any case, or null), with a last reasoning that is
  not empty and a last risk in [0, 1]; a missing risk counts as 0, so it never blocks.
\<close>
theorem accepted_verdicts:
  "ParseVerdict (Document v trailing) = Inr vd \<longleftrightarrow>
     \<not> trailing \<and> (\<exists>ms r x. v = J_Obj ms \<and> list_all member_ok ms
       \<and> last_value Field_Reasoning ms = Some (J_Str r) \<and> r \<noteq> ''''
       \<and> x = (case last_value Field_Risk ms of Some (J_Num (Some y)) \<Rightarrow> y | _ \<Rightarrow> 0)
       \<and> 0 \<le> x \<and> x \<le> 1 \<and> vd = \<lparr>vd_Reasoning = r, vd_Risk = Fin x\<rparr>)"
proof (cases "\<exists>ms. v = J_Obj ms \<and> list_all member_ok ms")
  case False
  then have "snd (decode_verdict v) \<or> vd_Reasoning (fst (decode_verdict v)) = ''''"
    by (cases v) (auto simp: decode_verdict_def zero_verdict_def decode_members_err)
  then show ?thesis using False by (auto simp: ParseVerdict_def Let_def case_prod_unfold split: if_splits)
next
  case True
  then obtain ms where ms: "v = J_Obj ms" "list_all member_ok ms" by blast
  define x where "x = (case last_value Field_Risk ms of Some (J_Num (Some y)) \<Rightarrow> y | _ \<Rightarrow> 0)"
  define r where "r = (case last_value Field_Reasoning ms of Some (J_Str t) \<Rightarrow> t | _ \<Rightarrow> '''')"
  have risk: "vd_Risk (fst (decode_verdict v)) = Fin x"
    using ms(2) by (auto simp: decode_verdict_def ms(1) decode_members_risk zero_verdict_def x_def
        dest: last_value_shape(1) split: option.split)
  have reason: "vd_Reasoning (fst (decode_verdict v)) = r"
    using ms(2) by (auto simp: decode_verdict_def ms(1) decode_members_reasoning zero_verdict_def
        r_def dest: last_value_shape(2) split: option.split)
  have dv: "decode_verdict v = (\<lparr>vd_Reasoning = r, vd_Risk = Fin x\<rparr>, False)"
    using risk reason ms decode_members_err [of ms "(zero_verdict, False)"]
    by (intro prod_eqI RiskVerdict.equality) (simp_all add: decode_verdict_def)
  have rn: "last_value Field_Reasoning ms = Some (J_Str r) \<longleftrightarrow> last_value Field_Reasoning ms \<noteq> None"
    "r \<noteq> '''' \<longrightarrow> last_value Field_Reasoning ms \<noteq> None"
    using last_value_shape(2) [OF ms(2)]
    by (auto simp: r_def split: option.splits)
  have "ParseVerdict (Document v trailing) = Inr vd \<longleftrightarrow>
      \<not> trailing \<and> r \<noteq> '''' \<and> 0 \<le> x \<and> x \<le> 1 \<and> vd = \<lparr>vd_Reasoning = r, vd_Risk = Fin x\<rparr>"
    by (auto simp: ParseVerdict_def dv)
  also have "\<dots> \<longleftrightarrow> \<not> trailing \<and> (\<exists>r'. last_value Field_Reasoning ms = Some (J_Str r') \<and> r' \<noteq> ''''
       \<and> 0 \<le> x \<and> x \<le> 1 \<and> vd = \<lparr>vd_Reasoning = r', vd_Risk = Fin x\<rparr>)"
    using rn by (auto simp: r_def)
  finally show ?thesis using ms by (auto simp: x_def)
qed

lemma analyze_retries:
  assumes "passes br" "0 \<le> maxRetries" "\<forall>i < k. failing js model (net i)"
    and "k = nat (maxRetries + 1) \<or> (k \<le> nat maxRetries \<and> (k > 0 \<longrightarrow> \<not> at_wait_cancelled (net k))
           \<and> doHTTPRequest js model (at_reply (net k)) = Inr result)"
  shows "let a = Analyze br js model maxRetries ovf net b; n = nat (maxRetries + 1) in
    if k = n
    then an_result a = Inl (Failed_After (maxRetries + 1) (Some (error_of js model (net (k - 1)))))
       \<and> an_sent a = n \<and> an_delays a = map (backoffDelay ovf) [1..<n]
    else an_result a = Inr result \<and> an_sent a = k + 1
       \<and> an_delays a = map (backoffDelay ovf) [1..<k + 1]"
proof -
  let ?n = "nat (maxRetries + 1)"
  have k: "k \<le> ?n" using assms(4) by auto
  have df: "delays_from ovf 0 j = map (backoffDelay ovf) [1..<j]" for j
    by (cases j) (simp_all add: delays_from_def upt_rec [of 0])
  have "\<forall>i \<in> {0..<0 + k}. failing js model (net i)" using assms(3) by simp
  from analyze_loop_skip [OF assms(1) this k, of maxRetries ovf None b]
  obtain b' where an: "Analyze br js model maxRetries ovf net b =
      (let a = analyze_loop br js model maxRetries ovf net (?n - k) k
                 (if k = 0 then None else Some (error_of js model (net (k - 1)))) b'
       in a\<lparr>an_delays := map (backoffDelay ovf) [1..<k] @ an_delays a, an_sent := k + an_sent a\<rparr>)"
    unfolding Analyze_def df add_0_left by blast
  show ?thesis
  proof (cases "k = ?n")
    case True
    moreover have "0 < k" using True assms(2) by simp
    ultimately show ?thesis by (simp add: an Let_def)
  next
    case False
    then have s: "k > 0 \<longrightarrow> \<not> at_wait_cancelled (net k)"
      "doHTTPRequest js model (at_reply (net k)) = Inr result"
      using assms(4) by auto
    obtain m where m: "?n - k = Suc m" using False k by (cases "?n - k") auto
    obtain b1 where "doRequest br js model (at_reply (net k)) b' = (Inr result, True, b1)"
      using passes_doRequest [OF assms(1), of js model "at_reply (net k)" b'] s(2) by auto
    then show ?thesis using False m s by (simp add: an Let_def)
  qed
qed


text \<open>A client error first, then an answer.\<close>

definition sc_breaker :: "unit breaker" where
  "sc_breaker = \<lparr>br_before = (\<lambda>b. (None, b)), br_after = (\<lambda>_ b. b)\<rparr>"

definition sc_json :: json_lib where
  "sc_json = \<lparr>js_envelope = (\<lambda>_. Some ('''', [''x''])),
     js_document = (\<lambda>_. Document (J_Obj [(''risk'', J_Num (Some (3 / 4))), (''Reasoning'', J_Str ''r'')])
                        False)\<rparr>"

definition sc_net :: "nat \<Rightarrow> attempt_env" where
  "sc_net n = \<lparr>at_wait_cancelled = False,
     at_reply = Reply (if n = 0 then 404 else 200) ''not found'' 0, at_ctx_err = False\<rparr>"

lemma sc_json_verdict:
  "ParseVerdict (js_document sc_json s) = Inr \<lparr>vd_Reasoning = ''r'', vd_Risk = Fin (3 / 4)\<rparr>"
  by (simp add: ParseVerdict_def sc_json_def decode_verdict_def decode_member_def field_of_def
      zero_verdict_def to_upper_def char_of_def bit_Suc_0_iff)


text \<open>
  C32: the delays double from half a second up to the cap of 30 s for the first 35 attempts.
  From the 36th on the product is beyond \<open>time.Duration\<close>, and the delay is what the machine
  converts it to, or the cap: where that is negative, as on amd64, the retries wait no more.
\<close>
theorem backoff_doubles_then_overflows:
  assumes "1 \<le> n"
  shows "backoffDelay ovf n \<le> 30000000000
    \<and> (n \<le> 34 \<longrightarrow> backoffDelay ovf 1 = 500000000
         \<and> backoffDelay ovf (n + 1) = min (2 * backoffDelay ovf n) 30000000000)
    \<and> (36 \<le> n \<longrightarrow> (backoffDelay ovf n < 0 \<longleftrightarrow> ovf < 0))"
proof (intro conjI impI)
  show "backoffDelay ovf n \<le> 30000000000" by (rule backoff_cap)
  show "backoffDelay ovf 1 = 500000000" by (simp add: backoff_value)
  show "backoffDelay ovf (n + 1) = min (2 * backoffDelay ovf n) 30000000000" if "n \<le> 34"
  proof -
    have "(2::int) ^ n = 2 * 2 ^ (n - 1)" using assms by (cases n) simp_all
    then show ?thesis using assms that by (simp add: backoff_value min_def)
  qed
  show "backoffDelay ovf n < 0 \<longleftrightarrow> ovf < 0" if "36 \<le> n"
    using backoff_overflow [OF that] by (simp add: min_def)
qed

lemma backoff_doubles_then_overflows_witness:
  "backoffDelay (- (2 ^ 63)) 36 < 0 \<and> backoffDelay (- (2 ^ 63)) 4 = 4000000000"
proof -
  have "backoffDelay (- (2 ^ 63)) 36 < 0"
    using backoff_doubles_then_overflows [of 36 "- (2 ^ 63)"] by simp
  moreover have "backoffDelay (- (2 ^ 63)) 4 = 4000000000" by (simp add: backoff_value)
  ultimately show ?thesis ..
qed

section \<open>The configuration\<close>

text \<open>
  A configuration that loads has a risk threshold in [0, 1], or it is NaN, which the
  range check lets through and under which no verdict of the AI ever blocks; under a number
  exactly the risks above it block.
\<close>
theorem loaded_threshold:
  assumes "Load unmarshal content = Inr cfg"
    and "threshold = ai_RiskThreshold (sp_AI (cf_Spec cfg))"
  shows "threshold = NaN \<and> (\<forall>v. Evaluate v threshold = AI_Allow)
    \<or> (\<exists>x. threshold = Fin x \<and> 0 \<le> x \<and> x \<le> 1
         \<and> (\<forall>y r. Evaluate \<lparr>vd_Reasoning = r, vd_Risk = Fin y\<rparr> threshold = AI_Block \<longleftrightarrow> x < y))"
proof -
  have "Validate cfg = None"
    using assms(1) by (auto simp: Load_def split: option.splits)
  from Validate_numbers(1) [OF this] assms(2) show ?thesis by (auto simp: Evaluate_def)
qed

lemma loaded_threshold_witness:
  "NaN = NaN \<and> (\<forall>v. Evaluate v NaN = AI_Allow)
    \<or> (\<exists>x. NaN = Fin x \<and> 0 \<le> x \<and> x \<le> 1
         \<and> (\<forall>y r. Evaluate \<lparr>vd_Reasoning = r, vd_Risk = Fin y\<rparr> NaN = AI_Block \<longleftrightarrow> x < y))"
proof (rule loaded_threshold)
  let ?c = "DefaultConfig\<lparr>cf_Spec := (cf_Spec DefaultConfig)\<lparr>sp_AI :=
     (sp_AI (cf_Spec DefaultConfig))\<lparr>ai_RiskThreshold := NaN\<rparr>\<rparr>\<rparr>"
  show "Load (\<lambda>_ _. Some ?c) (Some ()) = Inr ?c"
    by (simp add: Load_def Validate_def DefaultConfig_def)
qed simp

text \<open>
  A configuration with other numbers for the pool, and the pool's configuration from the
  fields of the same names; the assignment itself is the entry point's, which the repository
  does not contain.
\<close>

definition with_sizes :: "int \<Rightarrow> int \<Rightarrow> int \<Rightarrow> Config \<Rightarrow> Config" where
  "with_sizes workers queueSize maxRetries c = c\<lparr>cf_Spec := (cf_Spec c)\<lparr>sp_AI := (sp_AI (cf_Spec c))\<lparr>
     ai_Workers := workers, ai_QueueSize := queueSize, ai_MaxRetries := maxRetries\<rparr>\<rparr>\<rparr>"

definition pool_config_of :: "Config \<Rightarrow> WorkerPoolConfig" where
  "pool_config_of c = (let a = sp_AI (cf_Spec c) in
     \<lparr>pc_Mode = sp_Mode (cf_Spec c), pc_Workers = ai_Workers a, pc_QueueSize = ai_QueueSize a,
      pc_RiskThreshold = ai_RiskThreshold a, pc_FailOpen = ai_FailOpen a\<rparr>)"

text \<open>
  C34: the validation looks at no number of the AI part but the threshold and the timeout: any
  valid configuration stays valid with any workers, queue size and retries. With a negative
  queue size making the pool panics; with negative workers the pool starts none, so nothing
  that is queued is ever analysed; with negative retries no request is ever sent and, unless
  failures are let pass, every process that reaches the AI is killed.
\<close>
theorem validation_ignores_sizes:
  assumes "Load unmarshal content = Inr c" "c' = with_sizes workers queueSize maxRetries c"
  shows "Load (\<lambda>data def. map_option (with_sizes workers queueSize maxRetries) (unmarshal data def))
      content = Inr c'
    \<and> (queueSize < 0 \<longrightarrow> NewWorkerPool (pool_config_of c') loader = None)
    \<and> (workers < 0 \<longrightarrow> Start_workers (pool_config_of c') = 0)
    \<and> (maxRetries < 0 \<and> \<not> pc_FailOpen (wp_config wp) \<longrightarrow>
        (let a = Analyze br js model (ai_MaxRetries (sp_AI (cf_Spec c'))) ovf net b
         in an_sent a = 0
            \<and> dm_kills (snd (processEvent sys_ok (an_result a) ev wp dm)) = dm_kills dm @ [e_pid ev]))"
proof (intro conjI impI)
  have "Validate c' = Validate c"
    by (simp add: assms(2) with_sizes_def Validate_def Let_def)
  then show "Load (\<lambda>data def. map_option (with_sizes workers queueSize maxRetries) (unmarshal data def))
      content = Inr c'"
    using assms by (auto simp: Load_def split: option.splits)
  show "NewWorkerPool (pool_config_of c') loader = None" if "queueSize < 0"
    using that by (simp add: NewWorkerPool_def pool_config_of_def with_sizes_def assms(2) Let_def)
  show "Start_workers (pool_config_of c') = 0" if "workers < 0"
    using that by (simp add: Start_workers_def pool_config_of_def with_sizes_def assms(2) Let_def)
  assume m: "maxRetries < 0 \<and> \<not> pc_FailOpen (wp_config wp)"
  have "ai_MaxRetries (sp_AI (cf_Spec c')) = maxRetries" by (simp add: assms(2) with_sizes_def)
  with m show "let a = Analyze br js model (ai_MaxRetries (sp_AI (cf_Spec c'))) ovf net b
       in an_sent a = 0
          \<and> dm_kills (snd (processEvent sys_ok (an_result a) ev wp dm)) = dm_kills dm @ [e_pid ev]"
    using Analyze_negative [of maxRetries br js model ovf net b]
    by (simp add: Let_def processEvent_def)
qed

lemma validation_ignores_sizes_witness:
  "NewWorkerPool (pool_config_of (with_sizes (-1) (-1) (-1) DefaultConfig)) True = None
   \<and> Start_workers (pool_config_of (with_sizes (-1) (-1) (-1) DefaultConfig)) = 0
   \<and> dm_kills (snd (processEvent True (an_result (Analyze sc_breaker sc_json ''m'' (-1) 0 sc_net ()))
       sc_pevent (sc_pool ''monitor'' False) (sc_daemon st_open)))
     = dm_kills (sc_daemon st_open) @ [e_pid sc_pevent]"
proof -
  have "Load (\<lambda>_ _. Some DefaultConfig) (Some ()) = Inr DefaultConfig"
    by (simp add: Load_def DefaultConfig_valid)
  note v = validation_ignores_sizes [OF this refl, of "-1" "-1" "-1"]
  have "ai_MaxRetries (sp_AI (cf_Spec (with_sizes (-1) (-1) (-1) DefaultConfig))) = -1"
    by (simp add: with_sizes_def)
  with v [where loader = True and br = sc_breaker and js = sc_json and net = sc_net and b = "()"
      and wp = "sc_pool ''monitor'' False" and model = "''m''" and ovf = 0 and sys_ok = True
      and ev = sc_pevent and dm = "sc_daemon st_open"]
  show ?thesis by (simp add: Let_def)
qed

end
