(* ===== verification/Daemon_System.thy ===== *)
theory Daemon_System
  imports Worker_Pool Kernel_Machine
begin

text \<open>
  The parts at work together: the kernel programs, the reader that takes the submitted events
  in order, the policy engine and the workers, over the same maps, queue and processes. The
  wiring is the one of \<open>docs/03-architecture/architecture.md\<close> (the \<open>main\<close> of the daemon is not
  in the repository): an event with the map-hit flag bypasses the engine, every other one goes
  through \<open>Process\<close>, and what \<open>Process\<close> queues is taken by a worker. Steps carry labels, so
  that a run leaves a trace of what was decided. Handling one event is one step.
\<close>

section \<open>Steps\<close>

record 'p system =
  sy_engine :: "'p Engine"
  sy_pool :: pool_state
  sy_read :: nat

definition sy_daemon :: "'p system \<Rightarrow> daemon" where
  "sy_daemon s = ps_daemon (sy_pool s)"

definition sy_maps :: "'p system \<Rightarrow> kmaps" where
  "sy_maps s = dm_maps (sy_daemon s)"

datatype step_label =
    Kernel kop
  | Bypassed event
  | Decided event Verdict
  | Analysed event "ai_error + AnalysisResult"
  | Internal

definition set_maps :: "kmaps \<Rightarrow> 'p system \<Rightarrow> 'p system" where
  "set_maps m s =
     s\<lparr>sy_pool := (sy_pool s)\<lparr>ps_daemon := (sy_daemon s)\<lparr>dm_maps := m\<rparr>\<rparr>\<rparr>"

text \<open>The next event of the ring buffer, as the daemon decodes it.\<close>

definition next_event :: "'p system \<Rightarrow> event \<Rightarrow> bool" where
  "next_event s ev \<longleftrightarrow> sy_read s < length (events (sy_maps s))
     \<and> (\<exists>pad. length pad = 5 \<and> DecodeEvent (event_bytes pad (events (sy_maps s) ! sy_read s)) = Inr ev)"

text \<open>What the workers answer for an event is arbitrary; the verdicts are the daemon's to write.\<close>

inductive sys_step :: "('a, 'p) cel \<Rightarrow> ('d \<Rightarrow> rule_spec list option) \<Rightarrow> nat \<Rightarrow> 'p system \<Rightarrow> step_label \<Rightarrow> 'p system \<Rightarrow> bool"
  for cel unm n where
  kernel: "writes_key op = None \<Longrightarrow> kop_ok n op
    \<Longrightarrow> sys_step cel unm n s (Kernel op) (set_maps (kstep op (sy_maps s)) s)"
| bypassed: "next_event s ev \<Longrightarrow> e_is_map_hit ev \<noteq> 0
    \<Longrightarrow> sys_step cel unm n s (Bypassed ev) (s\<lparr>sy_read := sy_read s + 1\<rparr>)"
| decided: "next_event s ev \<Longrightarrow> e_is_map_hit ev = 0
    \<Longrightarrow> Process cel env ev (sy_engine s) (sy_daemon s) = (v, en, dm)
    \<Longrightarrow> sys_step cel unm n s (Decided ev v)
         \<lparr>sy_engine = en,
          sy_pool = (sy_pool s)\<lparr>ps_daemon := dm,
            ps_routed := ps_routed (sy_pool s) + of_bool (ve_Action v = ActionAIQueue)\<rparr>,
          sy_read = sy_read s + 1\<rparr>"
| analysed: "i < length (ps_workers (sy_pool s)) \<Longrightarrow> ps_workers (sy_pool s) ! i \<noteq> Exited
    \<Longrightarrow> dm_queue (sy_daemon s) = ev # rest
    \<Longrightarrow> receive sys_ok outcome (ps_pool (sy_pool s)) (sy_daemon s) = Some (wp, dm)
    \<Longrightarrow> sys_step cel unm n s (Analysed ev outcome)
         (s\<lparr>sy_pool := (sy_pool s)\<lparr>ps_pool := wp, ps_daemon := dm\<rparr>\<rparr>)"
| leaves: "worker_step (sy_pool s) p \<Longrightarrow> ps_pool p = ps_pool (sy_pool s)
    \<Longrightarrow> ps_daemon p = sy_daemon s \<Longrightarrow> sys_step cel unm n s Internal (s\<lparr>sy_pool := p\<rparr>)"
| cancel: "sys_step cel unm n s Internal (s\<lparr>sy_pool := (sy_pool s)\<lparr>ps_ctx_done := True\<rparr>\<rparr>)"
| reloaded: "sys_step cel unm n s Internal (s\<lparr>sy_engine := reload cel unm i (sy_engine s)\<rparr>)"

inductive sys_run :: "('a, 'p) cel \<Rightarrow> ('d \<Rightarrow> rule_spec list option) \<Rightarrow> nat \<Rightarrow> 'p system \<Rightarrow> step_label list \<Rightarrow> 'p system \<Rightarrow> bool"
  for cel unm n s0 where
  start: "sys_run cel unm n s0 [] s0"
| step: "sys_run cel unm n s0 ls s \<Longrightarrow> sys_step cel unm n s l s' \<Longrightarrow> sys_run cel unm n s0 (ls @ [l]) s'"

inductive_cases sys_stepE: "sys_step cel unm n s l s'"

section \<open>What a step does to the parts\<close>

lemma sy_maps_simps [simp]:
  "sy_maps (set_maps m s) = m" "sy_engine (set_maps m s) = sy_engine s"
  "sy_read (set_maps m s) = sy_read s"
  "dm_queue (sy_daemon (set_maps m s)) = dm_queue (sy_daemon s)"
  "dm_kills (sy_daemon (set_maps m s)) = dm_kills (sy_daemon s)"
  "dm_queue_cap (sy_daemon (set_maps m s)) = dm_queue_cap (sy_daemon s)"
  "ps_pool (sy_pool (set_maps m s)) = ps_pool (sy_pool s)"
  by (simp_all add: sy_maps_def sy_daemon_def set_maps_def)

text \<open>Events are only appended, and only by the kernel.\<close>

lemma emit_step_grows: "\<exists>evs. events (emit_step env bprm m h p k st) = events st @ evs"
  by (auto simp: emit_step_def split: option.split)

lemma kstep_grows: "\<exists>evs. events (kstep op st) = events st @ evs"
proof (cases op)
  case (Exec env bprm)
  have "\<exists>evs. events (emit_step env bprm m h p k (pid_update env bprm st)) = events st @ evs" for m h p k
    using emit_step_grows [of env bprm m h p k "pid_update env bprm st"] by simp
  then show ?thesis
    using Exec emit_step_grows
    by (cases "hash_available env bprm")
      (auto simp: bprm_check_no_hash bprm_check_hash split: option.split)
qed (auto simp: keep_on_error_def AllowExec_frame BlockExec_frame RegisterProtectedPID_frame
    split: sum.split)

lemma processEvent_events: "events (dm_maps (snd (processEvent ok r ev wp dm))) = events (dm_maps dm)"
  using processEvent_verdicts_only [of dm ok r ev wp] by (simp add: verdicts_only_def)

lemma receive_processEvent:
  assumes "receive ok r wp dm = Some (wp', dm')" "dm_queue dm = ev # rest"
  shows "(wp', dm') = processEvent ok r ev (wp\<lparr>wp_queueDepth := wp_queueDepth wp - 1\<rparr>) (dm\<lparr>dm_queue := rest\<rparr>)"
  using assms by (simp add: receive_def)

lemma sys_step_grows:
  "sys_step cel unm n s l s' \<Longrightarrow> \<exists>evs. events (sy_maps s') = events (sy_maps s) @ evs"
proof (induction rule: sys_step.induct)
  case (kernel op s)
  then show ?case using kstep_grows by simp
next
  case (decided s ev env v en dm)
  have "events (dm_maps dm) = events (sy_maps s)"
    using Process_verdicts_only [of "sy_daemon s" cel env ev "sy_engine s"] decided(3)
    by (simp add: verdicts_only_def sy_maps_def)
  then show ?case by (simp add: sy_maps_def sy_daemon_def)
next
  case (analysed i s ev rest sys_ok outcome wp dm)
  have "events (dm_maps dm) = events (sy_maps s)"
    using receive_processEvent [OF analysed(4,3)]
      processEvent_events [of sys_ok outcome ev "(ps_pool (sy_pool s))\<lparr>wp_queueDepth := wp_queueDepth (ps_pool (sy_pool s)) - 1\<rparr>" "(sy_daemon s)\<lparr>dm_queue := rest\<rparr>"]
    by (metis (no_types, lifting) daemon.select_convs(1) daemon.surjective daemon.update_convs(3) snd_conv sy_maps_def)
  then show ?case by (simp add: sy_maps_def sy_daemon_def)
qed (simp_all add: sy_maps_def sy_daemon_def)

lemma sys_run_grows:
  "sys_run cel unm n s0 ls s \<Longrightarrow> \<exists>evs. events (sy_maps s) = events (sy_maps s0) @ evs"
  by (induction rule: sys_run.induct) (use sys_step_grows in fastforce)+

section \<open>What the daemon does with an event\<close>

lemma Process_maps:
  "dm_maps (snd (snd (Process cel env ev en dm))) \<in>
     {dm_maps dm, kstep (Allow_Exec (pe_sys_ok env) (ExecKey ev)) (dm_maps dm),
      kstep (Block_Exec (pe_sys_ok env) (ExecKey ev)) (dm_maps dm)}"
  by (auto simp: Process_tiers Let_def rule_outcome_def promote_def enforce_def keep_on_error_def
      split: option.split sum.split)

lemma Process_queue:
  "dm_queue_cap (snd (snd (Process cel env ev en dm))) = dm_queue_cap dm
   \<and> (if ve_Action (fst (Process cel env ev en dm)) = ActionAIQueue
      then dm_queue (snd (snd (Process cel env ev en dm))) = dm_queue dm @ [snd (resolve_script env en ev)]
        \<and> length (dm_queue dm) < dm_queue_cap dm
      else dm_queue (snd (snd (Process cel env ev en dm))) = dm_queue dm)"
  by (auto simp: Process_tiers Let_def rule_outcome_def route_def split: option.split)

lemma route_not_block: "fst (route env en ev dm) \<noteq> ActionBlock"
  by (simp add: route_def Let_def)

lemma Process_kills:
  "dm_kills (snd (snd (Process cel env ev en dm))) =
     (if ve_Action (fst (Process cel env ev en dm)) = ActionBlock \<and> en_mode en \<noteq> ModeMonitor
      then dm_kills dm @ [e_pid ev] else dm_kills dm)"
  by (auto simp: Process_tiers Let_def rule_outcome_def enforce_kills route_not_block split: option.split)

lemma Process_block:
  "bpf_map_lookup_elem (verdict_map (dm_maps (snd (snd (Process cel env ev en dm))))) k = Some VERDICT_BLOCK
   \<Longrightarrow> bpf_map_lookup_elem (verdict_map (dm_maps dm)) k = Some VERDICT_BLOCK
     \<or> k = ExecKey ev \<and> e_hash_available ev \<noteq> 0 \<and> en_mode en \<noteq> ModeMonitor
       \<and> ve_Action (fst (Process cel env ev en dm)) = ActionBlock"
  by (auto simp: Process_tiers Let_def rule_outcome_def enforce_verdict promote_verdict
      split: option.splits if_splits)

lemma Process_mode: "en_mode (fst (snd (Process cel env ev en dm))) = en_mode en"
  by (simp add: Process_tiers Let_def split: option.split)

lemma reload_mode: "en_mode (reload cel unm i en) = en_mode en"
  by (simp add: reload_def split: option.split prod.split)

lemma processEvent_maps:
  "dm_maps (snd (processEvent ok r ev wp dm)) \<in>
     {dm_maps dm, kstep (Allow_Exec ok (ExecKey ev)) (dm_maps dm), kstep (Block_Exec ok (ExecKey ev)) (dm_maps dm)}"
  by (auto simp: processEvent_def executeBlock_def Let_def keep_on_error_def split: sum.split)

definition ai_blocks :: "WorkerPoolConfig \<Rightarrow> ai_error + AnalysisResult \<Rightarrow> bool" where
  "ai_blocks cfg outcome \<longleftrightarrow> (\<exists>res. outcome = Inr res
     \<and> Evaluate (ar_Verdict res) (pc_RiskThreshold cfg) = AI_Block) \<and> pc_Mode cfg \<noteq> ''monitor''"

lemma processEvent_kills:
  "dm_kills (snd (processEvent ok outcome ev wp dm)) =
     (if ai_blocks (wp_config wp) outcome \<or> (\<exists>err. outcome = Inl err) \<and> \<not> pc_FailOpen (wp_config wp)
      then dm_kills dm @ [e_pid ev] else dm_kills dm)"
  by (auto simp: processEvent_def executeBlock_def ai_blocks_def Let_def split: sum.split)

lemma processEvent_block:
  "bpf_map_lookup_elem (verdict_map (dm_maps (snd (processEvent ok outcome ev wp dm)))) k = Some VERDICT_BLOCK
   \<Longrightarrow> bpf_map_lookup_elem (verdict_map (dm_maps dm)) k = Some VERDICT_BLOCK
     \<or> k = ExecKey ev \<and> e_hash_available ev \<noteq> 0 \<and> ai_blocks (wp_config wp) outcome"
proof (cases outcome)
  case (Inl err)
  then show "bpf_map_lookup_elem (verdict_map (dm_maps (snd (processEvent ok outcome ev wp dm)))) k = Some VERDICT_BLOCK
   \<Longrightarrow> ?thesis" by (auto simp: processEvent_def Let_def split: if_splits)
next
  case (Inr result)
  then show "bpf_map_lookup_elem (verdict_map (dm_maps (snd (processEvent ok outcome ev wp dm)))) k = Some VERDICT_BLOCK
   \<Longrightarrow> ?thesis"
    by (auto simp: processEvent_verdict [OF refl] ai_blocks_def Let_def split: if_splits)
qed

lemma receive_parts:
  assumes "receive ok r wp dm = Some (wp', dm')" "dm_queue dm = ev # rest"
  shows "wp_config wp' = wp_config wp" "dm_queue dm' = rest" "dm_queue_cap dm' = dm_queue_cap dm"
    "dm_maps dm' \<in> {dm_maps dm, kstep (Allow_Exec ok (ExecKey ev)) (dm_maps dm),
       kstep (Block_Exec ok (ExecKey ev)) (dm_maps dm)}"
    "dm_kills dm' = (if ai_blocks (wp_config wp) r \<or> (\<exists>err. r = Inl err) \<and> \<not> pc_FailOpen (wp_config wp)
      then dm_kills dm @ [e_pid ev] else dm_kills dm)"
    "bpf_map_lookup_elem (verdict_map (dm_maps dm')) k = Some VERDICT_BLOCK
      \<Longrightarrow> bpf_map_lookup_elem (verdict_map (dm_maps dm)) k = Some VERDICT_BLOCK
        \<or> k = ExecKey ev \<and> e_hash_available ev \<noteq> 0 \<and> ai_blocks (wp_config wp) r"
proof -
  let ?wp = "wp\<lparr>wp_queueDepth := wp_queueDepth wp - 1\<rparr>" and ?dm = "dm\<lparr>dm_queue := rest\<rparr>"
  have p: "wp' = fst (processEvent ok r ev ?wp ?dm)" "dm' = snd (processEvent ok r ev ?wp ?dm)"
    using receive_processEvent [OF assms] by (metis fst_conv, metis snd_conv)
  show "wp_config wp' = wp_config wp" "dm_queue dm' = rest" "dm_queue_cap dm' = dm_queue_cap dm"
    by (simp_all add: p)
  show "dm_maps dm' \<in> {dm_maps dm, kstep (Allow_Exec ok (ExecKey ev)) (dm_maps dm),
       kstep (Block_Exec ok (ExecKey ev)) (dm_maps dm)}"
    using processEvent_maps [of ok r ev ?wp ?dm] by (simp add: p)
  show "dm_kills dm' = (if ai_blocks (wp_config wp) r \<or> (\<exists>err. r = Inl err) \<and> \<not> pc_FailOpen (wp_config wp)
      then dm_kills dm @ [e_pid ev] else dm_kills dm)"
    using processEvent_kills [of ok r ev ?wp ?dm] by (simp add: p)
  show "bpf_map_lookup_elem (verdict_map (dm_maps dm')) k = Some VERDICT_BLOCK
      \<Longrightarrow> bpf_map_lookup_elem (verdict_map (dm_maps dm)) k = Some VERDICT_BLOCK
        \<or> k = ExecKey ev \<and> e_hash_available ev \<noteq> 0 \<and> ai_blocks (wp_config wp) r"
    using processEvent_block [of ok r ev ?wp ?dm k] by (simp add: p)
qed

end
