(* ===== verification/Labelled_Runs.thy ===== *)
theory Labelled_Runs
  imports Zask_Prelude
begin

text \<open>
  Runs of a labelled step relation, with what the components ask of one: that an invariant and
  a balance of the labels against the state are kept along a run, and that a relation which
  loses weight with every step comes to an end.
\<close>

inductive labelled_run :: "('s \<Rightarrow> 'l \<Rightarrow> 's \<Rightarrow> bool) \<Rightarrow> 's \<Rightarrow> 'l list \<Rightarrow> 's \<Rightarrow> bool" for R s0 where
  start [intro]: "labelled_run R s0 [] s0"
| step [intro]: "labelled_run R s0 ls s \<Longrightarrow> R s l s' \<Longrightarrow> labelled_run R s0 (ls @ [l]) s'"

lemma labelled_run_one: "R s l s' \<Longrightarrow> labelled_run R s [l] s'"
  using labelled_run.step [where ls = "[]", OF labelled_run.start] by simp

lemma labelled_run_append:
  assumes "labelled_run R s ls t" "labelled_run R t ls' u"
  shows "labelled_run R s (ls @ ls') u"
  using assms(2)
proof (induction rule: labelled_run.induct)
  case (step ls' t l t')
  then show ?case using labelled_run.step [of R s "ls @ ls'" t l t'] by simp
qed (simp add: assms(1))

lemma labelled_run_Cons: "R s l t \<Longrightarrow> labelled_run R t ls u \<Longrightarrow> labelled_run R s (l # ls) u"
  using labelled_run_append [where ls = "[l]", OF labelled_run_one] by simp

lemma labelled_run_mono:
  assumes "labelled_run R s ls t" "\<And>s l t. R s l t \<Longrightarrow> Q s l t"
  shows "labelled_run Q s ls t"
  using assms(1) by (induction rule: labelled_run.induct) (auto intro: assms(2))

locale labelled_invariant =
  fixes step :: "'s \<Rightarrow> 'l \<Rightarrow> 's \<Rightarrow> bool" and inv :: "'s \<Rightarrow> bool"
  assumes step_inv: "step s l s' \<Longrightarrow> inv s \<Longrightarrow> inv s'"
begin

lemma run_inv: "labelled_run step s ls s' \<Longrightarrow> inv s \<Longrightarrow> inv s'"
  by (induction rule: labelled_run.induct) (auto intro: step_inv)

end

text \<open>What a state holds is what the start held and what the labels brought.\<close>

locale labelled_balance = labelled_invariant +
  fixes total :: "'s \<Rightarrow> 'm::monoid_add" and weight :: "'l \<Rightarrow> 'm"
  assumes step_total: "step s l s' \<Longrightarrow> inv s \<Longrightarrow> total s' = total s + weight l"
begin

lemma run_total:
  assumes "labelled_run step s ls s'" "inv s"
  shows "total s' = total s + sum_list (map weight ls)"
  using assms(1)
proof (induction rule: labelled_run.induct)
  case (step ls t l t')
  then show ?case using step_total [OF step.hyps(2) run_inv [OF step.hyps(1) assms(2)]]
    by (simp add: add.assoc)
qed simp

end

text \<open>What holds of a state goes back to the start or to a label.\<close>

locale labelled_origin = labelled_invariant +
  fixes holds :: "'s \<Rightarrow> 'x \<Rightarrow> bool" and causes :: "'l \<Rightarrow> 'x \<Rightarrow> bool"
  assumes step_origin: "step s l s' \<Longrightarrow> inv s \<Longrightarrow> holds s' x \<Longrightarrow> holds s x \<or> causes l x"
begin

lemma run_origin:
  assumes "labelled_run step s ls s'" "inv s" "holds s' x"
  shows "holds s x \<or> (\<exists>l \<in> set ls. causes l x)"
  using assms(1,3)
proof (induction rule: labelled_run.induct)
  case (step ls t l t')
  then show ?case using step_origin [OF step.hyps(2) run_inv [OF step.hyps(1) assms(2)]] by auto
qed simp

end

text \<open>A relation that loses weight: runs are bounded, and one of them ends.\<close>

locale labelled_descent = labelled_invariant +
  fixes weight :: "'s \<Rightarrow> nat"
  assumes step_weight: "step s l s' \<Longrightarrow> inv s \<Longrightarrow> weight s' < weight s"
begin

lemma run_bounded:
  assumes "labelled_run step s ls s'" "inv s"
  shows "length ls + weight s' \<le> weight s"
  using assms(1)
proof (induction rule: labelled_run.induct)
  case (step ls t l t')
  then show ?case using step_weight [OF step.hyps(2) run_inv [OF step.hyps(1) assms(2)]] by simp
qed simp

lemma run_ends:
  assumes "inv s"
  shows "\<exists>ls s'. labelled_run step s ls s' \<and> (\<nexists>l t. step s' l t)"
  using assms
proof (induction "weight s" arbitrary: s rule: less_induct)
  case less
  show ?case
  proof (cases "\<exists>l t. step s l t")
    case True
    then obtain l t where t: "step s l t" by blast
    then obtain ls s' where "labelled_run step t ls s'" "\<nexists>l t. step s' l t"
      using less.hyps [OF step_weight [OF t less.prems] step_inv [OF t less.prems]] by blast
    then show ?thesis using labelled_run_Cons [where R = step, OF t] by blast
  qed auto
qed

end

end
