(* ===== verification/Daemon_Steps.thy ===== *)
theory Daemon_Steps
  imports Daemon_System Labelled_Runs
begin

text \<open>
  The daemon with its goroutines apart: the engine's and one for each worker. \<open>Daemon_System\<close>
  handles an event in one step; here every call that touches what the goroutines and the kernel
  share (the maps, the signals, the cache, the rules, the queue) is a step of its own, and
  between any two of them the kernel, the other goroutines and a reload of the rules may step.
  A reload, which exchanges the rules and then empties the cache, is one step.
\<close>

section \<open>The calls that change shared state\<close>

datatype world_act = Send_Kill u32 | Write_Block exec_key | Write_Allow exec_key

fun do_world :: "bool \<Rightarrow> world_act \<Rightarrow> daemon \<Rightarrow> daemon" where
  "do_world ok (Send_Kill pid) dm = killProcess pid dm"
| "do_world ok (Write_Block key) dm =
     dm\<lparr>dm_maps := keep_on_error (BlockExec ok key (dm_maps dm)) (dm_maps dm)\<rparr>"
| "do_world ok (Write_Allow key) dm =
     dm\<lparr>dm_maps := keep_on_error (AllowExec ok key (dm_maps dm)) (dm_maps dm)\<rparr>"

text \<open>The calls of \<open>enforce\<close>, in its order: the signal first.\<close>

definition enforce_acts :: "'p Engine \<Rightarrow> event \<Rightarrow> exec_key \<Rightarrow> world_act list" where
  "enforce_acts en ev key =
     (if en_mode en = ModeMonitor then []
      else Send_Kill (e_pid ev)
           # (if en_loader en \<and> e_hash_available ev \<noteq> 0 then [Write_Block key] else []))"

definition promote_acts :: "'p Engine \<Rightarrow> bool \<Rightarrow> exec_key \<Rightarrow> world_act list" where
  "promote_acts en hashUnavailable key =
     (if en_loader en \<and> \<not> hashUnavailable then [Write_Allow key] else [])"

text \<open>The calls of a worker once \<open>Analyze\<close> has returned; \<open>executeBlock\<close> writes first.\<close>

definition executeBlock_acts :: "event \<Rightarrow> WorkerPool \<Rightarrow> world_act list" where
  "executeBlock_acts ev wp =
     (if pc_Mode (wp_config wp) = ''monitor'' then []
      else (if wp_loader wp \<and> e_hash_available ev \<noteq> 0 then [Write_Block (ExecKey ev)] else [])
           @ [Send_Kill (e_pid ev)])"

definition answer_acts :: "WorkerPool \<Rightarrow> event \<Rightarrow> ai_error + AnalysisResult \<Rightarrow> world_act list" where
  "answer_acts wp ev outcome =
     (case outcome of
        Inl _ \<Rightarrow> if \<not> pc_FailOpen (wp_config wp) then [Send_Kill (e_pid ev)] else []
      | Inr result \<Rightarrow>
          if Evaluate (ar_Verdict result) (pc_RiskThreshold (wp_config wp)) = AI_Block
          then executeBlock_acts ev wp
          else if wp_loader wp \<and> e_hash_available ev \<noteq> 0 then [Write_Allow (ExecKey ev)] else [])"

text \<open>The counters before the analysis and the callback after it.\<close>

definition begin_event :: "WorkerPool \<Rightarrow> WorkerPool" where
  "begin_event wp = wp\<lparr>wp_queueDepth := wp_queueDepth wp - 1, wp_processedTotal := wp_processedTotal wp + 1\<rparr>"

definition report :: "event \<Rightarrow> ai_error + AnalysisResult \<Rightarrow> WorkerPool \<Rightarrow> WorkerPool" where
  "report ev outcome wp =
     (case outcome of
        Inl _ \<Rightarrow> wp
      | Inr result \<Rightarrow>
          if wp_onVerdict wp
          then wp\<lparr>wp_verdicts := wp_verdicts wp
                 @ [(ev, result, Evaluate (ar_Verdict result) (pc_RiskThreshold (wp_config wp)))]\<rparr>
          else wp)"

datatype engine_act = Remember exec_key | World world_act | Route event

fun do_engine :: "process_env \<Rightarrow> engine_act \<Rightarrow> Verdict \<times> 'p Engine \<times> daemon \<Rightarrow> Verdict \<times> 'p Engine \<times> daemon" where
  "do_engine env (Remember key) (v, en, dm) = (v, remember env False key en, dm)"
| "do_engine env (World a) (v, en, dm) = (v, en, do_world (pe_sys_ok env) a dm)"
| "do_engine env (Route ev) (v, en, dm) =
     (let (action, dm') = route env en ev dm in (v\<lparr>ve_Action := action\<rparr>, en, dm'))"

text \<open>The rules of tier 2 decide what \<open>Process\<close> calls after a miss in the cache.\<close>

definition judge :: "('a, 'p) cel \<Rightarrow> process_env \<Rightarrow> event \<Rightarrow> 'p Engine \<Rightarrow> Verdict \<times> engine_act list" where
  "judge cel env ev en =
     (let hashUnavailable = (e_hash_available ev = 0);
          key = ExecKey ev;
          (resolvedScript, ev1) = resolve_script env en ev;
          known_good = (if \<not> hashUnavailable then [Remember key] else [])
            @ map World (promote_acts en hashUnavailable key)
      in case Match cel ev1 (en_rules en) of
           Some rule \<Rightarrow>
             let (action, acts) =
               (if rl_action rule = actionBlockLabel then (ActionBlock, map World (enforce_acts en ev1 key))
                else if rl_action rule = actionAllowLabel then (ActionAllow, known_good)
                else (ActionAlert, []))
             in (\<lparr>ve_RuleName = rl_name rule, ve_ScriptPath = resolvedScript, ve_Action = action,
                  ve_Tier = 2\<rparr>, acts)
         | None \<Rightarrow>
             (\<lparr>ve_RuleName = '''', ve_ScriptPath = resolvedScript, ve_Action = ActionAllow,
               ve_Tier = 3\<rparr>, known_good @ [Route ev1]))"

section \<open>One goroutine alone\<close>

lemma fold_do_world: "fold (do_engine env) (map World as) (v, en, dm) = (v, en, fold (do_world (pe_sys_ok env)) as dm)"
  by (induction as arbitrary: dm) simp_all

lemma enforce_is_acts: "enforce env en ev key dm = fold (do_world (pe_sys_ok env)) (enforce_acts en ev key) dm"
  by (simp add: enforce_def enforce_acts_def killProcess_def keep_on_error_def Let_def split: sum.split)

lemma promote_is_acts: "promote env h key en dm = fold (do_world (pe_sys_ok env)) (promote_acts en h key) dm"
  by (simp add: promote_def promote_acts_def keep_on_error_def split: sum.split)

lemma enforce_acts_looked_up [simp]: "enforce_acts (looked_up env ev en) ev1 key = enforce_acts en ev1 key"
  and promote_acts_looked_up [simp]: "promote_acts (looked_up env ev en) h key = promote_acts en h key"
  by (simp_all add: enforce_acts_def promote_acts_def)

lemma resolve_script_looked_up [simp]: "resolve_script env (looked_up env ev en) ev' = resolve_script env en ev'"
  by (simp add: resolve_script_def is_interpreter_def)

lemma executeBlock_is_acts: "executeBlock ok ev wp dm = fold (do_world ok) (executeBlock_acts ev wp) dm"
  by (simp add: executeBlock_def executeBlock_acts_def keep_on_error_def Let_def split: sum.split)

text \<open>\<open>Process\<close>: the lookup in the cache, the rules, then the calls.\<close>

lemma Process_is_acts:
  "Process cel env ev en dm =
     (let en1 = looked_up env ev en in
      if cached env ev en then
        (\<lparr>ve_RuleName = '''', ve_ScriptPath = fst (resolve_script env en ev), ve_Action = ActionAllow,
          ve_Tier = 1\<rparr>, en1, dm)
      else let (v, acts) = judge cel env ev en1 in fold (do_engine env) acts (v, en1, dm))"
proof -
  have keep: "fold (do_engine env) ((if \<not> h then [Remember key] else []) @ map World (promote_acts en' h key)) (v, en', dm)
      = (v, remember env h key en', promote env h key en' dm)" for h key v and en' :: "'b Engine"
    by (simp add: fold_do_world promote_is_acts remember_def)
  show ?thesis
    by (simp add: Process_tiers judge_def rule_for_def rule_outcome_def fold_do_world keep
        enforce_is_acts case_prod_unfold Let_def remember_def promote_is_acts split: option.split)
qed

lemma processEvent_is_acts:
  "processEvent ok outcome ev wp dm =
     (let wp1 = wp\<lparr>wp_processedTotal := wp_processedTotal wp + 1\<rparr> in
      (report ev outcome wp1, fold (do_world ok) (answer_acts wp ev outcome) dm))"
  by (auto simp: processEvent_def answer_acts_def report_def executeBlock_is_acts executeBlock_acts_def
      keep_on_error_def Let_def split: sum.splits)

section \<open>The goroutines together\<close>

text \<open>
  What is left to do of the event at hand: the engine has taken it and found no cache entry
  (\<open>Matching\<close>) or has the verdict and carries it out (\<open>Acting\<close>); a worker waits for the
  provider (\<open>Asking\<close>) or carries out the answer (\<open>Answered\<close>).
\<close>

datatype engine_pc = Ready | Matching process_env event | Acting process_env event Verdict "engine_act list"

datatype worker_job = Idle | Asking event | Answered event "ai_error + AnalysisResult" "world_act list"

record 'p threads =
  th_sys :: "'p system"
  th_engine :: engine_pc
  th_jobs :: "worker_job list"

definition set_daemon :: "daemon \<Rightarrow> 'p system \<Rightarrow> 'p system" where
  "set_daemon dm s = s\<lparr>sy_pool := (sy_pool s)\<lparr>ps_daemon := dm\<rparr>\<rparr>"

definition set_pool :: "WorkerPool \<Rightarrow> 'p system \<Rightarrow> 'p system" where
  "set_pool wp s = s\<lparr>sy_pool := (sy_pool s)\<lparr>ps_pool := wp\<rparr>\<rparr>"

text \<open>
  The steps of the engine. A verdict is on record once nothing can change it any more: at the
  hit in the cache, at the rule that matched, or when the event has been routed.
\<close>

definition act_label :: "event \<Rightarrow> Verdict \<Rightarrow> engine_act \<Rightarrow> step_label" where
  "act_label ev v a = (case a of Route _ \<Rightarrow> Decided ev v | _ \<Rightarrow> Internal)"

definition judged_label :: "event \<Rightarrow> Verdict \<Rightarrow> step_label" where
  "judged_label ev v = (if ve_Tier v = 2 then Decided ev v else Internal)"

inductive engine_step :: "('a, 'p) cel \<Rightarrow> 'p threads \<Rightarrow> step_label \<Rightarrow> 'p threads \<Rightarrow> bool" for cel where
  bypass: "th_engine t = Ready \<Longrightarrow> next_event (th_sys t) ev \<Longrightarrow> e_is_map_hit ev \<noteq> 0
    \<Longrightarrow> engine_step cel t (Bypassed ev)
         (t\<lparr>th_sys := (th_sys t)\<lparr>sy_read := sy_read (th_sys t) + 1\<rparr>\<rparr>)"
| cache_hit: "th_engine t = Ready \<Longrightarrow> next_event (th_sys t) ev \<Longrightarrow> e_is_map_hit ev = 0
    \<Longrightarrow> cached env ev (sy_engine (th_sys t))
    \<Longrightarrow> v = \<lparr>ve_RuleName = '''', ve_ScriptPath = fst (resolve_script env (sy_engine (th_sys t)) ev),
             ve_Action = ActionAllow, ve_Tier = 1\<rparr>
    \<Longrightarrow> engine_step cel t (Decided ev v)
         (t\<lparr>th_sys := (th_sys t)\<lparr>sy_engine := looked_up env ev (sy_engine (th_sys t)),
                               sy_read := sy_read (th_sys t) + 1\<rparr>\<rparr>)"
| cache_miss: "th_engine t = Ready \<Longrightarrow> next_event (th_sys t) ev \<Longrightarrow> e_is_map_hit ev = 0
    \<Longrightarrow> \<not> cached env ev (sy_engine (th_sys t))
    \<Longrightarrow> engine_step cel t Internal
         (t\<lparr>th_sys := (th_sys t)\<lparr>sy_engine := looked_up env ev (sy_engine (th_sys t)),
                               sy_read := sy_read (th_sys t) + 1\<rparr>,
            th_engine := Matching env ev\<rparr>)"
| match_rules: "th_engine t = Matching env ev \<Longrightarrow> judge cel env ev (sy_engine (th_sys t)) = (v, acts)
    \<Longrightarrow> engine_step cel t (judged_label ev v) (t\<lparr>th_engine := Acting env ev v acts\<rparr>)"
| act: "th_engine t = Acting env ev v (a # acts)
    \<Longrightarrow> do_engine env a (v, sy_engine (th_sys t), sy_daemon (th_sys t)) = (v', en, dm)
    \<Longrightarrow> engine_step cel t (act_label ev v' a)
         (t\<lparr>th_sys := (th_sys t)\<lparr>sy_engine := en,
              sy_pool := (sy_pool (th_sys t))\<lparr>ps_daemon := dm,
                ps_routed := ps_routed (sy_pool (th_sys t))
                  + (length (dm_queue dm) - length (dm_queue (sy_daemon (th_sys t))))\<rparr>\<rparr>,
            th_engine := Acting env ev v' acts\<rparr>)"
| return: "th_engine t = Acting env ev v [] \<Longrightarrow> engine_step cel t Internal (t\<lparr>th_engine := Ready\<rparr>)"

text \<open>The steps of worker \<open>i\<close>. What the provider answers is arbitrary, and so is when.\<close>

inductive job_step :: "nat \<Rightarrow> 'p threads \<Rightarrow> step_label \<Rightarrow> 'p threads \<Rightarrow> bool" for i where
  take_event: "i < length (th_jobs t) \<Longrightarrow> th_jobs t ! i = Idle
    \<Longrightarrow> i < length (ps_workers (sy_pool (th_sys t))) \<Longrightarrow> ps_workers (sy_pool (th_sys t)) ! i \<noteq> Exited
    \<Longrightarrow> dm_queue (sy_daemon (th_sys t)) = ev # rest
    \<Longrightarrow> job_step i t Internal
         (t\<lparr>th_sys := set_pool (begin_event (ps_pool (sy_pool (th_sys t))))
              (set_daemon ((sy_daemon (th_sys t))\<lparr>dm_queue := rest\<rparr>) (th_sys t)),
            th_jobs := (th_jobs t)[i := Asking ev]\<rparr>)"
| answer: "i < length (th_jobs t) \<Longrightarrow> th_jobs t ! i = Asking ev
    \<Longrightarrow> job_step i t (Analysed ev outcome)
         (t\<lparr>th_jobs := (th_jobs t)[i := Answered ev outcome
              (answer_acts (ps_pool (sy_pool (th_sys t))) ev outcome)]\<rparr>)"
| carry_out: "i < length (th_jobs t) \<Longrightarrow> th_jobs t ! i = Answered ev outcome (a # acts)
    \<Longrightarrow> job_step i t Internal
         (t\<lparr>th_sys := set_daemon (do_world sys_ok a (sy_daemon (th_sys t))) (th_sys t),
            th_jobs := (th_jobs t)[i := Answered ev outcome acts]\<rparr>)"
| job_done: "i < length (th_jobs t) \<Longrightarrow> th_jobs t ! i = Answered ev outcome []
    \<Longrightarrow> job_step i t Internal
         (t\<lparr>th_sys := set_pool (report ev outcome (ps_pool (sy_pool (th_sys t)))) (th_sys t),
            th_jobs := (th_jobs t)[i := Idle]\<rparr>)"
| leave: "i < length (th_jobs t) \<Longrightarrow> th_jobs t ! i = Idle
    \<Longrightarrow> worker_step (sy_pool (th_sys t)) p \<Longrightarrow> ps_pool p = ps_pool (sy_pool (th_sys t))
    \<Longrightarrow> ps_daemon p = sy_daemon (th_sys t)
    \<Longrightarrow> \<forall>j. j \<noteq> i \<longrightarrow> ps_workers p ! j = ps_workers (sy_pool (th_sys t)) ! j
    \<Longrightarrow> job_step i t Internal (t\<lparr>th_sys := (th_sys t)\<lparr>sy_pool := p\<rparr>\<rparr>)"

text \<open>What happens around the goroutines: the kernel, the end of the context, a reload.\<close>

inductive around_step :: "('a, 'p) cel \<Rightarrow> ('d \<Rightarrow> rule_spec list option) \<Rightarrow> nat \<Rightarrow> 'p threads \<Rightarrow> step_label
    \<Rightarrow> 'p threads \<Rightarrow> bool" for cel unm n where
  kernel_op: "writes_key op = None \<Longrightarrow> kop_ok n op
    \<Longrightarrow> around_step cel unm n t (Kernel op)
         (t\<lparr>th_sys := set_maps (kstep op (sy_maps (th_sys t))) (th_sys t)\<rparr>)"
| context_ends: "around_step cel unm n t Internal
    (t\<lparr>th_sys := (th_sys t)\<lparr>sy_pool := (sy_pool (th_sys t))\<lparr>ps_ctx_done := True\<rparr>\<rparr>\<rparr>)"
| rules_reload: "around_step cel unm n t Internal
    (t\<lparr>th_sys := (th_sys t)\<lparr>sy_engine := reload cel unm i (sy_engine (th_sys t))\<rparr>\<rparr>)"

definition daemon_step :: "('a, 'p) cel \<Rightarrow> 'p threads \<Rightarrow> step_label \<Rightarrow> 'p threads \<Rightarrow> bool" where
  "daemon_step cel t l t' \<longleftrightarrow> engine_step cel t l t' \<or> (\<exists>i. job_step i t l t')"

definition thread_step :: "('a, 'p) cel \<Rightarrow> ('d \<Rightarrow> rule_spec list option) \<Rightarrow> nat \<Rightarrow> 'p threads \<Rightarrow> step_label
    \<Rightarrow> 'p threads \<Rightarrow> bool" where
  "thread_step cel unm n t l t' \<longleftrightarrow> daemon_step cel t l t' \<or> around_step cel unm n t l t'"

abbreviation thread_run :: "('a, 'p) cel \<Rightarrow> ('d \<Rightarrow> rule_spec list option) \<Rightarrow> nat \<Rightarrow> 'p threads \<Rightarrow> step_label list
    \<Rightarrow> 'p threads \<Rightarrow> bool" where
  "thread_run cel unm n \<equiv> labelled_run (thread_step cel unm n)"

text \<open>All goroutines between two events.\<close>

definition at_rest :: "'p system \<Rightarrow> 'p threads" where
  "at_rest s = \<lparr>th_sys = s, th_engine = Ready, th_jobs = replicate (length (ps_workers (sy_pool s))) Idle\<rparr>"

end
