(* ===== verification/System_Properties.thy ===== *)
theory System_Properties
  imports Daemon_System AI_Properties
begin

text \<open>
  Properties of the composed system of \<open>Daemon_System\<close>: its maps run as those of the kernel
  machine do, every event is handled once and in order, and every BLOCK verdict and every
  SIGKILL goes back to a decision on an event the kernel submitted.
\<close>

section \<open>The invariant\<close>

definition same_exec :: "event \<Rightarrow> event \<Rightarrow> bool" where
  "same_exec e ev \<longleftrightarrow> ExecKey e = ExecKey ev \<and> e_pid e = e_pid ev
     \<and> e_hash_available e = e_hash_available ev"

definition sys_inv :: "nat \<Rightarrow> 'p system \<Rightarrow> bool" where
  "sys_inv n s \<longleftrightarrow> kmaps_wf n (sy_maps s)
     \<and> (\<forall>ev \<in> set (dm_queue (sy_daemon s)). \<exists>e \<in> set (events (sy_maps s)). same_exec e ev)"

text \<open>A system as it is started: nothing submitted, nothing queued.\<close>

definition sys_start :: "nat \<Rightarrow> 'p system \<Rightarrow> bool" where
  "sys_start n s \<longleftrightarrow> kmaps_wf n (sy_maps s) \<and> events (sy_maps s) = []
     \<and> dm_queue (sy_daemon s) = [] \<and> sy_read s = 0"

lemma sys_start_inv: "sys_start n s \<Longrightarrow> sys_inv n s"
  by (simp add: sys_start_def sys_inv_def)

text \<open>What is decoded is what was submitted.\<close>

lemma next_event_is:
  assumes "next_event s ev" "kmaps_wf n (sy_maps s)"
  shows "sy_read s < length (events (sy_maps s))" "ev = events (sy_maps s) ! sy_read s"
    "ev \<in> set (events (sy_maps s))" "event_wf ev"
proof -
  show r: "sy_read s < length (events (sy_maps s))" using assms(1) by (simp add: next_event_def)
  then have wf: "event_wf (events (sy_maps s) ! sy_read s)"
    using assms(2) by (simp add: kmaps_wf_def list_all_length)
  obtain pad where "length pad = 5" "DecodeEvent (event_bytes pad (events (sy_maps s) ! sy_read s)) = Inr ev"
    using assms(1) by (auto simp: next_event_def)
  then show "ev = events (sy_maps s) ! sy_read s"
    using decode_event_bytes [OF wf, of pad "[]"] by simp
  then show "ev \<in> set (events (sy_maps s))" "event_wf ev" using r wf by auto
qed

lemma ExecKey_wf: "event_wf ev \<Longrightarrow> exec_key_wf (ExecKey ev)"
  by (simp add: event_wf_def exec_key_wf_def ExecKey_def)

lemma queued_wf:
  assumes "sys_inv n s" "ev \<in> set (dm_queue (sy_daemon s))"
  shows "exec_key_wf (ExecKey ev)"
proof -
  obtain e where "e \<in> set (events (sy_maps s))" "same_exec e ev" using assms by (auto simp: sys_inv_def)
  moreover have "event_wf e" if "e \<in> set (events (sy_maps s))" for e
    using assms(1) that by (auto simp: sys_inv_def kmaps_wf_def list_all_iff)
  ultimately show ?thesis using ExecKey_wf [of e] by (simp add: same_exec_def)
qed

section \<open>One step\<close>

text \<open>A step is at most one operation of the kernel machine on the maps.\<close>

fun kernel_ops :: "step_label list \<Rightarrow> kop list" where
  "kernel_ops [] = []"
| "kernel_ops (Kernel op # ls) = op # kernel_ops ls"
| "kernel_ops (_ # ls) = kernel_ops ls"

lemma kernel_ops_append [simp]: "kernel_ops (ls @ ls') = kernel_ops ls @ kernel_ops ls'"
  by (induction ls rule: kernel_ops.induct) simp_all

lemma one_verdict_op:
  assumes "exec_key_wf key" "st' \<in> {st, kstep (Allow_Exec ok key) st, kstep (Block_Exec ok key) st}"
  shows "\<exists>ops. list_all (kop_ok n) ops \<and> st' = krun ops st \<and> filter (\<lambda>op. writes_key op = None) ops = []"
proof -
  consider "st' = st" | "st' = kstep (Allow_Exec ok key) st" | "st' = kstep (Block_Exec ok key) st"
    using assms(2) by blast
  then show ?thesis
  proof cases
    case 1
    then show ?thesis by (intro exI [of _ "[]"]) (simp add: krun_def)
  next
    case 2
    then show ?thesis using assms(1) by (intro exI [of _ "[Allow_Exec ok key]"]) (simp add: krun_def)
  next
    case 3
    then show ?thesis using assms(1) by (intro exI [of _ "[Block_Exec ok key]"]) (simp add: krun_def)
  qed
qed

lemma sys_step_ops:
  assumes "sys_step cel unm n s l s'" "sys_inv n s"
  shows "\<exists>ops. list_all (kop_ok n) ops \<and> sy_maps s' = krun ops (sy_maps s)
    \<and> filter (\<lambda>op. writes_key op = None) ops = kernel_ops [l]"
  using assms
proof (induction rule: sys_step.induct)
  case (kernel op s)
  then show ?case by (intro exI [of _ "[op]"]) (simp add: krun_def)
next
  case (decided s ev env v en dm)
  have wf: "exec_key_wf (ExecKey ev)"
    using next_event_is(4) [OF decided(1)] decided(4) ExecKey_wf by (auto simp: sys_inv_def)
  have "dm_maps dm \<in> {sy_maps s, kstep (Allow_Exec (pe_sys_ok env) (ExecKey ev)) (sy_maps s),
      kstep (Block_Exec (pe_sys_ok env) (ExecKey ev)) (sy_maps s)}"
    using Process_maps [of cel env ev "sy_engine s" "sy_daemon s"] decided(3) by (simp add: sy_maps_def)
  from one_verdict_op [OF wf this]
  show ?case by (simp add: sy_daemon_def sy_maps_def)
next
  case (analysed i s ev rest sys_ok outcome wp dm)
  have wf: "exec_key_wf (ExecKey ev)" using queued_wf [OF analysed(5)] analysed(3) by simp
  have "dm_maps dm \<in> {sy_maps s, kstep (Allow_Exec sys_ok (ExecKey ev)) (sy_maps s),
      kstep (Block_Exec sys_ok (ExecKey ev)) (sy_maps s)}"
    using receive_parts(4) [OF analysed(4,3)] by (simp add: sy_maps_def)
  from one_verdict_op [OF wf this]
  show ?case by (simp add: sy_daemon_def sy_maps_def)
qed (rule exI [of _ "[]"], simp add: krun_def sy_maps_def sy_daemon_def)+

lemma krun_wf: "kmaps_wf n st \<Longrightarrow> list_all (kop_ok n) ops \<Longrightarrow> kmaps_wf n (krun ops st)"
  unfolding krun_def by (rule kwf.run_inv)

lemma sys_step_queue:
  assumes "sys_step cel unm n s l s'" "sys_inv n s"
  shows "\<forall>ev \<in> set (dm_queue (sy_daemon s')). \<exists>e \<in> set (events (sy_maps s)). same_exec e ev"
  using assms
proof (induction rule: sys_step.induct)
  case (decided s ev env v en dm)
  have ev: "ev \<in> set (events (sy_maps s))"
    using next_event_is(3) [OF decided(1), of n] decided(4) by (simp add: sys_inv_def)
  have "same_exec ev (snd (resolve_script env (sy_engine s) ev))" by (simp add: same_exec_def)
  moreover have "set (dm_queue dm) \<subseteq> insert (snd (resolve_script env (sy_engine s) ev)) (set (dm_queue (sy_daemon s)))"
    using Process_queue [of cel env ev "sy_engine s" "sy_daemon s"] decided(3) by (auto split: if_splits)
  ultimately show ?case using decided(4) ev by (auto simp: sys_inv_def sy_daemon_def)
next
  case (analysed i s ev rest sys_ok outcome wp dm)
  have "dm_queue dm = rest" by (rule receive_parts(2) [OF analysed(4,3)])
  then show ?case using analysed(3,5) by (auto simp: sys_inv_def sy_daemon_def)
qed (auto simp: sys_inv_def sy_daemon_def set_maps_def)

lemma sys_step_inv:
  assumes "sys_step cel unm n s l s'" "sys_inv n s"
  shows "sys_inv n s'"
proof -
  obtain ops where "list_all (kop_ok n) ops" "sy_maps s' = krun ops (sy_maps s)"
    using sys_step_ops [OF assms] by blast
  moreover obtain evs where "events (sy_maps s') = events (sy_maps s) @ evs"
    using sys_step_grows [OF assms(1)] by blast
  ultimately show ?thesis
    using sys_step_queue [OF assms] assms(2) krun_wf by (auto simp: sys_inv_def)
qed

lemma sys_run_inv: "sys_run cel unm n s0 ls s \<Longrightarrow> sys_inv n s0 \<Longrightarrow> sys_inv n s"
  by (induction rule: sys_run.induct) (auto intro: sys_step_inv)

section \<open>Refinement of the kernel machine\<close>

text \<open>
  Whatever the daemon does in between, the maps of the system run as those of the kernel
  machine: with the operations of the kernel in their order and only writes of verdicts, under
  well-formed keys, added. All that holds of the machine's runs (capacities, accounting,
  protected PIDs, delivery of events) so holds of the system.
\<close>
theorem system_refines_machine:
  assumes "sys_run cel unm n s0 ls s" "sys_start n s0"
  shows "\<exists>ops. list_all (kop_ok n) ops \<and> sy_maps s = krun ops (sy_maps s0)
    \<and> filter (\<lambda>op. writes_key op = None) ops = kernel_ops ls"
  using assms(1)
proof (induction rule: sys_run.induct)
  case start
  show ?case by (intro exI [of _ "[]"]) (simp add: krun_def)
next
  case (step ls s l s')
  then obtain ops where ops: "list_all (kop_ok n) ops" "sy_maps s = krun ops (sy_maps s0)"
    "filter (\<lambda>op. writes_key op = None) ops = kernel_ops ls" by blast
  obtain ops' where "list_all (kop_ok n) ops'" "sy_maps s' = krun ops' (sy_maps s)"
    "filter (\<lambda>op. writes_key op = None) ops' = kernel_ops [l]"
    using sys_step_ops [OF step.hyps(2) sys_run_inv [OF step.hyps(1) sys_start_inv [OF assms(2)]]] by blast
  with ops show ?case by (intro exI [of _ "ops @ ops'"]) (simp add: krun_def)
qed

section \<open>Every event once, in order\<close>

fun handled :: "step_label list \<Rightarrow> event list" where
  "handled [] = []"
| "handled (Bypassed ev # ls) = ev # handled ls"
| "handled (Decided ev v # ls) = ev # handled ls"
| "handled (_ # ls) = handled ls"

lemma handled_append [simp]: "handled (ls @ ls') = handled ls @ handled ls'"
  by (induction ls rule: handled.induct) simp_all

lemma sys_step_handled:
  assumes "sys_step cel unm n s l s'" "sys_inv n s" "sy_read s \<le> length (events (sy_maps s))"
  shows "handled [l] = drop (sy_read s) (take (sy_read s') (events (sy_maps s)))
    \<and> sy_read s \<le> sy_read s' \<and> sy_read s' \<le> length (events (sy_maps s))"
  using assms
proof (induction rule: sys_step.induct)
  case (bypassed s ev)
  note e = next_event_is [OF bypassed(1), of n]
  show ?case using e bypassed(3) by (simp add: sys_inv_def take_Suc_conv_app_nth)
next
  case (decided s ev env v en dm)
  note e = next_event_is [OF decided(1), of n]
  show ?case using e decided(4) by (simp add: sys_inv_def take_Suc_conv_app_nth)
qed simp_all

text \<open>
  Every event the kernel submits is handled at most once, in the order of submission and
  as it was submitted: what a run bypassed or decided is the prefix of the submitted events up
  to the reader's position.
\<close>
theorem handled_once_in_order:
  assumes "sys_run cel unm n s0 ls s" "sys_start n s0"
  shows "handled ls = take (sy_read s) (events (sy_maps s)) \<and> sy_read s \<le> length (events (sy_maps s))"
  using assms(1)
proof (induction rule: sys_run.induct)
  case start
  show ?case using assms(2) by (simp add: sys_start_def)
next
  case (step ls s l s')
  obtain evs where evs: "events (sy_maps s') = events (sy_maps s) @ evs"
    using sys_step_grows [OF step.hyps(2)] by blast
  have h: "handled [l] = drop (sy_read s) (take (sy_read s') (events (sy_maps s)))"
    "sy_read s \<le> sy_read s'" "sy_read s' \<le> length (events (sy_maps s))"
    using sys_step_handled [OF step.hyps(2) sys_run_inv [OF step.hyps(1) sys_start_inv [OF assms(2)]]]
      step.IH by simp_all
  have "take (sy_read s) (take (sy_read s') (events (sy_maps s))) = take (sy_read s) (events (sy_maps s))"
    using h(2) by (simp add: min_def)
  then have "handled (ls @ [l]) = take (sy_read s') (events (sy_maps s))"
    using step.IH h(1) append_take_drop_id [of "sy_read s" "take (sy_read s') (events (sy_maps s))"] by simp
  then show ?case using evs h(3) by simp
qed

section \<open>Where verdicts and signals come from\<close>

text \<open>The decision a label stands for, under the configuration of the parts.\<close>

definition blocks :: "string \<Rightarrow> WorkerPoolConfig \<Rightarrow> step_label \<Rightarrow> event \<Rightarrow> bool" where
  "blocks mode cfg l ev \<longleftrightarrow>
     (\<exists>v. l = Decided ev v \<and> ve_Action v = ActionBlock) \<and> mode \<noteq> ModeMonitor
     \<or> (\<exists>outcome. l = Analysed ev outcome \<and> ai_blocks cfg outcome)"

definition fails_closed :: "WorkerPoolConfig \<Rightarrow> step_label \<Rightarrow> event \<Rightarrow> bool" where
  "fails_closed cfg l ev \<longleftrightarrow> (\<exists>err. l = Analysed ev (Inl err)) \<and> \<not> pc_FailOpen cfg"

definition sys_mode :: "'p system \<Rightarrow> string" where "sys_mode s = en_mode (sy_engine s)"
definition sys_cfg :: "'p system \<Rightarrow> WorkerPoolConfig" where "sys_cfg s = wp_config (ps_pool (sy_pool s))"

lemma sys_step_config:
  "sys_step cel unm n s l s' \<Longrightarrow> sys_mode s' = sys_mode s \<and> sys_cfg s' = sys_cfg s"
proof (induction rule: sys_step.induct)
  case (decided s ev env v en dm)
  then show ?case
    using Process_mode [of cel env ev "sy_engine s" "sy_daemon s"] by (simp add: sys_mode_def sys_cfg_def)
next
  case (analysed i s ev rest sys_ok outcome wp dm)
  then show ?case
    using receive_parts(1) [OF analysed(4,3)] by (simp add: sys_mode_def sys_cfg_def)
qed (simp_all add: sys_mode_def sys_cfg_def reload_mode set_maps_def)

lemma sys_run_config:
  "sys_run cel unm n s0 ls s \<Longrightarrow> sys_mode s = sys_mode s0 \<and> sys_cfg s = sys_cfg s0"
  by (induction rule: sys_run.induct) (simp_all add: sys_step_config)

definition blocked :: "'p system \<Rightarrow> exec_key \<Rightarrow> bool" where
  "blocked s k \<longleftrightarrow> bpf_map_lookup_elem (verdict_map (sy_maps s)) k = Some VERDICT_BLOCK"

lemma kernel_keeps_verdicts:
  "writes_key op = None \<Longrightarrow> bpf_map_lookup_elem (verdict_map (kstep op st)) k = bpf_map_lookup_elem (verdict_map st) k"
  using kstep_verdict [of k "bpf_map_lookup_elem (verdict_map st) k" st op] by (simp add: has_verdict_def)

lemma sys_step_block:
  assumes "sys_step cel unm n s l s'" "blocked s' k"
  shows "blocked s k \<or> (\<exists>ev. blocks (sys_mode s) (sys_cfg s) l ev \<and> ExecKey ev = k \<and> e_hash_available ev \<noteq> 0)"
  using assms
proof (induction rule: sys_step.induct)
  case (kernel op s)
  then show ?case by (simp add: blocked_def kernel_keeps_verdicts)
next
  case (decided s ev env v en dm)
  then show ?case
    using Process_block [of cel env ev "sy_engine s" "sy_daemon s" k]
    by (auto simp: blocked_def sy_maps_def sy_daemon_def blocks_def sys_mode_def)
next
  case (analysed i s ev rest sys_ok outcome wp dm)
  then show ?case
    using receive_parts(6) [OF analysed(4,3), of k]
    by (auto simp: blocked_def sy_maps_def sy_daemon_def blocks_def sys_cfg_def)
qed (simp_all add: blocked_def sy_maps_def sy_daemon_def)

lemma sys_step_kill:
  assumes "sys_step cel unm n s l s'"
  shows "dm_kills (sy_daemon s') = dm_kills (sy_daemon s)
    \<or> (\<exists>ev. (blocks (sys_mode s) (sys_cfg s) l ev \<or> fails_closed (sys_cfg s) l ev)
         \<and> dm_kills (sy_daemon s') = dm_kills (sy_daemon s) @ [e_pid ev])"
  using assms
proof (induction rule: sys_step.induct)
  case (decided s ev env v en dm)
  then show ?case
    using Process_kills [of cel env ev "sy_engine s" "sy_daemon s"]
    by (auto simp: sy_daemon_def blocks_def sys_mode_def split: if_splits)
next
  case (analysed i s ev rest sys_ok outcome wp dm)
  then show ?case
    using receive_parts(5) [OF analysed(4,3)]
    by (auto simp: sy_daemon_def blocks_def fails_closed_def sys_cfg_def split: if_splits)
qed (simp_all add: sy_daemon_def set_maps_def)

text \<open>The event of a decision was submitted by the kernel.\<close>

lemma label_event:
  assumes "sys_step cel unm n s l s'" "sys_inv n s"
    and "blocks mode cfg l ev \<or> fails_closed cfg l ev"
  shows "\<exists>e \<in> set (events (sy_maps s)). same_exec e ev"
  using assms
proof (induction rule: sys_step.induct)
  case (decided s ev' env v en dm)
  then show ?case
    using next_event_is(3) [OF decided(1), of n]
    by (auto simp: blocks_def fails_closed_def sys_inv_def same_exec_def)
next
  case (analysed i s ev' rest sys_ok outcome wp dm)
  then show ?case by (auto simp: blocks_def fails_closed_def sys_inv_def)
qed (auto simp: blocks_def fails_closed_def)

text \<open>A run of two steps: process 11 executes the binary 2, and a rule blocks the event.\<close>

definition sc_system :: "string \<Rightarrow> string system" where
  "sc_system mode = \<lparr>sy_engine = sc_engine mode [sc_rule '''' ''BLOCK''] [],
     sy_pool = pool_start (sc_pool mode True) (sc_daemon st_open), sy_read = 0\<rparr>"

lemma sc_system_start: "sys_start 1 (sc_system mode)"
  using st_open_wf
  by (simp add: sys_start_def sc_system_def sy_maps_def sy_daemon_def pool_start_def) (simp add: st_open_def)

lemma sc_system_config: "sys_mode (sc_system mode) = mode" "sys_cfg (sc_system mode) = wp_config (sc_pool mode True)"
  by (simp_all add: sys_mode_def sys_cfg_def sc_system_def pool_start_def)

lemma sc_system_run:
  obtains ev v s where
    "sys_run sc_cel (\<lambda>_::unit. None) 1 (sc_system mode) [Kernel (Exec (sc_exec 11 10 2) sc_bprm), Decided ev v] s"
    "e_pid ev = 11" "ExecKey ev = sc_key 1 2" "ve_Action v = ActionBlock" "sy_read s = 1"
    "bpf_map_lookup_elem (pid_hash_map (sy_maps s)) 10 = Some (sc_hash 1)"
    "mode \<noteq> ModeMonitor \<Longrightarrow> blocked s (sc_key 1 2)"
    "dm_kills (sy_daemon s) = (if mode \<noteq> ModeMonitor then [11] else [])"
proof -
  let ?op = "Exec (sc_exec 11 10 2) sc_bprm" and ?en = "sc_engine mode [sc_rule '''' ''BLOCK''] []"
  define m where "m = kstep ?op st_open"
  have key: "chain_key (sc_exec 11 10 2) sc_bprm st_open = sc_key 1 2"
    by (rule sc_chain_key_known) (simp add: st_open_def bpf_map_lookup_elem_def)
  obtain ev where ev: "events m = [ev]" "e_pid ev = 11" "ExecKey ev = sc_key 1 2" "e_is_map_hit ev = 0"
    "e_hash_available ev = 1" "event_wf ev"
  proof
    let ?ev = "fill_event (sc_exec 11 10 2) sc_bprm False True (parent_known (sc_exec 11 10 2) st_open) (sc_key 1 2) sc_event"
    show "events m = [?ev]"
    proof -
      have "verdict_map st_open = []" "events st_open = []" by (simp_all add: st_open_def)
      then show ?thesis
        using key by (simp add: m_def bprm_check_hash emit_step_def bpf_map_lookup_elem_def)
    qed
    show "e_pid ?ev = 11" "ExecKey ?ev = sc_key 1 2" "e_is_map_hit ?ev = 0" "e_hash_available ?ev = 1"
      by (simp_all add: fill_event_def ExecKey_def sc_key_def Let_def split: prod.split)
    show "event_wf ?ev" by (rule fill_event_wf) simp_all
  qed
  let ?s1 = "set_maps m (sc_system mode)"
  have maps0: "sy_maps (sc_system mode) = st_open" "sy_daemon (sc_system mode) = sc_daemon st_open"
    by (simp_all add: sc_system_def sy_maps_def sy_daemon_def pool_start_def)
  have daemon1: "sy_daemon ?s1 = sc_daemon m"
    by (simp add: sy_daemon_def set_maps_def sc_daemon_def sc_system_def pool_start_def)
  have s1: "sys_step sc_cel (\<lambda>_::unit. None) 1 (sc_system mode) (Kernel ?op) ?s1"
    using sys_step.kernel [of ?op 1 sc_cel "\<lambda>_::unit. None" "sc_system mode"] by (simp add: maps0 m_def)
  have next1: "next_event ?s1 ev"
    using decode_event_bytes [OF ev(6), of "replicate 5 0" "[]"]
    by (auto simp: next_event_def ev(1) sc_system_def intro!: exI [of _ "replicate 5 0"])
  have not_cached: "\<not> cached sc_penv ev ?en" by (simp add: cached_def Contains_def)
  have rule: "rule_for sc_cel sc_penv ev ?en = Some (sc_rule '''' ''BLOCK'')"
    by (simp add: rule_for_def Match_def activation_of_def sc_cel_def sc_rule_def HasPrefix_def)
  obtain v en dm where p: "Process sc_cel sc_penv ev ?en (sc_daemon m) = (v, en, dm)"
    by (metis prod.exhaust)
  have v: "ve_Action v = ActionBlock"
    using p rule not_cached by (auto simp: Process_tiers Let_def rule_outcome_def actionBlockLabel_def)
  have en1: "sy_engine ?s1 = ?en" by (simp add: sc_system_def)
  note s2 = sys_step.decided [of ?s1 ev sc_cel sc_penv, unfolded daemon1 en1, OF next1 ev(4) p,
      of "\<lambda>_::unit. None" 1]
  note run = sys_run.step [OF sys_run.step [OF sys_run.start s1] s2]
  have parent_m: "bpf_map_lookup_elem (pid_hash_map m) 10 = Some (sc_hash 1)"
    by (simp add: m_def bprm_check_pid_hash_map pid_update_def bpf_lru_update_def bpf_lru_evict_def
        bpf_hash_update_def PID_HASH_MAP_MAX_def Let_def bpf_map_lookup_elem_def) (simp add: st_open_def bpf_map_lookup_elem_def)
  have verdicts_m: "verdict_map m = []" by (simp add: m_def) (simp add: st_open_def)
  have parent: "bpf_map_lookup_elem (pid_hash_map (dm_maps dm)) 10 = Some (sc_hash 1)"
    using Process_verdicts_only [of "sc_daemon m" sc_cel sc_penv ev ?en] parent_m
    by (simp add: p verdicts_only_def)
  have block: "bpf_map_lookup_elem (verdict_map (dm_maps dm)) (sc_key 1 2) = Some VERDICT_BLOCK"
    if "mode \<noteq> ModeMonitor"
  proof -
    have "\<exists>maps. BlockExec True (sc_key 1 2) m = Inr maps"
      by (simp add: BlockExec_ok_iff verdicts_m VERDICT_MAP_MAX_def)
    then show ?thesis
      using that p rule not_cached ev(3,5)
      by (auto simp: Process_tiers Let_def rule_outcome_def actionBlockLabel_def enforce_verdict)
  qed
  have kills: "dm_kills dm = (if mode \<noteq> ModeMonitor then [11] else [])"
    using Process_kills [of sc_cel sc_penv ev ?en "sc_daemon m"] v ev(2) by (simp add: p)
  show ?thesis
    by (rule that [OF run [unfolded append_Nil append_Cons] ev(2,3) v])
      (simp_all add: sc_system_def sy_maps_def sy_daemon_def blocked_def parent block kills)
qed

theorem system_refines_machine_witness:
  "\<exists>ev v s ops. sys_run sc_cel (\<lambda>_::unit. None) 1 (sc_system ''lockdown'')
       [Kernel (Exec (sc_exec 11 10 2) sc_bprm), Decided ev v] s
     \<and> sy_maps s = krun ops (sy_maps (sc_system ''lockdown''))
     \<and> filter (\<lambda>op. writes_key op = None) ops = [Exec (sc_exec 11 10 2) sc_bprm]"
proof (rule sc_system_run [of "''lockdown''"])
  fix ev v s
  assume run: "sys_run sc_cel (\<lambda>_::unit. None) 1 (sc_system ''lockdown'')
      [Kernel (Exec (sc_exec 11 10 2) sc_bprm), Decided ev v] s"
  from system_refines_machine [OF this sc_system_start] run show ?thesis
    unfolding kernel_ops.simps by blast
qed

theorem handled_once_in_order_witness:
  "\<exists>ev v s. sys_run sc_cel (\<lambda>_::unit. None) 1 (sc_system ''lockdown'')
       [Kernel (Exec (sc_exec 11 10 2) sc_bprm), Decided ev v] s
     \<and> [ev] = take (sy_read s) (events (sy_maps s)) \<and> sy_read s = 1"
proof (rule sc_system_run [of "''lockdown''"])
  fix ev v s
  assume run: "sys_run sc_cel (\<lambda>_::unit. None) 1 (sc_system ''lockdown'')
      [Kernel (Exec (sc_exec 11 10 2) sc_bprm), Decided ev v] s" and read: "sy_read s = 1"
  from handled_once_in_order [OF run sc_system_start] run read show ?thesis
    unfolding handled.simps by blast
qed

text \<open>
  No execution is denied without a reason on record: in every state a run reaches a denied
  execution has an exec chain that was blocked when the daemon started, or that a BLOCK rule,
  outside monitor mode, or a risk above the threshold decided on, for an event with an IMA hash
  that the kernel submitted.
\<close>
theorem denial_justified:
  assumes "sys_run cel unm n s0 ls s" "sys_start n s0"
    and "fst (zask_bprm_check env bprm (sy_maps s)) = - EPERM"
  shows "blocked s0 (chain_key env bprm (sy_maps s))
    \<or> (\<exists>l \<in> set ls. \<exists>ev. blocks (sys_mode s0) (sys_cfg s0) l ev
         \<and> ExecKey ev = chain_key env bprm (sy_maps s) \<and> e_hash_available ev \<noteq> 0
         \<and> (\<exists>e \<in> set (events (sy_maps s)). same_exec e ev))"
proof -
  have "blocked s k \<longrightarrow> blocked s0 k
      \<or> (\<exists>l \<in> set ls. \<exists>ev. blocks (sys_mode s0) (sys_cfg s0) l ev
           \<and> ExecKey ev = k \<and> e_hash_available ev \<noteq> 0
           \<and> (\<exists>e \<in> set (events (sy_maps s)). same_exec e ev))" for k
    using assms(1)
  proof (induction rule: sys_run.induct)
    case (step ls s l s')
    note inv = sys_run_inv [OF step.hyps(1) sys_start_inv [OF assms(2)]]
    note cfg = sys_run_config [OF step.hyps(1)]
    obtain evs where evs: "events (sy_maps s') = events (sy_maps s) @ evs"
      using sys_step_grows [OF step.hyps(2)] by blast
    show ?case
    proof
      assume "blocked s' k"
      from sys_step_block [OF step.hyps(2) this] show "blocked s0 k
        \<or> (\<exists>l \<in> set (ls @ [l]). \<exists>ev. blocks (sys_mode s0) (sys_cfg s0) l ev
             \<and> ExecKey ev = k \<and> e_hash_available ev \<noteq> 0
             \<and> (\<exists>e \<in> set (events (sy_maps s')). same_exec e ev))"
      proof
        assume "blocked s k"
        then show ?thesis using step.IH evs by auto
      next
        assume "\<exists>ev. blocks (sys_mode s) (sys_cfg s) l ev \<and> ExecKey ev = k \<and> e_hash_available ev \<noteq> 0"
        then show ?thesis using label_event [OF step.hyps(2) inv] cfg evs by fastforce
      qed
    qed
  qed simp
  moreover have "blocked s (chain_key env bprm (sy_maps s))"
    using assms(3) by (simp add: bprm_check_ret blocked_def EPERM_def split: if_splits)
  ultimately show ?thesis by blast
qed

theorem denial_justified_witness:
  "\<exists>ls s. sys_run sc_cel (\<lambda>_::unit. None) 1 (sc_system ''lockdown'') ls s
     \<and> fst (zask_bprm_check (sc_exec 12 10 2) sc_bprm (sy_maps s)) = - EPERM
     \<and> (\<exists>l \<in> set ls. \<exists>ev. blocks ''lockdown'' (wp_config (sc_pool ''lockdown'' True)) l ev)"
proof -
  obtain ev v s where run: "sys_run sc_cel (\<lambda>_::unit. None) 1 (sc_system ''lockdown'')
      [Kernel (Exec (sc_exec 11 10 2) sc_bprm), Decided ev v] s"
    and parent: "bpf_map_lookup_elem (pid_hash_map (sy_maps s)) 10 = Some (sc_hash 1)"
    and b: "(''lockdown'' :: string) \<noteq> ModeMonitor \<Longrightarrow> blocked s (sc_key 1 2)"
    using sc_system_run [of "''lockdown''"] by metis
  have denied: "fst (zask_bprm_check (sc_exec 12 10 2) sc_bprm (sy_maps s)) = - EPERM"
    using b sc_chain_key_known [OF parent, of 12 2 sc_bprm]
    by (simp add: bprm_check_ret blocked_def ModeMonitor_def)
  have "\<not> blocked (sc_system ''lockdown'') k" for k
    by (simp add: blocked_def sc_system_def sy_maps_def sy_daemon_def pool_start_def)
      (simp add: st_open_def bpf_map_lookup_elem_def)
  then show ?thesis
    using run denied denial_justified [OF run sc_system_start denied] sc_system_config by metis
qed

text \<open>The events whose processes a step kills.\<close>

fun kills_of :: "string \<Rightarrow> WorkerPoolConfig \<Rightarrow> step_label \<Rightarrow> event list" where
  "kills_of mode cfg (Decided ev v) = (if ve_Action v = ActionBlock \<and> mode \<noteq> ModeMonitor then [ev] else [])"
| "kills_of mode cfg (Analysed ev outcome) =
     (if ai_blocks cfg outcome \<or> (\<exists>err. outcome = Inl err) \<and> \<not> pc_FailOpen cfg then [ev] else [])"
| "kills_of mode cfg _ = []"

lemma sys_step_kills_of:
  assumes "sys_step cel unm n s l s'"
  shows "dm_kills (sy_daemon s') = dm_kills (sy_daemon s) @ map e_pid (kills_of (sys_mode s) (sys_cfg s) l)"
  using assms
proof (induction rule: sys_step.induct)
  case (decided s ev env v en dm)
  then show ?case
    using Process_kills [of cel env ev "sy_engine s" "sy_daemon s"] by (simp add: sy_daemon_def sys_mode_def)
next
  case (analysed i s ev rest sys_ok outcome wp dm)
  then show ?case
    using receive_parts(5) [OF analysed(4,3)] by (simp add: sy_daemon_def sys_cfg_def)
qed (simp_all add: sy_daemon_def set_maps_def)

lemma kills_of_label:
  "ev \<in> set (kills_of mode cfg l) \<Longrightarrow> blocks mode cfg l ev \<or> fails_closed cfg l ev"
  by (cases l) (auto simp: blocks_def fails_closed_def split: if_splits)

text \<open>
  The signals are exactly those of the decisions: every SIGKILL of a run belongs to one
  decision, a BLOCK rule or a risk above the threshold outside monitor mode or a failed analysis
  with failOpen off, each of them sends exactly one, in order, to the process of an event the
  kernel submitted.
\<close>

theorem kills_are_decisions:
  assumes "sys_run cel unm n s0 ls s" "sys_start n s0"
  shows "dm_kills (sy_daemon s)
      = dm_kills (sy_daemon s0) @ map e_pid (concat (map (kills_of (sys_mode s0) (sys_cfg s0)) ls))
    \<and> (\<forall>ev \<in> set (concat (map (kills_of (sys_mode s0) (sys_cfg s0)) ls)).
         \<exists>e \<in> set (events (sy_maps s)). same_exec e ev)"
  using assms(1)
proof (induction rule: sys_run.induct)
  case (step ls s l s')
  note inv = sys_run_inv [OF step.hyps(1) sys_start_inv [OF assms(2)]]
  note cfg = sys_run_config [OF step.hyps(1)]
  obtain evs where evs: "events (sy_maps s') = events (sy_maps s) @ evs"
    using sys_step_grows [OF step.hyps(2)] by blast
  have "\<exists>e \<in> set (events (sy_maps s)). same_exec e ev"
    if "ev \<in> set (kills_of (sys_mode s0) (sys_cfg s0) l)" for ev
    using label_event [OF step.hyps(2) inv kills_of_label [OF that]] .
  then show ?case
    using sys_step_kills_of [OF step.hyps(2)] cfg step.IH evs by (simp add: ball_Un) blast
qed simp

theorem kills_are_decisions_witness:
  "\<exists>ls s. sys_run sc_cel (\<lambda>_::unit. None) 1 (sc_system ''lockdown'') ls s
     \<and> dm_kills (sy_daemon s) = [11]
     \<and> map e_pid (concat (map (kills_of ''lockdown'' (wp_config (sc_pool ''lockdown'' True))) ls)) = [11]"
proof (rule sc_system_run [of "''lockdown''"])
  fix ev v s
  assume run: "sys_run sc_cel (\<lambda>_::unit. None) 1 (sc_system ''lockdown'')
      [Kernel (Exec (sc_exec 11 10 2) sc_bprm), Decided ev v] s"
    and kills: "dm_kills (sy_daemon s) = (if ''lockdown'' \<noteq> ModeMonitor then [11] else [])"
  have start: "dm_kills (sy_daemon (sc_system ''lockdown'')) = []"
    by (simp add: sc_system_def sy_daemon_def pool_start_def)
  have lockdown: "''lockdown'' \<noteq> ModeMonitor" by (simp add: ModeMonitor_def)
  have "dm_kills (sy_daemon s) = map e_pid (concat (map (kills_of ''lockdown'' (wp_config (sc_pool ''lockdown'' True)))
      [Kernel (Exec (sc_exec 11 10 2) sc_bprm), Decided ev v]))"
    using kills_are_decisions [OF run sc_system_start] start unfolding sc_system_config by (simp del: map_append)
  moreover have "dm_kills (sy_daemon s) = [11]" using kills lockdown by simp
  ultimately show ?thesis using run by metis
qed

text \<open>
  Monitor mode is harmless as a whole: when the engine and the pool are in monitor mode,
  failures are let pass and no chain was blocked at the start, then whatever the rules and the
  AI say no process is killed and no execution is ever denied.
\<close>
theorem monitor_system_harmless:
  assumes "sys_run cel unm n s0 ls s" "sys_start n s0"
    and "sys_mode s0 = ModeMonitor" "pc_Mode (sys_cfg s0) = ''monitor''" "pc_FailOpen (sys_cfg s0)"
    and "\<And>k. \<not> blocked s0 k"
  shows "dm_kills (sy_daemon s) = dm_kills (sy_daemon s0)
    \<and> fst (zask_bprm_check env bprm (sy_maps s)) = 0"
proof -
  have "dm_kills (sy_daemon s) = dm_kills (sy_daemon s0) \<and> (\<forall>k. \<not> blocked s k)"
    using assms(1)
  proof (induction rule: sys_run.induct)
    case (step ls s l s')
    have cfg: "sys_mode s = ModeMonitor" "pc_Mode (sys_cfg s) = ''monitor''" "pc_FailOpen (sys_cfg s)"
      using sys_run_config [OF step.hyps(1)] assms(3-5) by simp_all
    have none: "\<not> blocks (sys_mode s) (sys_cfg s) l ev" "\<not> fails_closed (sys_cfg s) l ev" for ev
      using cfg by (simp_all add: blocks_def fails_closed_def ai_blocks_def)
    have "dm_kills (sy_daemon s') = dm_kills (sy_daemon s)"
      using sys_step_kill [OF step.hyps(2)] none by blast
    moreover have "\<not> blocked s' k" for k
      using sys_step_block [OF step.hyps(2), of k] none step.IH by blast
    ultimately show ?case using step.IH by simp
  qed (simp add: assms(6))
  then show ?thesis by (simp add: bprm_check_ret blocked_def)
qed

theorem monitor_system_harmless_witness:
  "\<exists>s. sys_run sc_cel (\<lambda>_::unit. None) 1 (sc_system ''monitor'')
       [Kernel (Exec (sc_exec 11 10 2) sc_bprm)] s
     \<and> dm_kills (sy_daemon s) = [] \<and> fst (zask_bprm_check (sc_exec 12 10 2) sc_bprm (sy_maps s)) = 0"
proof -
  have step: "sys_step sc_cel (\<lambda>_::unit. None) 1 (sc_system ''monitor'') (Kernel (Exec (sc_exec 11 10 2) sc_bprm))
      (set_maps (kstep (Exec (sc_exec 11 10 2) sc_bprm) (sy_maps (sc_system ''monitor''))) (sc_system ''monitor''))"
    by (rule sys_step.kernel) simp_all
  note run = sys_run.step [OF sys_run.start step, unfolded append_Nil]
  have none: "\<not> blocked (sc_system ''monitor'') k" for k
    by (simp add: blocked_def sc_system_def sy_maps_def sy_daemon_def pool_start_def)
      (simp add: st_open_def bpf_map_lookup_elem_def)
  have kills: "dm_kills (sy_daemon (sc_system ''monitor'')) = []"
    by (simp add: sc_system_def sy_daemon_def pool_start_def)
  show ?thesis
    using monitor_system_harmless [OF run sc_system_start, unfolded sc_system_config]
      run none kills by (auto simp: ModeMonitor_def)
qed

section \<open>The queue of the system\<close>

text \<open>
  The books of the pool hold with the engine as the sender: the events \<open>Process\<close> queues are the
  routed ones.
\<close>

lemma sys_step_books:
  "sys_step cel unm n s l s' \<Longrightarrow> pool_inv (sy_pool s) \<Longrightarrow> pool_inv (sy_pool s')"
proof (induction rule: sys_step.induct)
  case (decided s ev env v en dm)
  then show ?case
    using Process_queue [of cel env ev "sy_engine s" "sy_daemon s"]
    by (auto simp: pool_inv_def sy_daemon_def split: if_splits)
next
  case (analysed i s ev rest sys_ok outcome wp dm)
  then show ?case
    using worker_step_inv [OF worker_step.take] by (fastforce simp: sy_daemon_def)
next
  case (leaves s p)
  then show ?case using worker_step_inv by fastforce
qed (simp_all add: pool_inv_def set_maps_def sy_daemon_def)

text \<open>
  The accounting of the queue with the engine as the sender: along every run of the system
  the events processed and waiting are those submitted and routed, the queue keeps to its
  capacity, and an event leaves the queue only to be analysed.
\<close>
theorem system_queue_books:
  assumes "sys_run cel unm n s0 ls s" "pool_inv (sy_pool s0)"
  shows "pool_inv (sy_pool s)"
  using assms by (induction rule: sys_run.induct) (auto intro: sys_step_books)

end
