(* ===== verification/Thread_Invariant.thy ===== *)
theory Thread_Invariant
  imports Daemon_Steps System_Properties
begin

text \<open>
  The invariant of the goroutines of \<open>Daemon_Steps\<close>: what each of them has still to do belongs
  to the event at hand, and that event was submitted by the kernel.
\<close>

text \<open>The sum over the goroutines when one of them steps.\<close>

lemma sum_list_update_add:
  fixes f :: "'b \<Rightarrow> 'c::comm_monoid_add"
  assumes "i < length xs"
  shows "sum_list (map f (xs[i := x])) + f (xs ! i) = sum_list (map f xs) + f x"
  using assms
proof (induction xs arbitrary: i)
  case (Cons y xs)
  then show ?case
  proof (cases i)
    case (Suc j)
    then have "sum_list (map f (xs[j := x])) + f (xs ! j) = sum_list (map f xs) + f x" using Cons by simp
    then show ?thesis using Suc by (simp add: add.assoc)
  qed (simp add: ac_simps)
qed simp

section \<open>What is left to do\<close>

fun concerns :: "event \<Rightarrow> world_act \<Rightarrow> bool" where
  "concerns ev (Send_Kill pid) \<longleftrightarrow> pid = e_pid ev"
| "concerns ev (Write_Block key) \<longleftrightarrow> key = ExecKey ev \<and> e_hash_available ev \<noteq> 0"
| "concerns ev (Write_Allow key) \<longleftrightarrow> key = ExecKey ev \<and> e_hash_available ev \<noteq> 0"

fun engine_concerns :: "event \<Rightarrow> engine_act \<Rightarrow> bool" where
  "engine_concerns ev (Remember key) \<longleftrightarrow> key = ExecKey ev"
| "engine_concerns ev (World a) \<longleftrightarrow> concerns ev a"
| "engine_concerns ev (Route ev') \<longleftrightarrow> same_exec ev ev'"

fun is_route :: "engine_act \<Rightarrow> bool" where
  "is_route (Route _) = True"
| "is_route _ = False"

text \<open>Routing is the last call of \<open>Process\<close>.\<close>

definition routes_last :: "engine_act list \<Rightarrow> bool" where
  "routes_last acts \<longleftrightarrow> (\<forall>a \<in> set (butlast acts). \<not> is_route a)"

definition submitted :: "kmaps \<Rightarrow> event \<Rightarrow> bool" where
  "submitted st ev \<longleftrightarrow> (\<exists>e \<in> set (events st). same_exec e ev)"

fun engine_ok :: "kmaps \<Rightarrow> engine_pc \<Rightarrow> bool" where
  "engine_ok st Ready \<longleftrightarrow> True"
| "engine_ok st (Matching env ev) \<longleftrightarrow> submitted st ev"
| "engine_ok st (Acting env ev v acts) \<longleftrightarrow>
     submitted st ev \<and> (\<forall>a \<in> set acts. engine_concerns ev a) \<and> routes_last acts"

fun job_ok :: "kmaps \<Rightarrow> worker_job \<Rightarrow> bool" where
  "job_ok st Idle \<longleftrightarrow> True"
| "job_ok st (Asking ev) \<longleftrightarrow> submitted st ev"
| "job_ok st (Answered ev outcome acts) \<longleftrightarrow> submitted st ev \<and> (\<forall>a \<in> set acts. concerns ev a)"

definition th_maps :: "'p threads \<Rightarrow> kmaps" where "th_maps t = sy_maps (th_sys t)"

definition thread_inv :: "nat \<Rightarrow> 'p threads \<Rightarrow> bool" where
  "thread_inv n t \<longleftrightarrow> sys_inv n (th_sys t) \<and> engine_ok (th_maps t) (th_engine t)
     \<and> (\<forall>j \<in> set (th_jobs t). job_ok (th_maps t) j)"

lemma at_rest_inv: "sys_inv n s \<Longrightarrow> thread_inv n (at_rest s)"
  by (simp add: thread_inv_def at_rest_def)

section \<open>The calls concern the event\<close>

lemma enforce_acts_concern: "a \<in> set (enforce_acts en ev (ExecKey ev)) \<Longrightarrow> concerns ev a"
  by (auto simp: enforce_acts_def split: if_splits)

lemma promote_acts_concern:
  "a \<in> set (promote_acts en (e_hash_available ev = 0) (ExecKey ev)) \<Longrightarrow> concerns ev a"
  by (auto simp: promote_acts_def split: if_splits)

lemma answer_acts_concern: "a \<in> set (answer_acts wp ev outcome) \<Longrightarrow> concerns ev a"
  by (auto simp: answer_acts_def executeBlock_acts_def split: sum.splits if_splits)

lemma concerns_same: "same_exec ev ev' \<Longrightarrow> concerns ev' a \<longleftrightarrow> concerns ev a"
  by (cases a) (auto simp: same_exec_def)

lemma same_exec_trans: "same_exec a b \<Longrightarrow> same_exec b c \<Longrightarrow> same_exec a c"
  by (simp add: same_exec_def)

lemma same_exec_resolved [simp]: "same_exec ev (snd (resolve_script env en ev))"
  by (simp add: same_exec_def)

lemma submitted_same: "submitted st ev \<Longrightarrow> same_exec ev ev' \<Longrightarrow> submitted st ev'"
  unfolding submitted_def by (blast intro: same_exec_trans)

lemma map_World_no_route: "a \<in> set (butlast (map World ws)) \<Longrightarrow> \<not> is_route a"
  by (auto dest!: in_set_butlastD)

lemma judge_parts:
  assumes "judge cel env ev en = (v, acts)"
  shows "\<forall>a \<in> set acts. engine_concerns ev a" "routes_last acts"
    "(\<exists>a \<in> set acts. is_route a) \<longleftrightarrow> ve_Tier v \<noteq> 2"
    "ve_Action v = ActionBlock \<Longrightarrow> ve_Tier v = 2"
proof -
  let ?ev = "snd (resolve_script env en ev)"
  note resolved = same_exec_resolved [of ev env en]
  have enforce: "concerns ev a" if "a \<in> set (enforce_acts en ?ev (ExecKey ev))" for a
    using enforce_acts_concern [of a en ?ev] that concerns_same [OF resolved] by simp
  have promote: "promote_acts en h key = [] \<or> promote_acts en h key = [Write_Allow key] \<and> \<not> h" for h key
    by (simp add: promote_acts_def)
  show "\<forall>a \<in> set acts. engine_concerns ev a"
    using assms enforce promote_acts_concern [of _ en ev]
    by (auto simp: judge_def Let_def case_prod_unfold split: option.splits if_splits)
  show "routes_last acts"
    using assms promote [of "e_hash_available ev = 0" "ExecKey ev"]
    by (auto simp: judge_def Let_def case_prod_unfold routes_last_def butlast_append
        split: option.splits if_splits dest: map_World_no_route)
  show "(\<exists>a \<in> set acts. is_route a) \<longleftrightarrow> ve_Tier v \<noteq> 2" "ve_Action v = ActionBlock \<Longrightarrow> ve_Tier v = 2"
    using assms by (auto simp: judge_def Let_def case_prod_unfold split: option.splits if_splits)
qed

section \<open>What one call does\<close>

lemma do_world_frame [simp]:
  "dm_queue (do_world ok a dm) = dm_queue dm" "dm_queue_cap (do_world ok a dm) = dm_queue_cap dm"
  by (cases a; simp)+

lemma do_world_maps:
  "dm_maps (do_world ok a dm) =
     (case a of Send_Kill pid \<Rightarrow> dm_maps dm
      | Write_Block key \<Rightarrow> kstep (Block_Exec ok key) (dm_maps dm)
      | Write_Allow key \<Rightarrow> kstep (Allow_Exec ok key) (dm_maps dm))"
  by (cases a) simp_all

lemma do_world_kills:
  "dm_kills (do_world ok a dm) = dm_kills dm @ (case a of Send_Kill pid \<Rightarrow> [pid] | _ \<Rightarrow> [])"
  by (cases a) simp_all

lemma do_world_ops:
  assumes "concerns ev a" "exec_key_wf (ExecKey ev)"
  shows "\<exists>ops. list_all (kop_ok n) ops \<and> dm_maps (do_world ok a dm) = krun ops (dm_maps dm)
    \<and> filter (\<lambda>op. writes_key op = None) ops = []"
  by (rule one_verdict_op [of "ExecKey ev" _ _ ok]) (use assms in \<open>auto simp: do_world_maps split: world_act.splits\<close>)

lemma do_world_block:
  "bpf_map_lookup_elem (verdict_map (dm_maps (do_world ok a dm))) k = Some VERDICT_BLOCK
   \<Longrightarrow> bpf_map_lookup_elem (verdict_map (dm_maps dm)) k = Some VERDICT_BLOCK \<or> a = Write_Block k"
  by (cases a) (auto simp: keep_on_error_def BlockExec_verdict AllowExec_verdict split: sum.splits if_splits)

text \<open>The engine's calls, by their kind.\<close>

lemma do_engine_parts:
  assumes "do_engine env a (v, en, dm) = (v', en', dm')"
  shows "en_mode en' = en_mode en" "dm_queue_cap dm' = dm_queue_cap dm"
    "a = World w \<Longrightarrow> v' = v \<and> en' = en \<and> dm' = do_world (pe_sys_ok env) w dm"
    "\<nexists>w. a = World w \<Longrightarrow> dm_maps dm' = dm_maps dm \<and> dm_kills dm' = dm_kills dm"
    "\<exists>evs. dm_queue dm' = dm_queue dm @ evs \<and> length evs \<le> of_bool (is_route a)
       \<and> (\<forall>ev \<in> set evs. a = Route ev)"
    "\<not> is_route a \<Longrightarrow> v' = v"
    "is_route a \<Longrightarrow> ve_Action v' \<in> {ActionAllow, ActionAIQueue} \<and> ve_Tier v' = ve_Tier v"
  using assms
  by (cases a; auto simp: route_def Let_def split: if_splits)+

lemma next_event_submitted:
  "next_event s ev \<Longrightarrow> sys_inv n s \<Longrightarrow> submitted (sy_maps s) ev"
  using next_event_is(3) [of s ev n] by (auto simp: sys_inv_def submitted_def same_exec_def)

lemma th_maps_simps [simp]:
  "sy_maps (set_daemon dm s) = dm_maps dm" "sy_maps (set_pool wp s) = sy_maps s"
  "sy_daemon (set_daemon dm s) = dm" "sy_daemon (set_pool wp s) = sy_daemon s"
  "sy_read (set_daemon dm s) = sy_read s" "sy_read (set_pool wp s) = sy_read s"
  "sy_engine (set_daemon dm s) = sy_engine s" "sy_engine (set_pool wp s) = sy_engine s"
  "ps_pool (sy_pool (set_daemon dm s)) = ps_pool (sy_pool s)" "ps_pool (sy_pool (set_pool wp s)) = wp"
  "ps_workers (sy_pool (set_daemon dm s)) = ps_workers (sy_pool s)"
  "ps_workers (sy_pool (set_pool wp s)) = ps_workers (sy_pool s)"
  "ps_workers (sy_pool (set_maps m s)) = ps_workers (sy_pool s)"
  "ps_ctx_done (sy_pool (set_daemon dm s)) = ps_ctx_done (sy_pool s)"
  "ps_ctx_done (sy_pool (set_pool wp s)) = ps_ctx_done (sy_pool s)"
  by (simp_all add: set_daemon_def set_pool_def sy_maps_def sy_daemon_def set_maps_def)

section \<open>One step on the maps\<close>

lemma no_op: "\<exists>ops. list_all (kop_ok n) ops \<and> st = krun ops st \<and> filter (\<lambda>op. writes_key op = None) ops = []"
  by (intro exI [of _ "[]"]) (simp add: krun_def)

lemma submitted_key:
  assumes "submitted (th_maps t) ev" "thread_inv n t"
  shows "exec_key_wf (ExecKey ev)"
proof -
  obtain e where "e \<in> set (events (th_maps t))" "same_exec e ev" using assms(1) by (auto simp: submitted_def)
  moreover have "kmaps_wf n (th_maps t)" using assms(2) by (simp add: thread_inv_def sys_inv_def th_maps_def)
  ultimately have "event_wf e" "ExecKey e = ExecKey ev"
    by (auto simp: kmaps_wf_def list_all_iff same_exec_def)
  then show ?thesis using ExecKey_wf [of e] by simp
qed

lemma label_ops_simps [simp]:
  "kernel_ops [act_label ev v a] = []" "kernel_ops [judged_label ev v] = []"
  by (auto simp: act_label_def judged_label_def split: engine_act.split)

lemma engine_step_ops:
  assumes "engine_step cel t l t'" "thread_inv n t"
  shows "\<exists>ops. list_all (kop_ok n) ops \<and> th_maps t' = krun ops (th_maps t)
    \<and> filter (\<lambda>op. writes_key op = None) ops = kernel_ops [l]"
  using assms
proof (induction rule: engine_step.induct)
  case (act t env ev v a acts v' en dm)
  have ok: "engine_concerns ev a" "exec_key_wf (ExecKey ev)"
    using act.hyps(1) act.prems submitted_key [OF _ act.prems] by (auto simp: thread_inv_def)
  note parts = do_engine_parts [OF act.hyps(2)]
  show ?case
  proof (cases "\<exists>w. a = World w")
    case True
    then obtain w where a: "a = World w" by blast
    then show ?thesis
      using do_world_ops [of ev w n "pe_sys_ok env" "sy_daemon (th_sys t)"] ok parts(3) [OF a]
      by (simp add: th_maps_def sy_maps_def sy_daemon_def)
  next
    case False
    then show ?thesis using parts(4) no_op [of n "th_maps t"] by (simp add: th_maps_def sy_maps_def sy_daemon_def)
  qed
qed (use no_op [of n] in \<open>simp add: th_maps_def sy_maps_def sy_daemon_def\<close>)+

lemma job_step_ops:
  assumes "job_step i t l t'" "thread_inv n t"
  shows "\<exists>ops. list_all (kop_ok n) ops \<and> th_maps t' = krun ops (th_maps t)
    \<and> filter (\<lambda>op. writes_key op = None) ops = kernel_ops [l]"
  using assms
proof (induction rule: job_step.induct)
  case (carry_out t ev outcome a acts sys_ok)
  have "job_ok (th_maps t) (th_jobs t ! i)"
    using carry_out.hyps(1) carry_out.prems by (simp add: thread_inv_def)
  then have "concerns ev a" "exec_key_wf (ExecKey ev)"
    using carry_out.hyps(2) submitted_key [OF _ carry_out.prems] by auto
  then show ?case
    using do_world_ops [of ev a n sys_ok "sy_daemon (th_sys t)"] by (simp add: th_maps_def sy_maps_def)
qed (use no_op [of n] in \<open>simp add: th_maps_def sy_maps_def sy_daemon_def set_pool_def set_daemon_def\<close>)+

lemma thread_step_ops:
  assumes "thread_step cel unm n t l t'" "thread_inv n t"
  shows "\<exists>ops. list_all (kop_ok n) ops \<and> th_maps t' = krun ops (th_maps t)
    \<and> filter (\<lambda>op. writes_key op = None) ops = kernel_ops [l]"
proof -
  have "\<exists>ops. list_all (kop_ok n) ops \<and> th_maps t' = krun ops (th_maps t)
    \<and> filter (\<lambda>op. writes_key op = None) ops = kernel_ops [l]" if "around_step cel unm n t l t'"
    using that
  proof (induction rule: around_step.induct)
    case (kernel_op op t)
    then show ?case by (intro exI [of _ "[op]"]) (simp add: krun_def th_maps_def)
  qed (use no_op [of n] in \<open>simp add: th_maps_def sy_maps_def sy_daemon_def\<close>)+
  then show ?thesis
    using assms engine_step_ops job_step_ops unfolding thread_step_def daemon_step_def by blast
qed

lemma krun_grows: "\<exists>evs. events (krun ops st) = events st @ evs"
proof (induction ops arbitrary: st)
  case (Cons op ops)
  obtain evs where "events (kstep op st) = events st @ evs" using kstep_grows by blast
  then show ?case using Cons.IH [of "kstep op st"] by (auto simp: krun_def)
qed (simp add: krun_def)

lemma thread_step_grows:
  assumes "thread_step cel unm n t l t'" "thread_inv n t"
  shows "\<exists>evs. events (th_maps t') = events (th_maps t) @ evs"
  using thread_step_ops [OF assms] krun_grows by metis

section \<open>The invariant is kept\<close>

lemma submitted_append: "events st' = events st @ evs \<Longrightarrow> submitted st ev \<Longrightarrow> submitted st' ev"
  by (auto simp: submitted_def)

lemma engine_ok_append: "events st' = events st @ evs \<Longrightarrow> engine_ok st pc \<Longrightarrow> engine_ok st' pc"
  by (cases pc) (auto intro: submitted_append)

lemma job_ok_append: "events st' = events st @ evs \<Longrightarrow> job_ok st j \<Longrightarrow> job_ok st' j"
  by (cases j) (auto intro: submitted_append)

lemma sys_inv_submitted:
  "sys_inv n s \<longleftrightarrow> kmaps_wf n (sy_maps s) \<and> (\<forall>ev \<in> set (dm_queue (sy_daemon s)). submitted (sy_maps s) ev)"
  by (simp add: sys_inv_def submitted_def)

text \<open>The parts of the state, judged by the events submitted before the step.\<close>

definition parts_ok :: "kmaps \<Rightarrow> 'p threads \<Rightarrow> bool" where
  "parts_ok st t \<longleftrightarrow> (\<forall>ev \<in> set (dm_queue (sy_daemon (th_sys t))). submitted st ev)
     \<and> engine_ok st (th_engine t) \<and> (\<forall>j \<in> set (th_jobs t). job_ok st j)"

lemma thread_inv_parts: "thread_inv n t \<longleftrightarrow> kmaps_wf n (th_maps t) \<and> parts_ok (th_maps t) t"
  by (auto simp: thread_inv_def parts_ok_def sys_inv_submitted th_maps_def)

lemma parts_ok_append: "events st' = events st @ evs \<Longrightarrow> parts_ok st t \<Longrightarrow> parts_ok st' t"
  by (auto simp: parts_ok_def intro: submitted_append engine_ok_append job_ok_append)

lemma engine_step_parts:
  assumes "engine_step cel t l t'" "thread_inv n t"
  shows "parts_ok (th_maps t) t'"
  using assms
proof (induction rule: engine_step.induct)
  case (cache_miss t ev env)
  have "submitted (th_maps t) ev"
    using next_event_submitted [OF cache_miss.hyps(2), of n] cache_miss.prems by (simp add: thread_inv_def th_maps_def)
  then show ?case using cache_miss.prems by (simp add: thread_inv_parts parts_ok_def sy_daemon_def)
next
  case (match_rules t env ev v acts)
  then show ?case
    using judge_parts(1,2) [OF match_rules.hyps(2)] by (simp add: thread_inv_parts parts_ok_def)
next
  case (act t env ev v a acts v' en dm)
  have ok: "submitted (th_maps t) ev" "\<forall>b \<in> set (a # acts). engine_concerns ev b" "routes_last (a # acts)"
    using act.hyps(1) act.prems by (auto simp: thread_inv_def)
  obtain evs where evs: "dm_queue dm = dm_queue (sy_daemon (th_sys t)) @ evs" "\<forall>e \<in> set evs. a = Route e"
    using do_engine_parts(5) [OF act.hyps(2)] by auto
  have "submitted (th_maps t) e" if "e \<in> set evs" for e
    using that evs(2) ok(1,2) submitted_same by fastforce
  moreover have "routes_last acts" using ok(3) by (cases acts) (auto simp: routes_last_def)
  ultimately show ?case
    using act.prems ok evs(1) by (auto simp: thread_inv_parts parts_ok_def sy_daemon_def)
qed (simp_all add: thread_inv_parts parts_ok_def sy_daemon_def)

lemma parts_ok_job:
  assumes "parts_ok st t" "job_ok st j" "th_jobs t' = (th_jobs t)[i := j]" "th_engine t' = th_engine t"
    and "set (dm_queue (sy_daemon (th_sys t'))) \<subseteq> set (dm_queue (sy_daemon (th_sys t)))"
  shows "parts_ok st t'"
  using assms by (auto simp: parts_ok_def dest: subsetD [OF set_update_subset_insert])

lemma job_step_parts:
  assumes "job_step i t l t'" "thread_inv n t"
  shows "parts_ok (th_maps t) t'"
proof -
  have p: "parts_ok (th_maps t) t" using assms(2) by (simp add: thread_inv_parts)
  have job: "job_ok (th_maps t) (th_jobs t ! i)" if "i < length (th_jobs t)"
    using p that by (simp add: parts_ok_def)
  show ?thesis
    using assms(1) p job
  proof (induction rule: job_step.induct)
    case (take_event t ev rest)
    have "submitted (th_maps t) ev" using take_event.hyps(5) take_event.prems(1) by (simp add: parts_ok_def)
    then show ?case
      using take_event.hyps(5) by (intro parts_ok_job [OF take_event.prems(1)]) auto
  next
    case (answer t ev outcome)
    have "job_ok (th_maps t) (Answered ev outcome (answer_acts (ps_pool (sy_pool (th_sys t))) ev outcome))"
      using answer.hyps answer.prems(2) answer_acts_concern by auto
    then show ?case by (rule parts_ok_job [OF answer.prems(1)]) simp_all
  next
    case (carry_out t ev outcome a acts sys_ok)
    have "job_ok (th_maps t) (Answered ev outcome acts)" using carry_out.hyps carry_out.prems(2) by simp
    then show ?case by (rule parts_ok_job [OF carry_out.prems(1)]) simp_all
  next
    case (job_done t ev outcome)
    have "job_ok (th_maps t) Idle" by simp
    then show ?case by (rule parts_ok_job [OF job_done.prems(1)]) simp_all
  qed (simp add: parts_ok_def sy_daemon_def)
qed

lemma thread_step_inv:
  assumes "thread_step cel unm n t l t'" "thread_inv n t"
  shows "thread_inv n t'"
proof -
  have "parts_ok (th_maps t) t'" if "around_step cel unm n t l t'"
    using that assms(2)
    by (induction rule: around_step.induct)
      (simp_all add: thread_inv_parts parts_ok_def sy_daemon_def set_maps_def)
  then have "parts_ok (th_maps t) t'"
    using assms engine_step_parts job_step_parts unfolding thread_step_def daemon_step_def by blast
  moreover obtain ops where "list_all (kop_ok n) ops" "th_maps t' = krun ops (th_maps t)"
    using thread_step_ops [OF assms] by blast
  moreover obtain evs where "events (th_maps t') = events (th_maps t) @ evs"
    using thread_step_grows [OF assms] by blast
  ultimately show ?thesis
    using assms(2) krun_wf parts_ok_append by (auto simp: thread_inv_parts)
qed

interpretation threads: labelled_invariant "thread_step cel unm n" "thread_inv n"
  for cel unm n
  by unfold_locales (rule thread_step_inv)

end
