(* ===== verification/Progress.thy ===== *)
theory Progress
  imports Thread_Invariant
begin

text \<open>
  The daemon by itself comes to rest: what its goroutines have still to do has a weight that
  every step of theirs lowers, and before the end of the context they are stuck only when all
  that was submitted is handled.
\<close>

section \<open>The work that is left\<close>

fun act_weight :: "engine_act \<Rightarrow> nat" where
  "act_weight (Route _) = 6"
| "act_weight _ = 1"

fun engine_weight :: "engine_pc \<Rightarrow> nat" where
  "engine_weight Ready = 0"
| "engine_weight (Matching env ev) = 10"
| "engine_weight (Acting env ev v acts) = 1 + sum_list (map act_weight acts)"

fun job_weight :: "worker_job \<Rightarrow> nat" where
  "job_weight Idle = 0"
| "job_weight (Asking ev) = 4"
| "job_weight (Answered ev outcome acts) = 1 + length acts"

text \<open>An event that is not read weighs what the engine and a worker can make of it.\<close>

definition thread_weight :: "'p threads \<Rightarrow> nat" where
  "thread_weight t = 11 * (length (events (th_maps t)) - sy_read (th_sys t)) + engine_weight (th_engine t)
     + 5 * length (dm_queue (sy_daemon (th_sys t))) + sum_list (map job_weight (th_jobs t))
     + sum_list (map (\<lambda>w. 2 - stage w) (ps_workers (sy_pool (th_sys t))))"

lemma judge_weight:
  assumes "judge cel env ev en = (v, acts)"
  shows "engine_weight (Acting env ev v acts) < 10"
  using assms
  by (auto simp: judge_def Let_def case_prod_unfold enforce_acts_def promote_acts_def
      split: option.splits if_splits)

lemma answer_weight: "job_weight (Answered ev outcome (answer_acts wp ev outcome)) < 4"
  by (simp add: answer_acts_def executeBlock_acts_def split: sum.split)

lemma act_weight_pos: "0 < act_weight a"
  by (cases a) simp_all

lemma do_engine_weight:
  assumes "do_engine env a (v, en, dm) = (v', en', dm')"
  shows "5 * length (dm_queue dm') < 5 * length (dm_queue dm) + act_weight a"
  using do_engine_parts(5) [OF assms] by (cases a) auto

lemma do_world_events [simp]: "events (dm_maps (do_world ok a dm)) = events (dm_maps dm)"
  by (cases a) (auto simp: keep_on_error_def AllowExec_frame BlockExec_frame split: sum.split)

lemma engine_step_weight:
  assumes "engine_step cel t l t'" "thread_inv n t"
  shows "thread_weight t' < thread_weight t"
proof -
  have unread: "length (events (th_maps t)) - sy_read (th_sys t)
      = Suc (length (events (th_maps t)) - Suc (sy_read (th_sys t)))" if "next_event (th_sys t) ev" for ev
    using next_event_is(1) [OF that, of n] assms(2) by (simp add: thread_inv_def sys_inv_def th_maps_def)
  have same: "th_maps (t\<lparr>th_sys := (th_sys t)\<lparr>sy_read := r\<rparr>\<rparr>) = th_maps t"
    "th_maps (t\<lparr>th_sys := (th_sys t)\<lparr>sy_engine := en, sy_read := r\<rparr>\<rparr>) = th_maps t"
    "th_maps (t\<lparr>th_sys := (th_sys t)\<lparr>sy_engine := en, sy_read := r\<rparr>, th_engine := pc\<rparr>) = th_maps t" for en r pc
    by (simp_all add: th_maps_def sy_maps_def sy_daemon_def)
  show ?thesis
    using assms(1) unread same
  proof (induction rule: engine_step.induct)
    case (match_rules t env ev v acts)
    then show ?case using judge_weight [OF match_rules.hyps(2)] by (simp add: thread_weight_def th_maps_def)
  next
    case (act t env ev v a acts v' en dm)
    have "events (dm_maps dm) = events (th_maps t)"
    proof (cases "\<exists>w. a = World w")
      case True
      then obtain w where "a = World w" by blast
      then show ?thesis
        using do_engine_parts(3) [OF act.hyps(2), of w] by (simp add: th_maps_def sy_maps_def)
    qed (use do_engine_parts(4) [OF act.hyps(2)] in \<open>simp add: th_maps_def sy_maps_def\<close>)
    then show ?case
      using act.hyps(1) do_engine_weight [OF act.hyps(2)]
      by (simp add: thread_weight_def th_maps_def sy_maps_def sy_daemon_def)
  qed (auto simp: thread_weight_def sy_daemon_def th_maps_def)
qed


lemma job_step_weight:
  assumes "job_step i t l t'" "length (th_jobs t) = length (ps_workers (sy_pool (th_sys t)))"
  shows "thread_weight t' < thread_weight t"
proof -
  have upd: "sum_list (map job_weight ((th_jobs t)[i := j])) + job_weight (th_jobs t ! i)
      = sum_list (map job_weight (th_jobs t)) + job_weight j" if "i < length (th_jobs t)" for j
    by (rule sum_list_update_add [OF that])
  show ?thesis
    using assms(1) upd
  proof (induction rule: job_step.induct)
    case (take_event t ev rest)
    then show ?case using take_event.prems [of "Asking ev"] by (simp add: thread_weight_def th_maps_def sy_maps_def)
  next
    case (answer t ev outcome)
    let ?j = "Answered ev outcome (answer_acts (ps_pool (sy_pool (th_sys t))) ev outcome)"
    have "sum_list (map job_weight ((th_jobs t)[i := ?j])) + 4 = sum_list (map job_weight (th_jobs t)) + job_weight ?j"
      using answer.hyps answer.prems [of ?j] by simp
    then show ?case
      using answer_weight [of ev outcome "ps_pool (sy_pool (th_sys t))"]
      by (simp add: thread_weight_def th_maps_def)
  next
    case (carry_out t ev outcome a acts sys_ok)
    have "sum_list (map job_weight ((th_jobs t)[i := Answered ev outcome acts])) + 1 = sum_list (map job_weight (th_jobs t))"
      using carry_out.hyps carry_out.prems [of "Answered ev outcome acts"] by simp
    then show ?case by (simp add: thread_weight_def th_maps_def sy_maps_def)
  next
    case (job_done t ev outcome)
    have "sum_list (map job_weight ((th_jobs t)[i := Idle])) + 1 = sum_list (map job_weight (th_jobs t))"
      using job_done.hyps job_done.prems [of Idle] by simp
    then show ?case by (simp add: thread_weight_def th_maps_def)
  next
    case (leave t p)
    have "pool_work p < pool_work (sy_pool (th_sys t))" by (rule worker_step_work [OF leave.hyps(3)])
    then show ?case using leave.hyps(5) by (simp add: thread_weight_def th_maps_def pool_work_def sy_maps_def sy_daemon_def)
  qed
qed

section \<open>The daemon at work\<close>

text \<open>Workers there are, and none has seen the end of the context; the reader is not ahead.\<close>

definition staffed :: "'p threads \<Rightarrow> bool" where
  "staffed t \<longleftrightarrow> length (th_jobs t) = length (ps_workers (sy_pool (th_sys t)))
     \<and> ps_workers (sy_pool (th_sys t)) \<noteq> []
     \<and> (ps_ctx_done (sy_pool (th_sys t)) \<or> set (ps_workers (sy_pool (th_sys t))) \<subseteq> {Running})
     \<and> sy_read (th_sys t) \<le> length (events (th_maps t))"

lemma engine_step_staffed:
  assumes "engine_step cel t l t'" "thread_inv n t" "staffed t"
  shows "staffed t' \<and> ps_ctx_done (sy_pool (th_sys t')) = ps_ctx_done (sy_pool (th_sys t))
    \<and> events (th_maps t') = events (th_maps t)"
proof -
  have unread: "Suc (sy_read (th_sys t)) \<le> length (events (th_maps t))" if "next_event (th_sys t) ev" for ev
    using next_event_is(1) [OF that, of n] assms(2) by (simp add: thread_inv_def sys_inv_def th_maps_def Suc_leI)
  show ?thesis
    using assms(1,3) unread
  proof (induction rule: engine_step.induct)
    case (act t env ev v a acts v' en dm)
    have "events (dm_maps dm) = events (th_maps t)"
    proof (cases "\<exists>w. a = World w")
      case True
      then obtain w where "a = World w" by blast
      then show ?thesis
        using do_engine_parts(3) [OF act.hyps(2), of w] by (simp add: th_maps_def sy_maps_def)
    qed (use do_engine_parts(4) [OF act.hyps(2)] in \<open>simp add: th_maps_def sy_maps_def\<close>)
    then show ?case using act.prems(1) by (simp add: staffed_def th_maps_def sy_maps_def sy_daemon_def)
  qed (auto simp: staffed_def th_maps_def sy_maps_def sy_daemon_def)
qed

lemma job_step_staffed:
  assumes "job_step i t l t'" "staffed t"
  shows "staffed t' \<and> ps_ctx_done (sy_pool (th_sys t')) = ps_ctx_done (sy_pool (th_sys t))
    \<and> events (th_maps t') = events (th_maps t)"
  using assms
proof (induction rule: job_step.induct)
  case (leave t p)
  have frame: "ps_ctx_done p = ps_ctx_done (sy_pool (th_sys t))"
    "length (ps_workers p) = length (ps_workers (sy_pool (th_sys t)))"
    using worker_step_frame [OF leave.hyps(3)] by simp_all
  moreover have "ps_ctx_done p \<or> set (ps_workers p) \<subseteq> {Running}"
    using worker_step_leaves [OF leave.hyps(3)] leave.prems by (simp add: staffed_def)
  moreover have "ps_workers p \<noteq> []" using frame(2) leave.prems by (auto simp: staffed_def)
  ultimately show ?case
    using leave.prems leave.hyps(5) by (simp add: staffed_def th_maps_def sy_maps_def sy_daemon_def)
qed (auto simp: staffed_def th_maps_def sy_maps_def)

lemma daemon_step_staffed:
  assumes "daemon_step cel t l t'" "thread_inv n t" "staffed t"
  shows "staffed t'" "ps_ctx_done (sy_pool (th_sys t')) = ps_ctx_done (sy_pool (th_sys t))"
    "events (th_maps t') = events (th_maps t)"
  using assms engine_step_staffed job_step_staffed unfolding daemon_step_def by blast+

lemma daemon_step_inv:
  fixes t :: "'p threads" and cel :: "('a, 'p) cel"
  assumes "daemon_step cel t l t'" "thread_inv n t"
  shows "thread_inv n t'"
proof -
  have "thread_step cel (\<lambda>_ :: unit. None) n t l t'" using assms(1) by (simp add: thread_step_def)
  from thread_step_inv [OF this assms(2)] show ?thesis .
qed

lemma thread_step_staffed:
  assumes "thread_step cel unm n t l t'" "thread_inv n t" "staffed t"
  shows "staffed t'"
proof -
  have "staffed t'" if "around_step cel unm n t l t'"
    using that assms(3)
  proof (induction rule: around_step.induct)
    case (kernel_op op t)
    obtain evs where "events (kstep op (th_maps t)) = events (th_maps t) @ evs" using kstep_grows by blast
    then show ?case
      using kernel_op.prems by (simp add: staffed_def th_maps_def) (simp add: set_maps_def)
  qed (auto simp: staffed_def th_maps_def sy_maps_def sy_daemon_def)
  then show ?thesis using assms daemon_step_staffed(1) unfolding thread_step_def by blast
qed

interpretation daemon_work: labelled_descent "daemon_step cel" "\<lambda>t. thread_inv n t \<and> staffed t" thread_weight
  for cel n
proof unfold_locales
  fix t l t'
  assume "daemon_step cel t l t'" "thread_inv n t \<and> staffed t"
  then have i: "daemon_step cel t l t'" "thread_inv n t" "staffed t" by simp_all
  show "thread_inv n t' \<and> staffed t'" using daemon_step_inv [OF i(1,2)] daemon_step_staffed(1) [OF i] by simp
  have "length (th_jobs t) = length (ps_workers (sy_pool (th_sys t)))" using i(3) by (simp add: staffed_def)
  then show "thread_weight t' < thread_weight t"
    using i(1) engine_step_weight [OF _ i(2)] job_step_weight unfolding daemon_step_def by blast
qed

interpretation staff: labelled_invariant "thread_step cel unm n" "\<lambda>t. thread_inv n t \<and> staffed t"
  for cel unm n
  by unfold_locales (blast intro: thread_step_inv thread_step_staffed)

section \<open>Caught up\<close>

definition caught_up :: "'p threads \<Rightarrow> bool" where
  "caught_up t \<longleftrightarrow> sy_read (th_sys t) = length (events (th_maps t)) \<and> th_engine t = Ready
     \<and> dm_queue (sy_daemon (th_sys t)) = [] \<and> list_all (\<lambda>j. j = Idle) (th_jobs t)"

lemma next_event_exists:
  assumes "thread_inv n t" "sy_read (th_sys t) < length (events (th_maps t))"
  shows "next_event (th_sys t) (events (th_maps t) ! sy_read (th_sys t))"
proof -
  have "event_wf (events (th_maps t) ! sy_read (th_sys t))"
    using assms by (simp add: thread_inv_parts kmaps_wf_def list_all_length)
  then show ?thesis
    using decode_event_bytes [of _ "replicate 5 0" "[]"] assms(2)
    by (auto simp: next_event_def th_maps_def intro!: exI [of _ "replicate 5 0"])
qed

lemma engine_can_step:
  fixes cel :: "('a, 'p) cel" and t :: "'p threads"
  assumes "thread_inv n t" "th_engine t \<noteq> Ready \<or> sy_read (th_sys t) < length (events (th_maps t))"
  shows "\<exists>l t'. engine_step cel t l t'"
proof (cases "th_engine t")
  case Ready
  then have "next_event (th_sys t) (events (th_maps t) ! sy_read (th_sys t))"
    using next_event_exists [OF assms(1)] assms(2) by simp
  then show ?thesis
    using engine_step.bypass [OF Ready] engine_step.cache_hit [OF Ready] engine_step.cache_miss [OF Ready] by metis
next
  case (Matching env ev)
  then show ?thesis using engine_step.match_rules [OF Matching] by (metis prod.exhaust)
next
  case (Acting env ev v acts)
  then show ?thesis
  proof (cases acts)
    case Nil
    then show ?thesis using engine_step.return Acting by blast
  next
    case (Cons a as)
    then show ?thesis using engine_step.act Acting by (metis prod.exhaust)
  qed
qed

lemma job_can_step:
  assumes "i < length (th_jobs t)" "th_jobs t ! i \<noteq> Idle"
  shows "\<exists>l t'. job_step i t l t'"
proof (cases "th_jobs t ! i")
  case (Asking ev)
  then show ?thesis using job_step.answer [OF assms(1)] by blast
next
  case (Answered ev outcome acts)
  then show ?thesis
    using job_step.job_done [OF assms(1)] job_step.carry_out [OF assms(1)] by (cases acts) blast+
qed (use assms in simp)

lemma worker_can_take:
  assumes "staffed t" "\<not> ps_ctx_done (sy_pool (th_sys t))" "list_all (\<lambda>j. j = Idle) (th_jobs t)"
    and "dm_queue (sy_daemon (th_sys t)) \<noteq> []"
  shows "\<exists>l t'. job_step 0 t l t'"
proof -
  have w: "0 < length (th_jobs t)" "0 < length (ps_workers (sy_pool (th_sys t)))"
    "ps_workers (sy_pool (th_sys t)) ! 0 \<in> set (ps_workers (sy_pool (th_sys t)))"
    "set (ps_workers (sy_pool (th_sys t))) \<subseteq> {Running}"
    using assms(1,2) by (auto simp: staffed_def)
  then have "ps_workers (sy_pool (th_sys t)) ! 0 = Running" by blast
  moreover have "th_jobs t ! 0 = Idle" using assms(3) w(1) by (simp add: list_all_length)
  moreover obtain ev rest where "dm_queue (sy_daemon (th_sys t)) = ev # rest"
    using assms(4) by (cases "dm_queue (sy_daemon (th_sys t))") simp_all
  ultimately show ?thesis using w(1,2) job_step.take_event [of 0 t ev rest] by auto
qed

text \<open>The daemon is stuck exactly when it has caught up.\<close>

lemma stuck_iff_caught_up:
  assumes "thread_inv n t" "staffed t" "\<not> ps_ctx_done (sy_pool (th_sys t))"
  shows "(\<nexists>l t'. daemon_step cel t l t') \<longleftrightarrow> caught_up t"
proof
  assume stuck: "\<nexists>l t'. daemon_step cel t l t'"
  have read: "sy_read (th_sys t) \<le> length (events (th_maps t))" using assms(2) by (simp add: staffed_def)
  have "th_engine t = Ready" "\<not> sy_read (th_sys t) < length (events (th_maps t))"
    using engine_can_step [OF assms(1), of cel] stuck unfolding daemon_step_def by blast+
  moreover have idle: "list_all (\<lambda>j. j = Idle) (th_jobs t)"
    using job_can_step [of _ t] stuck unfolding daemon_step_def list_all_length by blast
  moreover have "dm_queue (sy_daemon (th_sys t)) = []"
    using worker_can_take [OF assms(2,3) idle] stuck unfolding daemon_step_def by blast
  ultimately show "caught_up t" using read by (simp add: caught_up_def)
next
  assume c: "caught_up t"
  have "\<not> engine_step cel t l t'" for l t'
    using c by (auto simp: caught_up_def next_event_def th_maps_def elim!: engine_step.cases)
  moreover have "\<not> job_step i t l t'" for i l t'
  proof
    assume "job_step i t l t'"
    then show False
    proof (cases rule: job_step.cases)
      case (leave p)
      show False
        using leave(5)
      proof (cases rule: worker_step.cases)
        case (drained j)
        then have "Draining \<in> set (ps_workers (sy_pool (th_sys t)))" by (metis nth_mem)
        then show False using assms(2,3) by (auto simp: staffed_def)
      qed (use assms(3) c in \<open>auto simp: caught_up_def sy_daemon_def receive_def\<close>)
    qed (use c in \<open>auto simp: caught_up_def list_all_length\<close>)
  qed
  ultimately show "\<nexists>l t'. daemon_step cel t l t'" by (auto simp: daemon_step_def)
qed

end
