(* ===== verification/Event_Simulation.thy ===== *)
theory Event_Simulation
  imports Thread_Invariant
begin

text \<open>
  The system of \<open>Daemon_System\<close>, in which an event is handled in one step, is the goroutines of
  \<open>Daemon_Steps\<close> with nothing in between: each of its steps is a run of theirs from rest to rest
  with the same visible label.
\<close>

section \<open>The system of whole events\<close>

lemmas thread_run_one = labelled_run_one [where R = "thread_step cel unm n" for cel unm n]
lemmas thread_run_Cons = labelled_run_Cons [where R = "thread_step cel unm n" for cel unm n]
lemmas thread_run_snoc = labelled_run.step [where R = "thread_step cel unm n" for cel unm n]

text \<open>What the engine does with the calls of one event when nothing comes in between.\<close>

definition engine_at :: "'p system \<Rightarrow> 'p Engine \<Rightarrow> daemon \<Rightarrow> nat \<Rightarrow> engine_pc \<Rightarrow> worker_job list \<Rightarrow> 'p threads" where
  "engine_at s en dm r pc js =
     \<lparr>th_sys = s\<lparr>sy_engine := en, sy_pool := (sy_pool s)\<lparr>ps_daemon := dm, ps_routed := r\<rparr>\<rparr>,
      th_engine = pc, th_jobs = js\<rparr>"

lemma engine_at_act:
  assumes "do_engine env a (v, en, dm) = (v', en', dm')"
  shows "thread_step cel unm n (engine_at s en dm r (Acting env ev v (a # acts)) js) (act_label ev v' a)
    (engine_at s en' dm' (r + (length (dm_queue dm') - length (dm_queue dm))) (Acting env ev v' acts) js)"
  using engine_step.act [of "engine_at s en dm r (Acting env ev v (a # acts)) js" env ev v a acts v' en' dm' cel] assms
  by (simp add: thread_step_def daemon_step_def engine_at_def sy_daemon_def)

abbreviation visible :: "step_label list \<Rightarrow> step_label list" where
  "visible \<equiv> filter (\<lambda>l. l \<noteq> Internal)"

lemma engine_acts_run:
  assumes "routes_last acts" "fold (do_engine env) acts (v, en, dm) = (v', en', dm')"
  shows "\<exists>ls. thread_run cel unm n (engine_at s en dm r (Acting env ev v acts) js) ls
      (engine_at s en' dm' (r + (length (dm_queue dm') - length (dm_queue dm))) (Acting env ev v' []) js)
    \<and> visible ls = (if \<exists>a \<in> set acts. is_route a then [Decided ev v'] else [])
    \<and> length (dm_queue dm) \<le> length (dm_queue dm')"
  using assms
proof (induction acts arbitrary: v en dm r)
  case Nil
  then show ?case by (intro exI [of _ "[]"]) auto
next
  case (Cons a acts)
  obtain v1 en1 dm1 where a: "do_engine env a (v, en, dm) = (v1, en1, dm1)" by (metis prod.exhaust)
  have last: "routes_last acts" "is_route a \<Longrightarrow> acts = []"
    using Cons.prems(1) by (cases acts; auto simp: routes_last_def)+
  have rest: "fold (do_engine env) acts (v1, en1, dm1) = (v', en', dm')" using Cons.prems(2) a by simp
  obtain evs where q: "dm_queue dm1 = dm_queue dm @ evs" using do_engine_parts(5) [OF a] by blast
  let ?r1 = "r + (length (dm_queue dm1) - length (dm_queue dm))"
  obtain ls where ls: "thread_run cel unm n (engine_at s en1 dm1 ?r1 (Acting env ev v1 acts) js) ls
      (engine_at s en' dm' (?r1 + (length (dm_queue dm') - length (dm_queue dm1))) (Acting env ev v' []) js)"
    "visible ls = (if \<exists>a \<in> set acts. is_route a then [Decided ev v'] else [])"
    "length (dm_queue dm1) \<le> length (dm_queue dm')"
    using Cons.IH [OF last(1) rest, of ?r1] by blast
  have r: "?r1 + (length (dm_queue dm') - length (dm_queue dm1)) = r + (length (dm_queue dm') - length (dm_queue dm))"
    using q ls(3) by simp
  have v: "visible (act_label ev v1 a # ls) = (if \<exists>a \<in> set (a # acts). is_route a then [Decided ev v'] else [])"
    using ls(2) last(2) rest by (cases a) (auto simp: act_label_def)
  show ?case
    using thread_run_Cons [OF engine_at_act [OF a] ls(1)] v q ls(3) r
    by (intro exI [of _ "act_label ev v1 a # ls"]) simp
qed

lemma job_acts_run:
  assumes "i < length js"
  shows "\<exists>ls. thread_run cel unm n \<lparr>th_sys = set_daemon dm s, th_engine = pc, th_jobs = js[i := Answered ev outcome acts]\<rparr> ls
      \<lparr>th_sys = set_daemon (fold (do_world ok) acts dm) s, th_engine = pc, th_jobs = js[i := Answered ev outcome []]\<rparr>
    \<and> visible ls = []"
proof (induction acts arbitrary: dm)
  case Nil
  show ?case by (intro exI [of _ "[]"]) auto
next
  case (Cons a acts)
  let ?t = "\<lparr>th_sys = set_daemon dm s, th_engine = pc, th_jobs = js[i := Answered ev outcome (a # acts)]\<rparr>"
  let ?t1 = "\<lparr>th_sys = set_daemon (do_world ok a dm) s, th_engine = pc, th_jobs = js[i := Answered ev outcome acts]\<rparr>"
  have "job_step i ?t Internal ?t1"
    using job_step.carry_out [of i ?t ev outcome a acts ok] assms by (simp add: set_daemon_def sy_daemon_def)
  then have "thread_step cel unm n ?t Internal ?t1" by (auto simp: thread_step_def daemon_step_def)
  moreover obtain ls where "thread_run cel unm n ?t1 ls
      \<lparr>th_sys = set_daemon (fold (do_world ok) acts (do_world ok a dm)) s, th_engine = pc,
       th_jobs = js[i := Answered ev outcome []]\<rparr>" "visible ls = []"
    using Cons.IH by blast
  ultimately show ?case
    using thread_run_Cons by (intro exI [of _ "Internal # ls"]) simp
qed

lemma acts_keep_verdict:
  "fold (do_engine env) acts (v, en, dm) = (v', en', dm') \<Longrightarrow> \<forall>a \<in> set acts. \<not> is_route a \<Longrightarrow> v' = v"
proof (induction acts arbitrary: en dm)
  case (Cons a acts)
  then show ?case by (cases a) auto
qed simp

lemma decided_run:
  assumes "next_event s ev" "e_is_map_hit ev = 0"
    and "Process cel env ev (sy_engine s) (sy_daemon s) = (v, en, dm)"
  shows "\<exists>ls. thread_run cel unm n (at_rest s) ls (at_rest \<lparr>sy_engine = en,
      sy_pool = (sy_pool s)\<lparr>ps_daemon := dm,
        ps_routed := ps_routed (sy_pool s) + of_bool (ve_Action v = ActionAIQueue)\<rparr>,
      sy_read = sy_read s + 1\<rparr>) \<and> visible ls = [Decided ev v]"
proof (cases "cached env ev (sy_engine s)")
  case True
  let ?v = "\<lparr>ve_RuleName = '''', ve_ScriptPath = fst (resolve_script env (sy_engine s) ev),
    ve_Action = ActionAllow, ve_Tier = 1\<rparr>"
  have p: "v = ?v" "en = looked_up env ev (sy_engine s)" "dm = sy_daemon s"
    using assms(3) True by (simp_all add: Process_is_acts Let_def)
  have "engine_step cel (at_rest s) (Decided ev ?v) ((at_rest s)\<lparr>th_sys := s\<lparr>sy_engine := en, sy_read := sy_read s + 1\<rparr>\<rparr>)"
    using engine_step.cache_hit [of "at_rest s" ev env ?v cel] assms(1,2) True p(2) by (simp add: at_rest_def)
  then have st: "thread_step cel unm n (at_rest s) (Decided ev v) (at_rest (s\<lparr>sy_engine := en, sy_read := sy_read s + 1\<rparr>))"
    by (simp add: p(1) thread_step_def daemon_step_def at_rest_def)
  have eq: "s\<lparr>sy_engine := en, sy_read := sy_read s + 1\<rparr> = \<lparr>sy_engine = en,
      sy_pool = (sy_pool s)\<lparr>ps_daemon := dm,
        ps_routed := ps_routed (sy_pool s) + of_bool (ve_Action v = ActionAIQueue)\<rparr>, sy_read = sy_read s + 1\<rparr>"
    by (cases s) (simp add: p sy_daemon_def)
  show ?thesis
    unfolding eq [symmetric] by (intro exI [of _ "[Decided ev v]"] conjI thread_run_one [OF st]) simp
next
  case False
  let ?js = "replicate (length (ps_workers (sy_pool s))) Idle" and ?en1 = "looked_up env ev (sy_engine s)"
  let ?s1 = "s\<lparr>sy_read := sy_read s + 1\<rparr>" and ?r = "ps_routed (sy_pool s)"
  obtain v0 acts where j: "judge cel env ev ?en1 = (v0, acts)" by (metis prod.exhaust)
  have f: "fold (do_engine env) acts (v0, ?en1, sy_daemon s) = (v, en, dm)"
    using assms(3) False j by (simp add: Process_is_acts Let_def)
  have taken: "(at_rest s)\<lparr>th_sys := s\<lparr>sy_engine := ?en1, sy_read := sy_read s + 1\<rparr>, th_engine := Matching env ev\<rparr>
      = engine_at ?s1 ?en1 (sy_daemon s) ?r (Matching env ev) ?js"
    by (simp add: at_rest_def engine_at_def sy_daemon_def)
  have "engine_step cel (at_rest s) Internal
      ((at_rest s)\<lparr>th_sys := s\<lparr>sy_engine := ?en1, sy_read := sy_read s + 1\<rparr>, th_engine := Matching env ev\<rparr>)"
    using engine_step.cache_miss [of "at_rest s" ev env cel] assms(1,2) False by (simp add: at_rest_def)
  then have miss: "thread_step cel unm n (at_rest s) Internal (engine_at ?s1 ?en1 (sy_daemon s) ?r (Matching env ev) ?js)"
    unfolding taken by (simp add: thread_step_def daemon_step_def)
  have judged: "thread_step cel unm n (engine_at ?s1 ?en1 (sy_daemon s) ?r (Matching env ev) ?js) (judged_label ev v0)
      (engine_at ?s1 ?en1 (sy_daemon s) ?r (Acting env ev v0 acts) ?js)"
    using engine_step.match_rules [of "engine_at ?s1 ?en1 (sy_daemon s) ?r (Matching env ev) ?js" env ev cel v0 acts] j
    by (simp add: thread_step_def daemon_step_def engine_at_def)
  let ?r' = "?r + (length (dm_queue dm) - length (dm_queue (sy_daemon s)))"
  obtain ls where ls: "thread_run cel unm n (engine_at ?s1 ?en1 (sy_daemon s) ?r (Acting env ev v0 acts) ?js) ls
      (engine_at ?s1 en dm ?r' (Acting env ev v []) ?js)"
    "visible ls = (if \<exists>a \<in> set acts. is_route a then [Decided ev v] else [])"
    using engine_acts_run [OF judge_parts(2) [OF j] f] by blast
  have r: "?r' = ?r + of_bool (ve_Action v = ActionAIQueue)"
    using Process_queue [of cel env ev "sy_engine s" "sy_daemon s"] assms(3) by (simp split: if_splits)
  have ret: "thread_step cel unm n (engine_at ?s1 en dm ?r' (Acting env ev v []) ?js) Internal (engine_at ?s1 en dm ?r' Ready ?js)"
    using engine_step.return [of "engine_at ?s1 en dm ?r' (Acting env ev v []) ?js" env ev v cel]
    by (simp add: thread_step_def daemon_step_def engine_at_def)
  have "v = v0" if "\<forall>a \<in> set acts. \<not> is_route a" using acts_keep_verdict [OF f that] .
  then have vis: "visible (judged_label ev v0 # ls) = [Decided ev v]"
    using ls(2) judge_parts(3) [OF j] by (auto simp: judged_label_def)
  have "engine_at ?s1 en dm ?r' Ready ?js = at_rest \<lparr>sy_engine = en, sy_pool = (sy_pool s)\<lparr>ps_daemon := dm,
        ps_routed := ?r + of_bool (ve_Action v = ActionAIQueue)\<rparr>, sy_read = sy_read s + 1\<rparr>"
    by (simp add: engine_at_def at_rest_def r)
  then show ?thesis
    using thread_run_Cons [OF miss thread_run_Cons [OF judged thread_run_snoc [OF ls(1) ret]]] vis
    by (intro exI [of _ "Internal # judged_label ev v0 # ls @ [Internal]"]) (simp split: if_splits)
qed


lemma answer_acts_begin [simp]:
  "answer_acts (begin_event wp) ev outcome = answer_acts wp ev outcome"
  "answer_acts (wp\<lparr>wp_queueDepth := d\<rparr>) ev outcome = answer_acts wp ev outcome"
  by (simp_all add: answer_acts_def executeBlock_acts_def begin_event_def split: sum.split)

lemma set_pool_daemon: "set_pool wp (set_daemon dm s) = set_daemon dm (set_pool wp s)"
  by (cases "sy_pool s") (simp add: set_pool_def set_daemon_def)

lemma receive_is_acts:
  assumes "receive ok outcome wp dm = Some (wp', dm')" "dm_queue dm = ev # rest"
  shows "wp' = report ev outcome (begin_event wp)"
    "dm' = fold (do_world ok) (answer_acts wp ev outcome) (dm\<lparr>dm_queue := rest\<rparr>)"
  using assms by (auto simp: receive_def processEvent_is_acts begin_event_def Let_def)

lemma analysed_run:
  fixes s :: "'p system" and cel :: "('a, 'p) cel"
  assumes "i < length (ps_workers (sy_pool s))" "ps_workers (sy_pool s) ! i \<noteq> Exited"
    and "dm_queue (sy_daemon s) = ev # rest"
    and "receive ok outcome (ps_pool (sy_pool s)) (sy_daemon s) = Some (wp, dm)"
  shows "\<exists>ls. thread_run cel unm n (at_rest s) ls
      (at_rest (s\<lparr>sy_pool := (sy_pool s)\<lparr>ps_pool := wp, ps_daemon := dm\<rparr>\<rparr>)) \<and> visible ls = [Analysed ev outcome]"
proof -
  let ?js = "replicate (length (ps_workers (sy_pool s))) Idle" and ?wp = "ps_pool (sy_pool s)"
  let ?dm1 = "(sy_daemon s)\<lparr>dm_queue := rest\<rparr>" and ?s1 = "set_pool (begin_event (ps_pool (sy_pool s))) s"
  let ?job = "\<lambda>dm j. \<lparr>th_sys = set_daemon dm ?s1, th_engine = Ready, th_jobs = ?js[i := j]\<rparr>"
  have jobs: "thread_step cel unm n t l t'" if "job_step i t l t'" for t :: "'p threads" and l t'
    using that by (auto simp: thread_step_def daemon_step_def)
  note r = receive_is_acts [OF assms(4,3)]
  have "job_step i (at_rest s) Internal (?job ?dm1 (Asking ev))"
    using job_step.take_event [of i "at_rest s" ev rest] assms(1-3)
    by (simp add: at_rest_def set_pool_daemon)
  note taken = jobs [OF this]
  have "job_step i (?job ?dm1 (Asking ev)) (Analysed ev outcome) (?job ?dm1 (Answered ev outcome (answer_acts ?wp ev outcome)))"
    using job_step.answer [of i "?job ?dm1 (Asking ev)" ev outcome] assms(1) by simp
  note answered = jobs [OF this]
  obtain ls where ls: "thread_run cel unm n (?job ?dm1 (Answered ev outcome (answer_acts ?wp ev outcome))) ls
      (?job dm (Answered ev outcome []))" "visible ls = []"
    using job_acts_run [of i ?js cel unm n ?dm1 ?s1 Ready ev outcome "answer_acts ?wp ev outcome" ok] assms(1) r(2) by auto
  have rest: "at_rest (s\<lparr>sy_pool := (sy_pool s)\<lparr>ps_pool := wp, ps_daemon := dm\<rparr>\<rparr>)
      = \<lparr>th_sys = set_pool (report ev outcome (begin_event ?wp)) (set_daemon dm ?s1), th_engine = Ready, th_jobs = ?js\<rparr>"
    by (simp add: at_rest_def r(1) set_pool_def set_daemon_def)
  have js: "?js[i := Idle] = ?js" using assms(1) by (simp add: list_update_same_conv)
  have "job_step i (?job dm (Answered ev outcome [])) Internal (at_rest (s\<lparr>sy_pool := (sy_pool s)\<lparr>ps_pool := wp, ps_daemon := dm\<rparr>\<rparr>))"
    using job_step.job_done [of i "?job dm (Answered ev outcome [])" ev outcome] assms(1) js unfolding rest by simp
  note finished = jobs [OF this]
  show ?thesis
    using thread_run_Cons [OF taken thread_run_Cons [OF answered thread_run_snoc [OF ls(1) finished]]] ls(2)
    by (intro exI [of _ "Internal # Analysed ev outcome # ls @ [Internal]"]) simp
qed

lemma sys_step_run:
  assumes "sys_step cel unm n s l s'"
  shows "\<exists>ls. thread_run cel unm n (at_rest s) ls (at_rest s') \<and> visible ls = visible [l]"
  using assms
proof (induction rule: sys_step.induct)
  case (kernel op s)
  then have "thread_step cel unm n (at_rest s) (Kernel op) (at_rest (set_maps (kstep op (sy_maps s)) s))"
    using around_step.kernel_op [of op n cel unm "at_rest s"] by (simp add: thread_step_def at_rest_def)
  from thread_run_one [OF this] show ?case by (intro exI [of _ "[Kernel op]"]) simp
next
  case (bypassed s ev)
  then have "thread_step cel unm n (at_rest s) (Bypassed ev) (at_rest (s\<lparr>sy_read := sy_read s + 1\<rparr>))"
    using engine_step.bypass [of "at_rest s" ev cel] by (simp add: thread_step_def daemon_step_def at_rest_def)
  from thread_run_one [OF this] show ?case by (intro exI [of _ "[Bypassed ev]"]) simp
next
  case (decided s ev env v en dm)
  have v: "visible [Decided ev v] = [Decided ev v]" by simp
  show ?case unfolding v by (rule decided_run [OF decided])
next
  case (analysed i s ev rest sys_ok outcome wp dm)
  have v: "visible [Analysed ev outcome] = [Analysed ev outcome]" by simp
  show ?case unfolding v by (rule analysed_run [OF analysed])
next
  case (leaves s p)
  obtain i where i: "i < length (ps_workers (sy_pool s))" "\<forall>j. j \<noteq> i \<longrightarrow> ps_workers p ! j = ps_workers (sy_pool s) ! j"
    "length (ps_workers p) = length (ps_workers (sy_pool s))"
    using leaves by (cases rule: worker_step.cases) (auto dest: receive_Some(4))
  have "job_step i (at_rest s) Internal ((at_rest s)\<lparr>th_sys := s\<lparr>sy_pool := p\<rparr>\<rparr>)"
    using job_step.leave [of i "at_rest s" p] leaves i by (simp add: at_rest_def)
  then have "thread_step cel unm n (at_rest s) Internal (at_rest (s\<lparr>sy_pool := p\<rparr>))"
    using i(3) by (auto simp: thread_step_def daemon_step_def at_rest_def)
  from thread_run_one [OF this] show ?case by (intro exI [of _ "[Internal]"]) simp
next
  case (cancel s)
  have "thread_step cel unm n (at_rest s) Internal (at_rest (s\<lparr>sy_pool := (sy_pool s)\<lparr>ps_ctx_done := True\<rparr>\<rparr>))"
    using around_step.context_ends [of cel unm n "at_rest s"] by (simp add: thread_step_def at_rest_def)
  from thread_run_one [OF this] show ?case by (intro exI [of _ "[Internal]"]) simp
next
  case (reloaded s i)
  have "thread_step cel unm n (at_rest s) Internal (at_rest (s\<lparr>sy_engine := reload cel unm i (sy_engine s)\<rparr>))"
    using around_step.rules_reload [of cel unm n "at_rest s" i] by (simp add: thread_step_def at_rest_def)
  from thread_run_one [OF this] show ?case by (intro exI [of _ "[Internal]"]) simp
qed

lemma whole_events_run:
  assumes "sys_run cel unm n s0 ls s"
  shows "\<exists>ls'. thread_run cel unm n (at_rest s0) ls' (at_rest s) \<and> visible ls' = visible ls"
  using assms
proof (induction rule: sys_run.induct)
  case start
  show ?case by (intro exI [of _ "[]"]) auto
next
  case (step ls s l s')
  then obtain ls' where "thread_run cel unm n (at_rest s0) ls' (at_rest s)" "visible ls' = visible ls" by blast
  moreover obtain ls'' where "thread_run cel unm n (at_rest s) ls'' (at_rest s')" "visible ls'' = visible [l]"
    using sys_step_run [OF step.hyps(2)] by blast
  ultimately show ?case
    using labelled_run_append [where R = "thread_step cel unm n"] by (metis filter_append)
qed

text \<open>What is counted on a run does not depend on its internal steps.\<close>

lemma visible_counts:
  "kernel_ops (visible ls) = kernel_ops ls" "handled (visible ls) = handled ls"
  "concat (map (kills_of mode cfg) (visible ls)) = concat (map (kills_of mode cfg) ls)"
proof -
  show "kernel_ops (visible ls) = kernel_ops ls" by (induction ls rule: kernel_ops.induct) simp_all
  show "handled (visible ls) = handled ls" by (induction ls rule: handled.induct) simp_all
  show "concat (map (kills_of mode cfg) (visible ls)) = concat (map (kills_of mode cfg) ls)"
    by (induction ls) auto
qed



text \<open>The run of two steps of \<open>System_Properties\<close>, with the goroutines.\<close>

lemma sc_threads_run:
  obtains ls ev v s where
    "thread_run sc_cel (\<lambda>_::unit. None) 1 (at_rest (sc_system mode)) ls (at_rest s)"
    "visible ls = [Kernel (Exec (sc_exec 11 10 2) sc_bprm), Decided ev v]"
    "e_pid ev = 11" "ExecKey ev = sc_key 1 2" "ve_Action v = ActionBlock" "sy_read s = 1"
    "bpf_map_lookup_elem (pid_hash_map (sy_maps s)) 10 = Some (sc_hash 1)"
    "mode \<noteq> ModeMonitor \<Longrightarrow> blocked s (sc_key 1 2)"
    "dm_kills (sy_daemon s) = (if mode \<noteq> ModeMonitor then [11] else [])"
proof (rule sc_system_run [of mode])
  fix ev v s
  assume s: "sys_run sc_cel (\<lambda>_::unit. None) 1 (sc_system mode)
      [Kernel (Exec (sc_exec 11 10 2) sc_bprm), Decided ev v] s"
    "e_pid ev = 11" "ExecKey ev = sc_key 1 2" "ve_Action v = ActionBlock" "sy_read s = 1"
    "bpf_map_lookup_elem (pid_hash_map (sy_maps s)) 10 = Some (sc_hash 1)"
    "mode \<noteq> ModeMonitor \<Longrightarrow> blocked s (sc_key 1 2)"
    "dm_kills (sy_daemon s) = (if mode \<noteq> ModeMonitor then [11] else [])"
  obtain ls where ls: "thread_run sc_cel (\<lambda>_::unit. None) 1 (at_rest (sc_system mode)) ls (at_rest s)"
    "visible ls = visible [Kernel (Exec (sc_exec 11 10 2) sc_bprm), Decided ev v]"
    using whole_events_run [OF s(1)] by blast
  have "visible ls = [Kernel (Exec (sc_exec 11 10 2) sc_bprm), Decided ev v]" using ls(2) by simp
  then show thesis using that [OF ls(1)] s(2-) by blast
qed


end
