(* ===== verification/Interleaving_Properties.thy ===== *)
theory Interleaving_Properties
  imports Progress Event_Simulation Engine_Properties
begin

text \<open>
  Properties of the goroutines of \<open>Daemon_Steps\<close> in any interleaving: \<open>Process\<close> and
  \<open>processEvent\<close> are their calls in order; the maps run as those of the kernel machine; every
  denial and every signal goes back to a decision; every decision is carried out; and the
  daemon catches up when the kernel lets it.
\<close>

section \<open>The maps\<close>

text \<open>
  C8: whatever the goroutines do in between, the maps run as those of the kernel machine: with
  the operations of the kernel in their order and only writes of verdicts, under well-formed
  keys, added. All that holds of the machine's runs (capacities, accounting, protected PIDs,
  delivery of events) so holds of the daemon at work.
\<close>
theorem threads_refine_machine:
  assumes "thread_run cel unm n (at_rest s0) ls t" "sys_start n s0"
  shows "\<exists>ops. list_all (kop_ok n) ops \<and> th_maps t = krun ops (sy_maps s0)
    \<and> filter (\<lambda>op. writes_key op = None) ops = kernel_ops ls"
  using assms(1)
proof (induction rule: labelled_run.induct)
  case start
  show ?case by (intro exI [of _ "[]"]) (simp add: krun_def th_maps_def at_rest_def)
next
  case (step ls t l t')
  then obtain ops where ops: "list_all (kop_ok n) ops" "th_maps t = krun ops (sy_maps s0)"
    "filter (\<lambda>op. writes_key op = None) ops = kernel_ops ls" by blast
  have "thread_inv n t"
    using threads.run_inv [OF step.hyps(1)] at_rest_inv [OF sys_start_inv [OF assms(2)]] by blast
  from thread_step_ops [OF step.hyps(2) this] obtain ops' where "list_all (kop_ok n) ops'"
    "th_maps t' = krun ops' (th_maps t)" "filter (\<lambda>op. writes_key op = None) ops' = kernel_ops [l]" by blast
  with ops show ?case by (intro exI [of _ "ops @ ops'"]) (simp add: krun_def)
qed

section \<open>The configuration\<close>

definition thread_conf :: "nat \<Rightarrow> string \<Rightarrow> WorkerPoolConfig \<Rightarrow> 'p threads \<Rightarrow> bool" where
  "thread_conf n mode cfg t \<longleftrightarrow> thread_inv n t \<and> sys_mode (th_sys t) = mode \<and> sys_cfg (th_sys t) = cfg"

lemma looked_up_mode: "en_mode (looked_up env ev en) = en_mode en"
  by simp

lemma report_config [simp]: "wp_config (report ev outcome wp) = wp_config wp"
  by (simp add: report_def split: sum.split)

lemma thread_step_config:
  assumes "thread_step cel unm n t l t'"
  shows "sys_mode (th_sys t') = sys_mode (th_sys t) \<and> sys_cfg (th_sys t') = sys_cfg (th_sys t)"
proof -
  have "sys_mode (th_sys t') = sys_mode (th_sys t) \<and> sys_cfg (th_sys t') = sys_cfg (th_sys t)"
    if "engine_step cel t l t'"
    using that
  proof (induction rule: engine_step.induct)
    case (act t env ev v a acts v' en dm)
    then show ?case using do_engine_parts(1) [OF act.hyps(2)] by (simp add: sys_mode_def sys_cfg_def)
  qed (simp_all add: sys_mode_def sys_cfg_def)
  moreover have "sys_mode (th_sys t') = sys_mode (th_sys t) \<and> sys_cfg (th_sys t') = sys_cfg (th_sys t)"
    if "job_step i t l t'" for i
    using that by (induction rule: job_step.induct) (simp_all add: sys_mode_def sys_cfg_def begin_event_def)
  moreover have "sys_mode (th_sys t') = sys_mode (th_sys t) \<and> sys_cfg (th_sys t') = sys_cfg (th_sys t)"
    if "around_step cel unm n t l t'"
    using that by (induction rule: around_step.induct) (simp_all add: sys_mode_def sys_cfg_def reload_mode set_maps_def)
  ultimately show ?thesis using assms unfolding thread_step_def daemon_step_def by blast
qed

lemma thread_step_conf: "thread_step cel unm n t l t' \<Longrightarrow> thread_conf n mode cfg t \<Longrightarrow> thread_conf n mode cfg t'"
  by (simp add: thread_conf_def thread_step_inv thread_step_config)

section \<open>Where verdicts come from\<close>

text \<open>A chain is blocked, or some goroutine has it still to block.\<close>

fun engine_blocks :: "engine_pc \<Rightarrow> exec_key \<Rightarrow> bool" where
  "engine_blocks (Acting env ev v acts) k \<longleftrightarrow> World (Write_Block k) \<in> set acts"
| "engine_blocks _ k \<longleftrightarrow> False"

fun job_blocks :: "worker_job \<Rightarrow> exec_key \<Rightarrow> bool" where
  "job_blocks (Answered ev outcome acts) k \<longleftrightarrow> Write_Block k \<in> set acts"
| "job_blocks _ k \<longleftrightarrow> False"

definition blocking :: "'p threads \<Rightarrow> exec_key \<Rightarrow> bool" where
  "blocking t k \<longleftrightarrow> blocked (th_sys t) k \<or> engine_blocks (th_engine t) k
     \<or> (\<exists>j \<in> set (th_jobs t). job_blocks j k)"

definition block_label :: "string \<Rightarrow> WorkerPoolConfig \<Rightarrow> step_label \<Rightarrow> exec_key \<Rightarrow> bool" where
  "block_label mode cfg l k \<longleftrightarrow> (\<exists>ev. blocks mode cfg l ev \<and> ExecKey ev = k \<and> e_hash_available ev \<noteq> 0)"

lemma judge_blocks:
  assumes "judge cel env ev en = (v, acts)" "World (Write_Block k) \<in> set acts"
  shows "ve_Action v = ActionBlock \<and> en_mode en \<noteq> ModeMonitor \<and> k = ExecKey ev \<and> e_hash_available ev \<noteq> 0
    \<and> judged_label ev v = Decided ev v"
  using assms
  by (auto simp: judge_def Let_def case_prod_unfold enforce_acts_def promote_acts_def judged_label_def
      split: option.splits if_splits)

lemma answer_blocks:
  "Write_Block k \<in> set (answer_acts wp ev outcome) \<Longrightarrow>
     ai_blocks (wp_config wp) outcome \<and> k = ExecKey ev \<and> e_hash_available ev \<noteq> 0"
  by (auto simp: answer_acts_def executeBlock_acts_def ai_blocks_def split: sum.splits if_splits)

lemma blocked_daemon:
  "blocked s k \<longleftrightarrow> bpf_map_lookup_elem (verdict_map (dm_maps (sy_daemon s))) k = Some VERDICT_BLOCK"
  by (simp add: blocked_def sy_maps_def)

lemma engine_step_blocking:
  assumes "engine_step cel t l t'" "thread_conf n mode cfg t" "blocking t' k"
  shows "blocking t k \<or> block_label mode cfg l k"
  using assms
proof (induction rule: engine_step.induct)
  case (match_rules t env ev v acts)
  then show ?case
    using judge_blocks [OF match_rules.hyps(2), of k]
    by (auto simp: blocking_def block_label_def blocks_def thread_conf_def sys_mode_def)
next
  case (act t env ev v a acts v' en dm)
  note parts = do_engine_parts [OF act.hyps(2)]
  have "blocked (th_sys t) k \<or> a = World (Write_Block k)"
    if "bpf_map_lookup_elem (verdict_map (dm_maps dm)) k = Some VERDICT_BLOCK"
  proof (cases "\<exists>w. a = World w")
    case True
    then obtain w where a: "a = World w" by blast
    then show ?thesis
      using that parts(3) [OF a] do_world_block [of "pe_sys_ok env" w "sy_daemon (th_sys t)" k]
      by (auto simp: blocked_daemon)
  next
    case False
    then show ?thesis using that parts(4) by (simp add: blocked_daemon)
  qed
  then show ?case using act.hyps(1) act.prems(2) by (auto simp: blocking_def blocked_daemon sy_daemon_def)
qed (auto simp: blocking_def blocked_daemon sy_daemon_def)

lemma jobs_update:
  "\<exists>j \<in> set (js[i := j']). P j \<Longrightarrow> P j' \<or> (\<exists>j \<in> set js. P j)"
  by (auto dest: subsetD [OF set_update_subset_insert])

lemma job_step_blocking:
  assumes "job_step i t l t'" "thread_conf n mode cfg t" "blocking t' k"
  shows "blocking t k \<or> block_label mode cfg l k"
  using assms
proof (induction rule: job_step.induct)
  case (take_event t ev rest)
  then show ?case
    by (auto simp: blocking_def blocked_daemon sy_daemon_def set_pool_def set_daemon_def dest!: jobs_update)
next
  case (answer t ev outcome)
  then show ?case
    using answer_blocks [of k "ps_pool (sy_pool (th_sys t))" ev outcome]
    by (auto simp: blocking_def block_label_def blocks_def thread_conf_def sys_cfg_def dest!: jobs_update)
next
  case (carry_out t ev outcome a acts sys_ok)
  have "th_jobs t ! i \<in> set (th_jobs t)" using carry_out.hyps(1) by simp
  then show ?case
    using carry_out.hyps(2) carry_out.prems(2) do_world_block [of sys_ok a "sy_daemon (th_sys t)" k]
    by (fastforce simp: blocking_def blocked_daemon dest!: jobs_update)
next
  case (job_done t ev outcome)
  then show ?case
    by (auto simp: blocking_def blocked_daemon sy_daemon_def set_pool_def dest!: jobs_update)
qed (auto simp: blocking_def blocked_daemon sy_daemon_def)

lemma thread_step_blocking:
  assumes "thread_step cel unm n t l t'" "thread_conf n mode cfg t" "blocking t' k"
  shows "blocking t k \<or> block_label mode cfg l k"
proof -
  have "blocking t k" if "around_step cel unm n t l t'"
    using that assms(3)
  proof (induction rule: around_step.induct)
    case (kernel_op op t)
    then show ?case by (simp add: blocking_def blocked_def kernel_keeps_verdicts)
  qed (simp_all add: blocking_def blocked_def sy_maps_def sy_daemon_def)
  then show ?thesis
    using assms engine_step_blocking job_step_blocking unfolding thread_step_def daemon_step_def by blast
qed

interpretation verdicts: labelled_origin "thread_step cel unm n" "thread_conf n mode cfg" blocking "block_label mode cfg"
  for cel unm n mode cfg
  by unfold_locales (blast intro: thread_step_conf, blast dest: thread_step_blocking)

text \<open>The event of a label was submitted by the kernel.\<close>

lemma thread_label_submitted:
  assumes "thread_step cel unm n t l t'" "thread_inv n t"
    and "blocks mode cfg l ev \<or> fails_closed cfg l ev"
  shows "submitted (th_maps t) ev"
proof -
  have "submitted (th_maps t) ev" if "engine_step cel t l t'"
    using that assms(2,3)
  proof (induction rule: engine_step.induct)
    case (cache_hit t ev' env v)
    then show ?case by (auto simp: blocks_def fails_closed_def)
  qed (auto simp: blocks_def fails_closed_def thread_inv_def judged_label_def act_label_def
      split: if_splits engine_act.splits)
  moreover have "submitted (th_maps t) ev" if "job_step i t l t'" for i
    using that assms(2,3)
  proof (induction rule: job_step.induct)
    case (answer t ev' outcome)
    have "job_ok (th_maps t) (th_jobs t ! i)" using answer.hyps(1) answer.prems(1) by (simp add: thread_inv_def)
    then show ?case using answer.hyps(2) answer.prems(2) by (auto simp: blocks_def fails_closed_def)
  qed (auto simp: blocks_def fails_closed_def)
  moreover have "\<not> around_step cel unm n t l t'"
    using assms(3) by (auto simp: blocks_def fails_closed_def elim: around_step.cases)
  ultimately show ?thesis using assms(1) unfolding thread_step_def daemon_step_def by blast
qed

lemma thread_run_submitted:
  assumes "thread_run cel unm n t0 ls t" "thread_inv n t0"
    and "l \<in> set ls" "blocks mode cfg l ev \<or> fails_closed cfg l ev"
  shows "submitted (th_maps t) ev"
  using assms(1,3)
proof (induction rule: labelled_run.induct)
  case (step ls t l' t')
  note inv = threads.run_inv [OF step.hyps(1) assms(2)]
  obtain evs where "events (th_maps t') = events (th_maps t) @ evs"
    using thread_step_grows [OF step.hyps(2) inv] by blast
  moreover have "submitted (th_maps t) ev"
    using step.IH step.prems thread_label_submitted [OF step.hyps(2) inv] assms(4) by auto
  ultimately show ?case by (rule submitted_append)
qed simp

lemma at_rest_conf: "sys_start n s \<Longrightarrow> thread_conf n (sys_mode s) (sys_cfg s) (at_rest s)"
  using at_rest_inv [OF sys_start_inv] by (simp add: thread_conf_def at_rest_def)

lemma at_rest_blocking: "blocking (at_rest s) k \<longleftrightarrow> blocked s k"
  by (auto simp: blocking_def at_rest_def)

text \<open>
  C3: no execution is denied without a reason on record, however the goroutines and the kernel
  interleave: a denied execution has an exec chain that was blocked when the daemon started, or
  that a BLOCK rule, outside monitor mode, or a risk above the threshold decided on, for an event
  with an IMA hash that the kernel submitted.
\<close>
theorem denial_justified_threads:
  assumes "thread_run cel unm n (at_rest s0) ls t" "sys_start n s0"
    and "fst (zask_bprm_check env bprm (th_maps t)) = - EPERM"
  shows "blocked s0 (chain_key env bprm (th_maps t))
    \<or> (\<exists>l \<in> set ls. \<exists>ev. blocks (sys_mode s0) (sys_cfg s0) l ev
         \<and> ExecKey ev = chain_key env bprm (th_maps t) \<and> e_hash_available ev \<noteq> 0
         \<and> submitted (th_maps t) ev)"
proof -
  let ?k = "chain_key env bprm (th_maps t)"
  have "blocking t ?k"
    using assms(3) by (simp add: bprm_check_ret blocking_def blocked_def th_maps_def EPERM_def split: if_splits)
  from verdicts.run_origin [OF assms(1) at_rest_conf [OF assms(2)] this] show ?thesis
    using thread_run_submitted [OF assms(1) at_rest_inv [OF sys_start_inv [OF assms(2)]]]
    unfolding at_rest_blocking block_label_def by blast
qed

section \<open>Every decided signal is sent once\<close>

fun kills_in :: "world_act list \<Rightarrow> u32 multiset" where
  "kills_in [] = {#}"
| "kills_in (Send_Kill pid # acts) = add_mset pid (kills_in acts)"
| "kills_in (_ # acts) = kills_in acts"

fun engine_kills_in :: "engine_act list \<Rightarrow> u32 multiset" where
  "engine_kills_in [] = {#}"
| "engine_kills_in (World a # acts) = kills_in [a] + engine_kills_in acts"
| "engine_kills_in (_ # acts) = engine_kills_in acts"

fun engine_due :: "engine_pc \<Rightarrow> u32 multiset" where
  "engine_due (Acting env ev v acts) = engine_kills_in acts"
| "engine_due _ = {#}"

fun job_due :: "worker_job \<Rightarrow> u32 multiset" where
  "job_due (Answered ev outcome acts) = kills_in acts"
| "job_due _ = {#}"

text \<open>The signals decided on that no goroutine has sent yet, and with those sent.\<close>

definition kills_due :: "'p threads \<Rightarrow> u32 multiset" where
  "kills_due t = engine_due (th_engine t) + sum_list (map job_due (th_jobs t))"

definition kills_total :: "'p threads \<Rightarrow> u32 multiset" where
  "kills_total t = mset (dm_kills (sy_daemon (th_sys t))) + kills_due t"

lemma engine_kills_map [simp]: "engine_kills_in (map World acts) = kills_in acts"
proof (induction acts)
  case (Cons a acts)
  then show ?case by (cases a) simp_all
qed simp

lemma kills_in_Cons: "kills_in (a # acts) = kills_in [a] + kills_in acts"
  by (cases a) simp_all

lemma engine_kills_append [simp]: "engine_kills_in (as @ bs) = engine_kills_in as + engine_kills_in bs"
  by (induction as rule: engine_kills_in.induct) simp_all

lemma judge_kills:
  assumes "judge cel env ev en = (v, acts)"
  shows "engine_kills_in acts = mset (map e_pid (kills_of (en_mode en) cfg (judged_label ev v)))"
  using assms
  by (auto simp: judge_def Let_def case_prod_unfold enforce_acts_def promote_acts_def judged_label_def
      split: option.splits if_splits)

lemma answer_kills:
  "kills_in (answer_acts wp ev outcome) = mset (map e_pid (kills_of mode (wp_config wp) (Analysed ev outcome)))"
  by (auto simp: answer_acts_def executeBlock_acts_def ai_blocks_def split: sum.splits if_splits)

lemma do_world_sends: "mset (dm_kills (do_world ok a dm)) = mset (dm_kills dm) + kills_in [a]"
  by (cases a) simp_all

lemma do_engine_sends:
  assumes "do_engine env a (v, en, dm) = (v', en', dm')"
  shows "mset (dm_kills dm') = mset (dm_kills dm) + engine_kills_in [a]"
proof (cases a)
  case (World w)
  then show ?thesis using do_engine_parts(3) [OF assms World] by (simp add: do_world_sends)
qed (use do_engine_parts(4) [OF assms] in simp_all)

lemma act_label_kills:
  assumes "do_engine env a (v, en, dm) = (v', en', dm')"
  shows "kills_of mode cfg (act_label ev v' a) = []"
  using do_engine_parts(7) [OF assms] by (cases a) (auto simp: act_label_def)

lemma engine_kills_Cons: "engine_kills_in (a # acts) = engine_kills_in [a] + engine_kills_in acts"
  by (cases a) simp_all

lemma engine_step_kills:
  assumes "engine_step cel t l t'" "thread_conf n mode cfg t"
  shows "kills_total t' = kills_total t + mset (map e_pid (kills_of mode cfg l))"
  using assms
proof (induction rule: engine_step.induct)
  case (match_rules t env ev v acts)
  then show ?case
    using judge_kills [OF match_rules.hyps(2), of cfg]
    by (simp add: kills_total_def kills_due_def thread_conf_def sys_mode_def)
next
  case (act t env ev v a acts v' en dm)
  then show ?case
    using do_engine_sends [OF act.hyps(2)] act_label_kills [OF act.hyps(2), of mode cfg ev]
      engine_kills_Cons [of a acts]
    by (simp add: kills_total_def kills_due_def sy_daemon_def)
qed (simp_all add: kills_total_def kills_due_def sy_daemon_def)

lemma job_step_kills:
  assumes "job_step i t l t'" "thread_conf n mode cfg t"
  shows "kills_total t' = kills_total t + mset (map e_pid (kills_of mode cfg l))"
proof -
  have upd: "i < length (th_jobs t) \<Longrightarrow> sum_list (map job_due ((th_jobs t)[i := j])) + job_due (th_jobs t ! i)
      = sum_list (map job_due (th_jobs t)) + job_due j" for j
    by (rule sum_list_update_add)
  show ?thesis
    using assms upd
  proof (induction rule: job_step.induct)
    case (take_event t ev rest)
    then show ?case
      using take_event.prems(2) [of "Asking ev"]
      by (simp add: kills_total_def kills_due_def sy_daemon_def set_pool_def set_daemon_def)
  next
    case (answer t ev outcome)
    then show ?case
      using answer.prems(2) [of "Answered ev outcome (answer_acts (ps_pool (sy_pool (th_sys t))) ev outcome)"]
        answer_kills [of "ps_pool (sy_pool (th_sys t))" ev outcome mode]
      by (simp add: kills_total_def kills_due_def thread_conf_def sys_cfg_def)
  next
    case (carry_out t ev outcome a acts sys_ok)
    then have "(sum_list (map job_due ((th_jobs t)[i := Answered ev outcome acts])) + kills_in [a]) + kills_in acts
        = sum_list (map job_due (th_jobs t)) + kills_in acts"
      using carry_out.prems(2) [of "Answered ev outcome acts"] kills_in_Cons [of a acts]
      by (simp add: add.assoc)
    then have "sum_list (map job_due ((th_jobs t)[i := Answered ev outcome acts])) + kills_in [a]
        = sum_list (map job_due (th_jobs t))" by (simp only: add_right_cancel)
    then show ?case by (simp add: kills_total_def kills_due_def do_world_sends ac_simps)
  next
    case (job_done t ev outcome)
    then show ?case
      using job_done.prems(2) [of Idle] by (simp add: kills_total_def kills_due_def)
  qed (simp add: kills_total_def kills_due_def sy_daemon_def)
qed

lemma thread_step_kills:
  assumes "thread_step cel unm n t l t'" "thread_conf n mode cfg t"
  shows "kills_total t' = kills_total t + mset (map e_pid (kills_of mode cfg l))"
proof -
  have "kills_total t' = kills_total t + mset (map e_pid (kills_of mode cfg l))" if "around_step cel unm n t l t'"
    using that by (induction rule: around_step.induct)
      (simp_all add: kills_total_def kills_due_def sy_daemon_def set_maps_def)
  then show ?thesis
    using assms engine_step_kills job_step_kills unfolding thread_step_def daemon_step_def by blast
qed

interpretation signals: labelled_balance "thread_step cel unm n" "thread_conf n mode cfg" kills_total
  "\<lambda>l. mset (map e_pid (kills_of mode cfg l))"
  for cel unm n mode cfg
  by unfold_locales (blast intro: thread_step_conf, rule thread_step_kills)

lemma signals_run:
  assumes "thread_run cel unm n (at_rest s0) ls t" "sys_start n s0"
  shows "mset (dm_kills (sy_daemon (th_sys t))) + kills_due t
      = mset (dm_kills (sy_daemon s0))
        + mset (map e_pid (concat (map (kills_of (sys_mode s0) (sys_cfg s0)) ls)))"
    (is "_ = _ + mset (map e_pid (concat (map ?kills ls)))")
proof -
  have "sum_list (replicate m {#}) = ({#} :: u32 multiset)" for m by (induction m) simp_all
  then have "kills_total (at_rest s0) = mset (dm_kills (sy_daemon s0))"
    by (simp add: kills_total_def kills_due_def at_rest_def)
  moreover have "sum_list (map (\<lambda>l. mset (map e_pid (?kills l))) ls) = mset (map e_pid (concat (map ?kills ls)))"
    by (induction ls) simp_all
  ultimately show ?thesis
    using signals.run_total [OF assms(1) at_rest_conf [OF assms(2)]] by (simp add: kills_total_def)
qed

text \<open>
  C6: the signals are exactly those of the decisions: at every moment of any interleaving the
  signals sent and those a goroutine has decided on and not yet sent are, with their number, the
  decisions of the run: one for each BLOCK rule or risk above the threshold outside monitor mode
  and one for each failed analysis with failOpen off.
\<close>
theorem signals_sent_or_due:
  assumes "thread_run cel unm n (at_rest s0) ls t" "sys_start n s0"
  shows "mset (dm_kills (sy_daemon (th_sys t))) + kills_due t
      = mset (dm_kills (sy_daemon s0))
        + mset (map e_pid (concat (map (kills_of (sys_mode s0) (sys_cfg s0)) ls)))"
  by (rule signals_run [OF assms])

section \<open>Every event once, in order\<close>

text \<open>The event the engine has taken and not decided yet.\<close>

fun at_hand :: "engine_pc \<Rightarrow> event list" where
  "at_hand Ready = []"
| "at_hand (Matching env ev) = [ev]"
| "at_hand (Acting env ev v acts) = (if \<exists>a \<in> set acts. is_route a then [ev] else [])"

lemma handled_labels [simp]:
  "handled [act_label ev v a] = (if is_route a then [ev] else [])"
  "handled [judged_label ev v] = (if ve_Tier v = 2 then [ev] else [])"
  by (cases a) (simp_all add: act_label_def judged_label_def)

lemma thread_step_handled:
  assumes "thread_step cel unm n t l t'" "thread_inv n t" "sy_read (th_sys t) \<le> length (events (th_maps t))"
  shows "handled [l] @ at_hand (th_engine t')
      = at_hand (th_engine t) @ drop (sy_read (th_sys t)) (take (sy_read (th_sys t')) (events (th_maps t)))
    \<and> sy_read (th_sys t) \<le> sy_read (th_sys t') \<and> sy_read (th_sys t') \<le> length (events (th_maps t))"
proof -
  have next_event: "sy_read (th_sys t) < length (events (th_maps t))
      \<and> Suc (sy_read (th_sys t)) \<le> length (events (th_maps t)) \<and> ev = events (th_maps t) ! sy_read (th_sys t)"
    if "next_event (th_sys t) ev" for ev
    using next_event_is(1,2) [OF that, of n] assms(2) by (simp add: thread_inv_def sys_inv_def th_maps_def Suc_leI)
  have "?thesis" if "engine_step cel t l t'"
    using that assms(2,3) next_event
  proof (induction rule: engine_step.induct)
    case (match_rules t env ev v acts)
    then show ?case using judge_parts(3) [OF match_rules.hyps(2)] by simp
  next
    case (act t env ev v a acts v' en dm)
    have "routes_last (a # acts)" using act.hyps(1) act.prems(1) by (simp add: thread_inv_def)
    then have "is_route a \<Longrightarrow> acts = []" by (cases acts) (auto simp: routes_last_def)
    then show ?case using act.hyps(1) act.prems(2) by auto
  qed (auto simp: take_Suc_conv_app_nth)
  moreover have "?thesis" if "job_step i t l t'" for i
    using that assms(3) by (induction rule: job_step.induct) simp_all
  moreover have "?thesis" if "around_step cel unm n t l t'"
    using that assms(3) by (induction rule: around_step.induct) simp_all
  ultimately show ?thesis using assms(1) unfolding thread_step_def daemon_step_def by blast
qed

lemma handled_run:
  assumes "thread_run cel unm n (at_rest s0) ls t" "sys_start n s0"
  shows "handled ls @ at_hand (th_engine t) = take (sy_read (th_sys t)) (events (th_maps t))
    \<and> sy_read (th_sys t) \<le> length (events (th_maps t))"
  using assms(1)
proof (induction rule: labelled_run.induct)
  case start
  show ?case using assms(2) by (simp add: at_rest_def sys_start_def th_maps_def)
next
  case (step ls t l t')
  have inv: "thread_inv n t"
    using threads.run_inv [OF step.hyps(1)] at_rest_inv [OF sys_start_inv [OF assms(2)]] by blast
  obtain evs where evs: "events (th_maps t') = events (th_maps t) @ evs"
    using thread_step_grows [OF step.hyps(2) inv] by blast
  let ?r = "sy_read (th_sys t)" and ?r' = "sy_read (th_sys t')" and ?es = "events (th_maps t)"
  have h: "handled [l] @ at_hand (th_engine t') = at_hand (th_engine t) @ drop ?r (take ?r' ?es)"
    "?r \<le> ?r'" "?r' \<le> length ?es"
    using thread_step_handled [OF step.hyps(2) inv] step.IH by simp_all
  have "handled (ls @ [l]) @ at_hand (th_engine t') = (handled ls @ at_hand (th_engine t)) @ drop ?r (take ?r' ?es)"
    using h(1) by simp
  also have "\<dots> = take ?r (take ?r' ?es) @ drop ?r (take ?r' ?es)" using step.IH h(2) by (simp add: min_def)
  also have "\<dots> = take ?r' ?es" by (rule append_take_drop_id)
  finally show ?case using evs h(3) by simp
qed


section \<open>Monitor mode\<close>

text \<open>
  C10: monitor mode is harmless as a whole: when the engine and the pool are in monitor mode,
  failures are let pass and no chain was blocked at the start, then whatever the rules and the
  AI say, in any interleaving no process is killed and no execution is ever denied.
\<close>
theorem monitor_threads_harmless:
  assumes "thread_run cel unm n (at_rest s0) ls t" "sys_start n s0"
    and "sys_mode s0 = ModeMonitor" "pc_Mode (sys_cfg s0) = ''monitor''" "pc_FailOpen (sys_cfg s0)"
    and "\<And>k. \<not> blocked s0 k" "dm_kills (sy_daemon s0) = []"
  shows "dm_kills (sy_daemon (th_sys t)) = [] \<and> fst (zask_bprm_check env bprm (th_maps t)) = 0"
proof -
  have "kills_of (sys_mode s0) (sys_cfg s0) l = []" for l
    using assms(3-5) by (cases l) (simp_all add: ai_blocks_def)
  then have none: "concat (map (kills_of (sys_mode s0) (sys_cfg s0)) ls) = []" by simp
  have "dm_kills (sy_daemon (th_sys t)) = []"
    using signals_run [OF assms(1,2)] unfolding assms(7) none by simp
  moreover have "\<not> blocked (th_sys t) k" for k
  proof
    assume "blocked (th_sys t) k"
    then have "blocking t k" by (simp add: blocking_def)
    from verdicts.run_origin [OF assms(1) at_rest_conf [OF assms(2)] this] show False
      using assms(3-6) by (auto simp: at_rest_blocking block_label_def blocks_def ai_blocks_def)
  qed
  ultimately show ?thesis by (simp add: bprm_check_ret blocked_def th_maps_def)
qed

section \<open>The daemon catches up\<close>

lemma daemon_run_thread_run:
  "labelled_run (daemon_step cel) t ls t' \<Longrightarrow> thread_run cel unm n t ls t'"
  by (erule labelled_run_mono) (simp add: thread_step_def)

lemma at_rest_staffed:
  assumes "sys_start n s0" "ps_workers (sy_pool s0) \<noteq> []" "set (ps_workers (sy_pool s0)) \<subseteq> {Running}"
  shows "thread_inv n (at_rest s0) \<and> staffed (at_rest s0)"
  using at_rest_inv [OF sys_start_inv [OF assms(1)]] assms
  by (simp add: staffed_def at_rest_def sys_start_def th_maps_def)

lemma daemon_run_events:
  assumes "labelled_run (daemon_step cel) t ls t'" "thread_inv n t \<and> staffed t"
  shows "events (th_maps t') = events (th_maps t)
    \<and> ps_ctx_done (sy_pool (th_sys t')) = ps_ctx_done (sy_pool (th_sys t))"
  using assms(1)
proof (induction rule: labelled_run.induct)
  case (step ls u l u')
  have u: "thread_inv n u" "staffed u" using daemon_work.run_inv [OF step.hyps(1) assms(2)] by simp_all
  show ?case using daemon_step_staffed(2,3) [OF step.hyps(2) u] step.IH by simp
qed simp

lemma caught_up_nothing_due: "caught_up t \<Longrightarrow> kills_due t = {#} \<and> at_hand (th_engine t) = []"
proof -
  have "list_all (\<lambda>j. j = Idle) js \<Longrightarrow> sum_list (map job_due js) = {#}" for js
    by (induction js) simp_all
  then show "caught_up t \<Longrightarrow> kills_due t = {#} \<and> at_hand (th_engine t) = []"
    by (simp add: caught_up_def kills_due_def)
qed

text \<open>
  C7: the daemon catches up: as long as the context lives, from every state of any interleaving
  its goroutines make at most \<open>thread_weight\<close> steps by themselves, and where they are stuck, as
  some run of theirs is, every event the kernel had submitted is handled, every queued one is
  analysed and every signal that was decided on is sent.
\<close>
theorem daemon_catches_up:
  assumes "thread_run cel unm n (at_rest s0) ls t" "sys_start n s0"
    and "ps_workers (sy_pool s0) \<noteq> []" "set (ps_workers (sy_pool s0)) \<subseteq> {Running}"
    and "\<not> ps_ctx_done (sy_pool (th_sys t))"
  shows "(\<exists>ls' t'. labelled_run (daemon_step cel) t ls' t' \<and> (\<nexists>l u. daemon_step cel t' l u))
    \<and> (\<forall>ls' t'. labelled_run (daemon_step cel) t ls' t' \<longrightarrow> length ls' \<le> thread_weight t
        \<and> ((\<nexists>l u. daemon_step cel t' l u) \<longrightarrow> caught_up t' \<and> handled (ls @ ls') = events (th_maps t)
          \<and> mset (dm_kills (sy_daemon (th_sys t'))) = mset (dm_kills (sy_daemon s0))
              + mset (map e_pid (concat (map (kills_of (sys_mode s0) (sys_cfg s0)) (ls @ ls'))))))"
proof -
  have t: "thread_inv n t \<and> staffed t"
    by (rule staff.run_inv [OF assms(1) at_rest_staffed [OF assms(2-4)]])
  have bounded: "length ls' \<le> thread_weight t" if "labelled_run (daemon_step cel) t ls' t'" for ls' t'
    using daemon_work.run_bounded [OF that t] by simp
  have stuck: "caught_up t' \<and> handled (ls @ ls') = events (th_maps t)
      \<and> mset (dm_kills (sy_daemon (th_sys t'))) = mset (dm_kills (sy_daemon s0))
          + mset (map e_pid (concat (map (kills_of (sys_mode s0) (sys_cfg s0)) (ls @ ls'))))"
    if run: "labelled_run (daemon_step cel) t ls' t'" and "\<nexists>l u. daemon_step cel t' l u" for ls' t'
  proof -
    have t': "thread_inv n t' \<and> staffed t'" by (rule daemon_work.run_inv [OF run t])
    note same = daemon_run_events [OF run t]
    have finished: "caught_up t'" using stuck_iff_caught_up [of n t' cel] t' same assms(5) that(2) by simp
    note whole = labelled_run_append [where R = "thread_step cel unm n", OF assms(1) daemon_run_thread_run [OF run]]
    have "handled (ls @ ls') = events (th_maps t)"
      using handled_run [OF whole assms(2)] caught_up_nothing_due [OF finished] finished same
      by (simp add: caught_up_def)
    then show ?thesis
      using signals_run [OF whole assms(2)] caught_up_nothing_due [OF finished] finished by simp
  qed
  show ?thesis using daemon_work.run_ends [OF t] bounded stuck by blast
qed

section \<open>A reload between the rules and the cache\<close>

lemma reload_ttl [simp]: "cc_ttl (en_cache (reload cel um i en)) = cc_ttl (en_cache en)"
  by (cases i) (auto simp: reload_def LoadFromFile_def LoadFromBytes_def split: option.splits sum.splits)

lemma remember_cached:
  assumes "ExecKey ev' = key" "e_hash_available ev' \<noteq> 0"
    and "pe_now_lookup env' \<le> pe_now_add env + cc_ttl (en_cache en)"
  shows "cached env' ev' (remember env False key en)"
  using assms by (simp add: cached_def remember_def Contains_lookup Add_lookup_same)

lemma rule_for_frame: "en_rules en' = en_rules en \<Longrightarrow> en_interpreters en' = en_interpreters en
    \<Longrightarrow> rule_for cel env ev en' = rule_for cel env ev en"
  by (simp add: rule_for_def resolve_script_def is_interpreter_def)

text \<open>
  C15: a reload can be lost on the cache. The rules are reloaded and the cache is emptied so that
  what was known good is judged again; but an event the engine has judged by the old rules and not
  yet entered in the cache is entered afterwards. Then the new rules block its exec chain, as they
  would have done a step before, and \<open>Process\<close> allows it until the entry expires.
\<close>
theorem reload_loses_race:
  assumes "th_engine t = Acting env ev v (Remember (ExecKey ev) # acts)"
    and "engine_step cel (t\<lparr>th_sys := (th_sys t)\<lparr>sy_engine := reload cel unm i (sy_engine (th_sys t))\<rparr>\<rparr>) l t'"
    and "ExecKey ev' = ExecKey ev" "e_hash_available ev' \<noteq> 0"
    and "\<not> cached env' ev' (reload cel unm i (sy_engine (th_sys t)))"
    and "rule_for cel env' ev' (reload cel unm i (sy_engine (th_sys t))) = Some r" "rl_action r = ''BLOCK''"
    and "pe_now_lookup env' \<le> pe_now_add env + cc_ttl (en_cache (sy_engine (th_sys t)))"
  shows "ve_Action (fst (Process cel env' ev' (reload cel unm i (sy_engine (th_sys t))) dm)) = ActionBlock
    \<and> rule_for cel env' ev' (sy_engine (th_sys t')) = Some r
    \<and> ve_Action (fst (Process cel env' ev' (sy_engine (th_sys t')) dm)) = ActionAllow"
proof -
  let ?en = "reload cel unm i (sy_engine (th_sys t))"
  have en: "sy_engine (th_sys t') = remember env False (ExecKey ev) ?en"
    using assms(2) assms(1) by (cases rule: engine_step.cases) auto
  have "cached env' ev' (sy_engine (th_sys t'))"
    unfolding en by (rule remember_cached) (use assms(3,4,8) in simp_all)
  then show ?thesis
    using assms(5,6,7) by (simp add: Process_cached Process_tiers Let_def rule_outcome_def actionBlockLabel_def
        en rule_for_frame [of "remember env False (ExecKey ev) ?en" ?en])
qed

section \<open>At work\<close>

lemma at_rest_simps [simp]:
  "th_sys (at_rest s) = s" "th_maps (at_rest s) = sy_maps s" "th_engine (at_rest s) = Ready"
  by (simp_all add: at_rest_def th_maps_def)

lemma at_rest_nothing_due [simp]: "kills_due (at_rest s) = {#}"
proof -
  have "sum_list (replicate m {#}) = ({#} :: u32 multiset)" for m by (induction m) simp_all
  then show ?thesis by (simp add: kills_due_def at_rest_def)
qed

theorem threads_refine_machine_witness:
  "\<exists>ls t ops. thread_run sc_cel (\<lambda>_::unit. None) 1 (at_rest (sc_system ''lockdown'')) ls t
     \<and> th_maps t = krun ops (sy_maps (sc_system ''lockdown''))
     \<and> filter (\<lambda>op. writes_key op = None) ops = [Exec (sc_exec 11 10 2) sc_bprm]"
proof (rule sc_threads_run [of "''lockdown''"])
  fix ls ev v s
  assume run: "thread_run sc_cel (\<lambda>_::unit. None) 1 (at_rest (sc_system ''lockdown'')) ls (at_rest s)"
    and ls: "visible ls = [Kernel (Exec (sc_exec 11 10 2) sc_bprm), Decided ev v]"
  have "kernel_ops ls = [Exec (sc_exec 11 10 2) sc_bprm]" using visible_counts(1) [of ls] ls by simp
  then show ?thesis using threads_refine_machine [OF run sc_system_start] run by metis
qed

lemma sc_not_blocked: "\<not> blocked (sc_system mode) k"
  by (simp add: blocked_def sc_system_def sy_maps_def sy_daemon_def pool_start_def)
    (simp add: st_open_def bpf_map_lookup_elem_def)

theorem denial_justified_threads_witness:
  "\<exists>ls t. thread_run sc_cel (\<lambda>_::unit. None) 1 (at_rest (sc_system ''lockdown'')) ls t
     \<and> fst (zask_bprm_check (sc_exec 12 10 2) sc_bprm (th_maps t)) = - EPERM
     \<and> (\<exists>l \<in> set ls. \<exists>ev. blocks ''lockdown'' (wp_config (sc_pool ''lockdown'' True)) l ev
          \<and> ExecKey ev = chain_key (sc_exec 12 10 2) sc_bprm (th_maps t))"
proof (rule sc_threads_run [of "''lockdown''"])
  fix ls ev v s
  assume run: "thread_run sc_cel (\<lambda>_::unit. None) 1 (at_rest (sc_system ''lockdown'')) ls (at_rest s)"
    and parent: "bpf_map_lookup_elem (pid_hash_map (sy_maps s)) 10 = Some (sc_hash 1)"
    and b: "(''lockdown'' :: string) \<noteq> ModeMonitor \<Longrightarrow> blocked s (sc_key 1 2)"
  have denied: "fst (zask_bprm_check (sc_exec 12 10 2) sc_bprm (th_maps (at_rest s))) = - EPERM"
    using b sc_chain_key_known [OF parent, of 12 2 sc_bprm]
    by (simp add: bprm_check_ret blocked_def ModeMonitor_def)
  show ?thesis
    using denial_justified_threads [OF run sc_system_start denied] run denied sc_not_blocked sc_system_config by metis
qed

theorem signals_sent_or_due_witness:
  "\<exists>ls t. thread_run sc_cel (\<lambda>_::unit. None) 1 (at_rest (sc_system ''lockdown'')) ls t
     \<and> dm_kills (sy_daemon (th_sys t)) = [11] \<and> kills_due t = {#}
     \<and> mset (map e_pid (concat (map (kills_of ''lockdown'' (wp_config (sc_pool ''lockdown'' True))) ls))) = {#11#}"
proof (rule sc_threads_run [of "''lockdown''"])
  fix ls ev v s
  assume run: "thread_run sc_cel (\<lambda>_::unit. None) 1 (at_rest (sc_system ''lockdown'')) ls (at_rest s)"
    and kills: "dm_kills (sy_daemon s) = (if ''lockdown'' \<noteq> ModeMonitor then [11] else [])"
  have k: "dm_kills (sy_daemon (th_sys (at_rest s))) = [11]" using kills by (simp add: ModeMonitor_def)
  have start: "dm_kills (sy_daemon (sc_system ''lockdown'')) = []"
    by (simp add: sc_system_def sy_daemon_def pool_start_def)
  have "mset (map e_pid (concat (map (kills_of ''lockdown'' (wp_config (sc_pool ''lockdown'' True))) ls))) = {#11#}"
    using signals_sent_or_due [OF run sc_system_start, unfolded sc_system_config k start at_rest_nothing_due, symmetric]
    by (simp only: mset.simps add_0_left add_0_right)
  with run k at_rest_nothing_due show ?thesis
    by - (rule exI [of _ ls], rule exI [of _ "at_rest s"], simp only: simp_thms)
qed


theorem monitor_threads_harmless_witness:
  "\<exists>ls t. thread_run sc_cel (\<lambda>_::unit. None) 1 (at_rest (sc_system ''monitor'')) ls t
     \<and> handled ls \<noteq> [] \<and> dm_kills (sy_daemon (th_sys t)) = []
     \<and> fst (zask_bprm_check (sc_exec 12 10 2) sc_bprm (th_maps t)) = 0"
proof (rule sc_threads_run [of "''monitor''"])
  fix ls ev v s
  assume run: "thread_run sc_cel (\<lambda>_::unit. None) 1 (at_rest (sc_system ''monitor'')) ls (at_rest s)"
    and ls: "visible ls = [Kernel (Exec (sc_exec 11 10 2) sc_bprm), Decided ev v]"
  have "handled ls = [ev]" using visible_counts(2) [of ls] ls by simp
  moreover have kills: "dm_kills (sy_daemon (sc_system ''monitor'')) = []"
    by (simp add: sc_system_def sy_daemon_def pool_start_def)
  ultimately show ?thesis
    using monitor_threads_harmless [OF run sc_system_start, unfolded sc_system_config] run sc_not_blocked
    by (metis ModeMonitor_def list.distinct(1) sc_pool_simps(1,4))
qed

theorem daemon_catches_up_witness:
  "\<exists>ls t ls' t'. thread_run sc_cel (\<lambda>_::unit. None) 1 (at_rest (sc_system ''lockdown'')) ls t
     \<and> labelled_run (daemon_step sc_cel) t ls' t' \<and> caught_up t' \<and> events (th_maps t) \<noteq> []
     \<and> handled (ls @ ls') = events (th_maps t)"
proof -
  let ?op = "Exec (sc_exec 11 10 2) sc_bprm" and ?s = "sc_system ''lockdown''"
  let ?t = "(at_rest ?s)\<lparr>th_sys := set_maps (kstep ?op (sy_maps ?s)) ?s\<rparr>"
  have "thread_step sc_cel (\<lambda>_::unit. None) 1 (at_rest ?s) (Kernel ?op) ?t"
    using around_step.kernel_op [of ?op 1 sc_cel "\<lambda>_::unit. None" "at_rest ?s"] by (simp add: thread_step_def)
  note run = thread_run_one [OF this]
  have maps: "sy_maps ?s = st_open" by (simp add: sc_system_def sy_maps_def sy_daemon_def pool_start_def)
  have open_maps: "verdict_map st_open = []" "events st_open = []" by (simp_all add: st_open_def)
  have events: "events (th_maps ?t) \<noteq> []"
    using open_maps by (simp add: th_maps_def maps bprm_check_hash emit_step_def bpf_map_lookup_elem_def)
  have workers: "ps_workers (sy_pool ?s) \<noteq> []" "set (ps_workers (sy_pool ?s)) \<subseteq> {Running}"
    "\<not> ps_ctx_done (sy_pool (th_sys ?t))"
    by (auto simp: sc_system_def pool_start_def Start_workers_def sc_pool_def set_maps_def)
  from daemon_catches_up [OF run sc_system_start workers] run events show ?thesis by blast
qed

lemma reload_loses_race_witness:
  "\<exists>(t :: string threads) (t' :: string threads) acts. th_engine t = Acting sc_penv sc_pevent
        \<lparr>ve_RuleName = '''', ve_ScriptPath = '''', ve_Action = ActionAllow, ve_Tier = 3\<rparr> (Remember (sc_key 1 2) # acts)
     \<and> rule_for sc_cel sc_penv sc_pevent (sy_engine (th_sys t)) = None
     \<and> rule_for sc_cel sc_penv sc_pevent (sy_engine (th_sys t')) = Some (sc_rule ''/tmp/'' ''BLOCK'')
     \<and> ve_Action (fst (Process sc_cel sc_penv sc_pevent (sy_engine (th_sys t')) (sc_daemon st_open))) = ActionAllow"
proof -
  let ?en = "sc_engine ''lockdown'' [] []"
  let ?s = "(sc_system ''lockdown'')\<lparr>sy_engine := ?en\<rparr>"
  let ?v = "\<lparr>ve_RuleName = '''', ve_ScriptPath = '''', ve_Action = ActionAllow, ve_Tier = 3\<rparr>"
  let ?t = "(at_rest ?s)\<lparr>th_engine := Acting sc_penv sc_pevent ?v [Remember (sc_key 1 2)]\<rparr>"
  let ?t1 = "?t\<lparr>th_sys := (th_sys ?t)\<lparr>sy_engine := reload sc_cel sc_um (Sighup (Some 0)) (sy_engine (th_sys ?t))\<rparr>\<rparr>"
  obtain v' en dm where "do_engine sc_penv (Remember (sc_key 1 2)) (?v, sy_engine (th_sys ?t1), sy_daemon (th_sys ?t1)) = (v', en, dm)"
    by (metis prod.exhaust)
  then obtain l t' where step: "engine_step sc_cel ?t1 l t'"
    using engine_step.act [of ?t1 sc_penv sc_pevent ?v "Remember (sc_key 1 2)" "[]" v' en dm sc_cel] by auto
  have pc: "th_engine ?t = Acting sc_penv sc_pevent ?v (Remember (ExecKey sc_pevent) # [])"
    "th_engine ?t = Acting sc_penv sc_pevent ?v (Remember (sc_key 1 2) # [])" by simp_all
  have en: "sy_engine (th_sys ?t) = ?en" by simp
  have block: "rule_for sc_cel sc_penv sc_pevent (sc_engine ''lockdown'' [sc_rule ''/tmp/'' ''BLOCK''] [])
      = Some (sc_rule ''/tmp/'' ''BLOCK'')" by (rule sc_rule_for(1))
  note race = reload_loses_race [OF pc(1) step refl, of sc_penv "sc_rule ''/tmp/'' ''BLOCK''" "sc_daemon st_open",
      unfolded en sc_reload(2), OF _ sc_not_cached block]
  have "pe_now_lookup sc_penv \<le> pe_now_add sc_penv + cc_ttl (en_cache ?en)"
    by (simp add: sc_penv_def sc_engine_def)
  then have r: "rule_for sc_cel sc_penv sc_pevent (sy_engine (th_sys t')) = Some (sc_rule ''/tmp/'' ''BLOCK'')"
    "ve_Action (fst (Process sc_cel sc_penv sc_pevent (sy_engine (th_sys t')) (sc_daemon st_open))) = ActionAllow"
    using race by simp_all
  show ?thesis
  proof (intro exI conjI)
    show "th_engine ?t = Acting sc_penv sc_pevent ?v (Remember (sc_key 1 2) # [])" by (rule pc(2))
    show "rule_for sc_cel sc_penv sc_pevent (sy_engine (th_sys ?t)) = None" by (simp add: sc_rule_for)
  qed (rule r)+
qed

end
