(* ===== verification/Denial_Properties.thy ===== *)
theory Denial_Properties
  imports Interleaving_Properties
begin

text \<open>
  How long a denial lasts: a blocked exec chain stays blocked, in any interleaving of the
  goroutines and the kernel, until an event of the chain is allowed.
\<close>

section \<open>What lifts a verdict\<close>

text \<open>A label that allows a chain: a rule or no rule in \<open>Process\<close>, or an answer of the AI.\<close>

definition allow_label :: "WorkerPoolConfig \<Rightarrow> step_label \<Rightarrow> exec_key \<Rightarrow> bool" where
  "allow_label cfg l k \<longleftrightarrow> (\<exists>ev. ExecKey ev = k \<and> e_hash_available ev \<noteq> 0
     \<and> ((\<exists>v. l = Decided ev v \<and> ve_Tier v \<noteq> 1 \<and> ve_Action v \<in> {ActionAllow, ActionAIQueue})
        \<or> (\<exists>r. l = Analysed ev (Inr r) \<and> Evaluate (ar_Verdict r) (pc_RiskThreshold cfg) = AI_Allow)))"

text \<open>The engine is promoting the chain of an event no rule decides, before it routes it.\<close>

fun engine_promotes :: "engine_pc \<Rightarrow> exec_key \<Rightarrow> bool" where
  "engine_promotes (Acting env ev v acts) k \<longleftrightarrow>
     ExecKey ev = k \<and> e_hash_available ev \<noteq> 0 \<and> (\<exists>a \<in> set acts. is_route a)"
| "engine_promotes _ k \<longleftrightarrow> False"

fun engine_allows :: "engine_pc \<Rightarrow> exec_key \<Rightarrow> bool" where
  "engine_allows (Acting env ev v acts) k \<longleftrightarrow> World (Write_Allow k) \<in> set acts"
| "engine_allows _ k \<longleftrightarrow> False"

fun job_allows :: "worker_job \<Rightarrow> exec_key \<Rightarrow> bool" where
  "job_allows (Answered ev outcome acts) k \<longleftrightarrow> Write_Allow k \<in> set acts"
| "job_allows _ k \<longleftrightarrow> False"

text \<open>The chain is not blocked, or some goroutine has it still to allow.\<close>

definition letting :: "'p threads \<Rightarrow> exec_key \<Rightarrow> bool" where
  "letting t k \<longleftrightarrow> \<not> blocked (th_sys t) k \<or> engine_allows (th_engine t) k
     \<or> (\<exists>j \<in> set (th_jobs t). job_allows j k)"

fun tier_ok :: "engine_pc \<Rightarrow> bool" where
  "tier_ok (Acting env ev v acts) \<longleftrightarrow> ve_Tier v \<noteq> 1"
| "tier_ok _ \<longleftrightarrow> True"

lemma judge_tier: "judge cel env ev en = (v, acts) \<Longrightarrow> ve_Tier v \<noteq> 1"
  by (auto simp: judge_def Let_def case_prod_unfold split: option.splits if_splits)

lemma judge_allows:
  assumes "judge cel env ev en = (v, acts)" "World (Write_Allow k) \<in> set acts"
  shows "ExecKey ev = k \<and> e_hash_available ev \<noteq> 0
    \<and> ((\<exists>a \<in> set acts. is_route a) \<or> judged_label ev v = Decided ev v \<and> ve_Action v = ActionAllow)"
  using assms
  by (auto simp: judge_def Let_def case_prod_unfold enforce_acts_def promote_acts_def judged_label_def
      split: option.splits if_splits)

lemma Evaluate_allow: "Evaluate v threshold \<noteq> AI_Block \<longleftrightarrow> Evaluate v threshold = AI_Allow"
  by (simp add: Evaluate_def)

lemma answer_allows:
  "Write_Allow k \<in> set (answer_acts wp ev outcome) \<Longrightarrow> \<exists>r. outcome = Inr r
     \<and> Evaluate (ar_Verdict r) (pc_RiskThreshold (wp_config wp)) = AI_Allow \<and> ExecKey ev = k \<and> e_hash_available ev \<noteq> 0"
  by (auto simp: answer_acts_def executeBlock_acts_def Evaluate_allow split: sum.splits if_splits)

lemma do_world_open:
  "bpf_map_lookup_elem (verdict_map (dm_maps dm)) k = Some VERDICT_BLOCK \<Longrightarrow>
   bpf_map_lookup_elem (verdict_map (dm_maps (do_world ok a dm))) k \<noteq> Some VERDICT_BLOCK \<Longrightarrow> a = Write_Allow k"
  by (cases a) (auto simp: keep_on_error_def BlockExec_verdict AllowExec_verdict split: sum.splits if_splits)

lemma engine_step_tier: "engine_step cel t l t' \<Longrightarrow> tier_ok (th_engine t) \<Longrightarrow> tier_ok (th_engine t')"
proof (induction rule: engine_step.induct)
  case (match_rules t env ev v acts)
  then show ?case using judge_tier by simp
next
  case (act t env ev v a acts v' en dm)
  then show ?case using do_engine_parts(6,7) [OF act.hyps(2)] by (cases "is_route a") auto
qed simp_all

text \<open>
  A step after which a chain is let through is an ALLOW, or the engine is about to allow it, or
  it was let through before for the same reason.
\<close>

lemma engine_step_letting:
  assumes "engine_step cel t l t'" "thread_inv n t" "tier_ok (th_engine t)" "letting t' k"
  shows "allow_label cfg l k \<or> engine_promotes (th_engine t') k
    \<or> letting t k \<and> \<not> engine_promotes (th_engine t) k"
  using assms
proof (induction rule: engine_step.induct)
  case (match_rules t env ev v acts)
  then show ?case
    using judge_allows [OF match_rules.hyps(2), of k] judge_tier [OF match_rules.hyps(2)]
    by (auto simp: letting_def allow_label_def)
next
  case (act t env ev v a acts v' en dm)
  note parts = do_engine_parts [OF act.hyps(2)]
  show ?case
  proof (cases a)
    case (World w)
    then have "bpf_map_lookup_elem (verdict_map (dm_maps dm)) k \<noteq> Some VERDICT_BLOCK \<Longrightarrow>
        blocked (th_sys t) k \<Longrightarrow> w = Write_Allow k"
      using parts(3) [OF World] do_world_open by (auto simp: blocked_daemon)
    then show ?thesis
      using act.hyps(1) act.prems(3) World by (auto simp: letting_def blocked_daemon sy_daemon_def)
  next
    case (Route ev')
    have "routes_last (a # acts)" using act.hyps(1) act.prems(1) by (simp add: thread_inv_def)
    then have "acts = []" using Route by (cases acts) (auto simp: routes_last_def)
    moreover have "allow_label cfg (act_label ev v' a) k" if "ExecKey ev = k" "e_hash_available ev \<noteq> 0"
      using that Route parts(7) act.hyps(1) act.prems(2) by (auto simp: allow_label_def act_label_def)
    ultimately show ?thesis
      using act.hyps(1) act.prems(3) Route parts(4) by (auto simp: letting_def blocked_daemon sy_daemon_def)
  next
    case (Remember key)
    then show ?thesis
      using act.hyps(1) act.prems(3) parts(4) by (auto simp: letting_def blocked_daemon sy_daemon_def)
  qed
qed (auto simp: letting_def blocked_daemon sy_daemon_def)

lemma job_step_letting:
  assumes "job_step i t l t'" "sys_cfg (th_sys t) = cfg" "letting t' k"
  shows "allow_label cfg l k \<or> letting t k"
  using assms
proof (induction rule: job_step.induct)
  case (take_event t ev rest)
  then show ?case
    by (auto simp: letting_def blocked_daemon sy_daemon_def set_pool_def set_daemon_def dest!: jobs_update)
next
  case (answer t ev outcome)
  then show ?case
    using answer_allows [of k "ps_pool (sy_pool (th_sys t))" ev outcome]
    by (auto simp: letting_def allow_label_def sys_cfg_def dest!: jobs_update)
next
  case (carry_out t ev outcome a acts sys_ok)
  have "th_jobs t ! i \<in> set (th_jobs t)" using carry_out.hyps(1) by simp
  then show ?case
    using carry_out.hyps(2) carry_out.prems(2) do_world_open [of "sy_daemon (th_sys t)" k sys_ok a]
    by (fastforce simp: letting_def blocked_daemon dest!: jobs_update)
next
  case (job_done t ev outcome)
  then show ?case
    by (auto simp: letting_def blocked_daemon sy_daemon_def set_pool_def dest!: jobs_update)
qed (auto simp: letting_def blocked_daemon sy_daemon_def)

lemma job_step_engine: "job_step i t l t' \<Longrightarrow> th_engine t' = th_engine t"
  by (induction rule: job_step.induct) simp_all

lemma around_step_letting:
  assumes "around_step cel unm n t l t'"
  shows "th_engine t' = th_engine t \<and> (letting t' k \<longleftrightarrow> letting t k)"
  using assms
proof (induction rule: around_step.induct)
  case (kernel_op op t)
  then show ?case by (simp add: letting_def blocked_def kernel_keeps_verdicts)
qed (simp_all add: letting_def blocked_def sy_maps_def sy_daemon_def)

lemma thread_step_letting:
  assumes "thread_step cel unm n t l t'" "thread_inv n t" "tier_ok (th_engine t)" "sys_cfg (th_sys t) = cfg"
  shows "tier_ok (th_engine t')"
    "letting t' k \<Longrightarrow> allow_label cfg l k \<or> engine_promotes (th_engine t') k
       \<or> letting t k \<and> \<not> engine_promotes (th_engine t) k"
proof -
  show "tier_ok (th_engine t')"
    using assms(1,3) engine_step_tier job_step_engine around_step_letting
    unfolding thread_step_def daemon_step_def by metis
  show "letting t' k \<Longrightarrow> allow_label cfg l k \<or> engine_promotes (th_engine t') k
       \<or> letting t k \<and> \<not> engine_promotes (th_engine t) k"
    using assms engine_step_letting [of cel t l t' n k cfg] job_step_letting [of _ t l t' cfg k]
      job_step_engine [of _ t l t'] around_step_letting [of cel unm n t l t' k]
    unfolding thread_step_def daemon_step_def by metis
qed

section \<open>The duration of a denial\<close>

text \<open>
  C5: a denial lasts: from any state of the daemon at rest in which an exec chain is blocked,
  through every interleaving of the goroutines and the kernel, every execution of the chain is
  denied until a rule, or no rule, lets an event of the chain through, the AI allows one, or the
  engine is about to promote one that no rule decides.
\<close>
theorem denial_lasts:
  assumes "thread_run cel unm n (at_rest s0) ls t" "sys_inv n s0" "blocked s0 k"
    and "\<forall>l \<in> set ls. \<not> allow_label (sys_cfg s0) l k" "\<not> engine_promotes (th_engine t) k"
    and "hash_available env bprm" "chain_key env bprm (th_maps t) = k"
  shows "fst (zask_bprm_check env bprm (th_maps t)) = - EPERM"
proof -
  have "thread_conf n (sys_mode s0) (sys_cfg s0) (at_rest s0)"
    using at_rest_inv [OF assms(2)] by (simp add: thread_conf_def)
  note conf = verdicts.run_inv [OF _ this]
  have "tier_ok (th_engine t) \<and> (letting t k \<longrightarrow> (\<exists>l \<in> set ls. allow_label (sys_cfg s0) l k)
      \<or> engine_promotes (th_engine t) k)"
    using assms(1)
  proof (induction rule: labelled_run.induct)
    case start
    have "\<not> letting (at_rest s0) k" using assms(3) by (simp add: letting_def) (simp add: at_rest_def)
    then show ?case by simp
  next
    case (step ls t l t')
    have "thread_inv n t" "sys_cfg (th_sys t) = sys_cfg s0"
      using conf [OF step.hyps(1)] by (simp_all add: thread_conf_def)
    note step' = thread_step_letting [OF step.hyps(2) this(1) _ this(2)]
    show ?case using step'(1) step'(2) [of k] step.IH by auto
  qed
  then have "blocked (th_sys t) k" using assms(4,5) by (auto simp: letting_def)
  then show ?thesis using assms(6,7) by (simp add: bprm_check_ret blocked_def th_maps_def)
qed

theorem denial_lasts_witness:
  "\<exists>s t. blocked s (sc_key 1 2)
     \<and> thread_run sc_cel (\<lambda>_::unit. None) 1 (at_rest s) [Kernel (Exec (sc_exec 20 7 3) sc_bprm)] t
     \<and> fst (zask_bprm_check (sc_exec 12 10 2) sc_bprm (th_maps t)) = - EPERM"
proof (rule sc_threads_run [of "''lockdown''"])
  fix ls ev v s
  assume run0: "thread_run sc_cel (\<lambda>_::unit. None) 1 (at_rest (sc_system ''lockdown'')) ls (at_rest s)"
    and parent: "bpf_map_lookup_elem (pid_hash_map (sy_maps s)) 10 = Some (sc_hash 1)"
    and b: "(''lockdown'' :: string) \<noteq> ModeMonitor \<Longrightarrow> blocked s (sc_key 1 2)"
  let ?op = "Exec (sc_exec 20 7 3) sc_bprm"
  let ?t = "(at_rest s)\<lparr>th_sys := set_maps (kstep ?op (sy_maps s)) s\<rparr>"
  have blocked: "blocked s (sc_key 1 2)" using b by (simp add: ModeMonitor_def)
  have "thread_inv 1 (at_rest s)"
    using threads.run_inv [OF run0 at_rest_inv [OF sys_start_inv [OF sc_system_start]]] .
  then have inv: "sys_inv 1 s" by (simp add: thread_inv_def)
  have "thread_step sc_cel (\<lambda>_::unit. None) 1 (at_rest s) (Kernel ?op) ?t"
    using around_step.kernel_op [of ?op 1 sc_cel "\<lambda>_::unit. None" "at_rest s"] by (simp add: thread_step_def)
  note run = thread_run_one [OF this]
  have maps: "th_maps ?t = snd (zask_bprm_check (sc_exec 20 7 3) sc_bprm (sy_maps s))" by (simp add: th_maps_def)
  have "chain_key (sc_exec 12 10 2) sc_bprm (th_maps ?t) = sc_key 1 2"
    unfolding maps
    by (rule sc_chain_key_known) (use parent in \<open>simp add: bprm_check_pid_hash_map pid_update_def bpf_lru_update_def
        bpf_lru_evict_def bpf_hash_update_def Let_def bpf_map_lookup_elem_def update_conv'\<close>)
  then have "fst (zask_bprm_check (sc_exec 12 10 2) sc_bprm (th_maps ?t)) = - EPERM"
    by (intro denial_lasts [OF run inv blocked]) (simp_all add: allow_label_def)
  then show ?thesis using blocked run by blast
qed

end
