(* ===== verification/Bpf_Headers.thy ===== *)
theory Bpf_Headers
  imports Zask_Prelude
begin

text \<open>
  The macros of the headers under \<open>bpf/headers/bpf\<close> that compute: the byte swaps of
  \<open>bpf_endian.h\<close>, the version number, argument counting and array filling of
  \<open>bpf_helpers.h\<close>, and the enumerations of \<open>common.h\<close> and \<open>vmlinux.h\<close>.
\<close>

section \<open>bpf_endian.h\<close>

text \<open>
  Byte \<open>n\<close> of \<open>x\<close> moved to byte \<open>m\<close>. The shifts of a \<open>__u16\<close> are done in \<open>int\<close>, so nothing
  is shifted out before the final cast.
\<close>

definition mvb :: "nat \<Rightarrow> 'a::len word \<Rightarrow> nat \<Rightarrow> nat \<Rightarrow> 'a word" where
  "mvb b x n m = push_bit (m * 8) (drop_bit (b - 8) (push_bit (b - (n + 1) * 8) x))"

definition swab16 :: "u16 \<Rightarrow> u16" where
  "swab16 x = ucast (mvb 16 (ucast x :: 32 word) 0 1 OR mvb 16 (ucast x :: 32 word) 1 0)"

definition swab32 :: "u32 \<Rightarrow> u32" where
  "swab32 x = mvb 32 x 0 3 OR mvb 32 x 1 2 OR mvb 32 x 2 1 OR mvb 32 x 3 0"

definition swab64 :: "u64 \<Rightarrow> u64" where
  "swab64 x = mvb 64 x 0 7 OR mvb 64 x 1 6 OR mvb 64 x 2 5 OR mvb 64 x 3 4 OR
     mvb 64 x 4 3 OR mvb 64 x 5 2 OR mvb 64 x 6 1 OR mvb 64 x 7 0"

text \<open>The compiler's \<open>__builtin_bswap\<close>: the bytes in the other order.\<close>

definition builtin_bswap :: "nat \<Rightarrow> 'a::len word \<Rightarrow> 'a word" where
  "builtin_bswap n x = le_decode (rev (le_encode n x))"

text \<open>
  The conversions: on a little-endian target the constant or the compiler's swap, on a
  big-endian one the identity.
\<close>

definition bpf_htons :: "bool \<Rightarrow> bool \<Rightarrow> u16 \<Rightarrow> u16" where
  "bpf_htons little constant x =
     (if little then (if constant then swab16 x else builtin_bswap 2 x) else x)"

definition bpf_ntohs :: "bool \<Rightarrow> bool \<Rightarrow> u16 \<Rightarrow> u16" where
  "bpf_ntohs little constant x =
     (if little then (if constant then swab16 x else builtin_bswap 2 x) else x)"

definition bpf_htonl :: "bool \<Rightarrow> bool \<Rightarrow> u32 \<Rightarrow> u32" where
  "bpf_htonl little constant x =
     (if little then (if constant then swab32 x else builtin_bswap 4 x) else x)"

definition bpf_ntohl :: "bool \<Rightarrow> bool \<Rightarrow> u32 \<Rightarrow> u32" where
  "bpf_ntohl little constant x =
     (if little then (if constant then swab32 x else builtin_bswap 4 x) else x)"

definition bpf_cpu_to_be64 :: "bool \<Rightarrow> bool \<Rightarrow> u64 \<Rightarrow> u64" where
  "bpf_cpu_to_be64 little constant x =
     (if little then (if constant then swab64 x else builtin_bswap 8 x) else x)"

definition bpf_be64_to_cpu :: "bool \<Rightarrow> bool \<Rightarrow> u64 \<Rightarrow> u64" where
  "bpf_be64_to_cpu little constant x =
     (if little then (if constant then swab64 x else builtin_bswap 8 x) else x)"

section \<open>bpf_helpers.h\<close>

definition KERNEL_VERSION :: "int \<Rightarrow> int \<Rightarrow> int \<Rightarrow> int" where
  "KERNEL_VERSION a b c = push_bit 16 a + push_bit 8 b + (if c > 255 then 255 else c)"

definition container_of :: "u64 \<Rightarrow> u64 \<Rightarrow> u64" where
  "container_of p offset = p - offset"

text \<open>\<open>___bpf_nth\<close> has thirteen named parameters before \<open>N\<close>.\<close>

definition bpf_nth :: "'a list \<Rightarrow> 'a" where
  "bpf_nth xs = xs ! 13"

definition bpf_narg :: "'a list \<Rightarrow> 'a option + nat" where
  "bpf_narg va = bpf_nth (Inl None # map (Inl \<circ> Some) va @ map Inr (rev [0..<13]))"

fun bpf_fill_n :: "nat \<Rightarrow> u64 list \<Rightarrow> nat \<Rightarrow> u64 list \<Rightarrow> u64 list" where
  "bpf_fill_n 0 arr p args = arr"
| "bpf_fill_n (Suc n) arr p (x # args) = bpf_fill_n n (arr[p := x]) (p + 1) args"
| "bpf_fill_n (Suc n) arr p [] = arr"

definition bpf_fill :: "u64 list \<Rightarrow> u64 list \<Rightarrow> u64 list option" where
  "bpf_fill arr args =
     (case bpf_narg args of Inr n \<Rightarrow> Some (bpf_fill_n n arr 0 args) | Inl _ \<Rightarrow> None)"

text \<open>
  The array of parameters that \<open>BPF_SEQ_PRINTF\<close>, \<open>BPF_SNPRINTF\<close> and \<open>__bpf_vprintk\<close> pass: it
  has \<open>___bpf_narg\<close> cells, whose content \<open>junk\<close> is not initialised.
\<close>

definition bpf_params :: "u64 list \<Rightarrow> u64 list \<Rightarrow> u64 list option" where
  "bpf_params junk args =
     (case bpf_narg args of Inr n \<Rightarrow> bpf_fill (take n junk) args | Inl _ \<Rightarrow> None)"

text \<open>
  A call of a helper as the macros generate it: its number and its arguments, which are
  numbers, the format or the array.
\<close>

datatype helper_arg = Number u64 | Format string | Params "u64 list"

type_synonym helper_call = "nat \<times> helper_arg list"

definition sizeof_fmt :: "string \<Rightarrow> helper_arg" where
  "sizeof_fmt fmt = Number (of_nat (length fmt + 1))"

definition sizeof_params :: "u64 list \<Rightarrow> helper_arg" where
  "sizeof_params ps = Number (of_nat (8 * length ps))"

definition BPF_SEQ_PRINTF :: "u64 list \<Rightarrow> u64 \<Rightarrow> string \<Rightarrow> u64 list \<Rightarrow> helper_call option" where
  "BPF_SEQ_PRINTF junk seq fmt args = map_option
     (\<lambda>ps. (126, [Number seq, Format fmt, sizeof_fmt fmt, Params ps, sizeof_params ps]))
     (bpf_params junk args)"

definition BPF_SNPRINTF :: "u64 list \<Rightarrow> u64 \<Rightarrow> u64 \<Rightarrow> string \<Rightarrow> u64 list \<Rightarrow> helper_call option" where
  "BPF_SNPRINTF junk out out_size fmt args = map_option
     (\<lambda>ps. (165, [Number out, Number out_size, Format fmt, Params ps, sizeof_params ps]))
     (bpf_params junk args)"

definition bpf_trace_printk_call :: "string \<Rightarrow> u64 list \<Rightarrow> helper_call" where
  "bpf_trace_printk_call fmt args = (6, Format fmt # sizeof_fmt fmt # map Number args)"

definition bpf_vprintk :: "u64 list \<Rightarrow> string \<Rightarrow> u64 list \<Rightarrow> helper_call option" where
  "bpf_vprintk junk fmt args = map_option
     (\<lambda>ps. (177, [Format fmt, sizeof_fmt fmt, Params ps, sizeof_params ps])) (bpf_params junk args)"

datatype printk = Printk | Vprintk

definition bpf_pick_printk :: "'a list \<Rightarrow> 'a option + printk" where
  "bpf_pick_printk va =
     bpf_nth (Inl None # map (Inl \<circ> Some) va
       @ map Inr (replicate 9 Vprintk @ replicate 4 Printk))"

text \<open>An argument in the place of the macro's name does not compile.\<close>

definition bpf_printk :: "u64 list \<Rightarrow> string \<Rightarrow> u64 list \<Rightarrow> helper_call option" where
  "bpf_printk junk fmt args =
     (case bpf_pick_printk args of
        Inl _ \<Rightarrow> None
      | Inr Printk \<Rightarrow> Some (bpf_trace_printk_call fmt args)
      | Inr Vprintk \<Rightarrow> bpf_vprintk junk fmt args)"

text \<open>A slot that is not a constant leaves a trap in the program, which does not compile.\<close>

definition bpf_tail_call_static :: "bool \<Rightarrow> u64 \<Rightarrow> u64 \<Rightarrow> u32 \<Rightarrow> helper_call option" where
  "bpf_tail_call_static constant_slot ctx mp slot =
     (if \<not> constant_slot then None
      else Some (12, [Number ctx, Number mp, Number (ucast slot)]))"

record bpf_map_def =
  md_type :: u32
  md_key_size :: u32
  md_value_size :: u32
  md_max_entries :: u32
  md_map_flags :: u32

definition libbpf_pin_type :: "(string \<times> nat) list" where
  "libbpf_pin_type = [(''LIBBPF_PIN_NONE'', 0), (''LIBBPF_PIN_BY_NAME'', 1)]"

definition libbpf_tristate :: "(string \<times> nat) list" where
  "libbpf_tristate = [(''TRI_NO'', 0), (''TRI_YES'', 1), (''TRI_MODULE'', 2)]"

section \<open>Structures and enumerations\<close>

text \<open>The structures of \<open>common.h\<close>; the two halves of the first byte of \<open>iphdr\<close> are numbers.\<close>

record xdp_md =
  xm_data :: u32
  xm_data_end :: u32
  xm_data_meta :: u32
  xm_ingress_ifindex :: u32
  xm_rx_queue_index :: u32
  xm_egress_ifindex :: u32

record ethhdr =
  h_dest :: "u8 list"
  h_source :: "u8 list"
  h_proto :: u16

record iphdr =
  ip_ihl :: nat
  ip_version :: nat
  ip_tos :: u8
  ip_tot_len :: u16
  ip_id :: u16
  ip_frag_off :: u16
  ip_ttl :: u8
  ip_protocol :: u8
  ip_check :: u16
  ip_saddr :: u32
  ip_daddr :: u32

definition ETH_P_IP :: u16 where "ETH_P_IP = 0x0800"
definition BPF_F_INDEX_MASK :: u64 where "BPF_F_INDEX_MASK = 0xffffffff"
definition BPF_F_CURRENT_CPU :: u64 where "BPF_F_CURRENT_CPU = BPF_F_INDEX_MASK"

definition bpf_map_type_common :: "(string \<times> nat) list" where
  "bpf_map_type_common =
     [(''BPF_MAP_TYPE_UNSPEC'', 0), (''BPF_MAP_TYPE_HASH'', 1), (''BPF_MAP_TYPE_ARRAY'', 2),
      (''BPF_MAP_TYPE_PROG_ARRAY'', 3), (''BPF_MAP_TYPE_PERF_EVENT_ARRAY'', 4),
      (''BPF_MAP_TYPE_PERCPU_HASH'', 5), (''BPF_MAP_TYPE_PERCPU_ARRAY'', 6),
      (''BPF_MAP_TYPE_STACK_TRACE'', 7), (''BPF_MAP_TYPE_CGROUP_ARRAY'', 8),
      (''BPF_MAP_TYPE_LRU_HASH'', 9), (''BPF_MAP_TYPE_LRU_PERCPU_HASH'', 10),
      (''BPF_MAP_TYPE_LPM_TRIE'', 11), (''BPF_MAP_TYPE_ARRAY_OF_MAPS'', 12),
      (''BPF_MAP_TYPE_HASH_OF_MAPS'', 13), (''BPF_MAP_TYPE_DEVMAP'', 14),
      (''BPF_MAP_TYPE_SOCKMAP'', 15), (''BPF_MAP_TYPE_CPUMAP'', 16),
      (''BPF_MAP_TYPE_XSKMAP'', 17), (''BPF_MAP_TYPE_SOCKHASH'', 18),
      (''BPF_MAP_TYPE_CGROUP_STORAGE'', 19), (''BPF_MAP_TYPE_REUSEPORT_SOCKARRAY'', 20),
      (''BPF_MAP_TYPE_PERCPU_CGROUP_STORAGE'', 21), (''BPF_MAP_TYPE_QUEUE'', 22),
      (''BPF_MAP_TYPE_STACK'', 23), (''BPF_MAP_TYPE_SK_STORAGE'', 24),
      (''BPF_MAP_TYPE_DEVMAP_HASH'', 25), (''BPF_MAP_TYPE_STRUCT_OPS'', 26),
      (''BPF_MAP_TYPE_RINGBUF'', 27), (''BPF_MAP_TYPE_INODE_STORAGE'', 28)]"

definition bpf_map_type_vmlinux :: "(string \<times> nat) list" where
  "bpf_map_type_vmlinux =
     [(''BPF_MAP_TYPE_HASH'', 1), (''BPF_MAP_TYPE_ARRAY'', 2), (''BPF_MAP_TYPE_PERCPU_ARRAY'', 6),
      (''BPF_MAP_TYPE_PERF_EVENT_ARRAY'', 4), (''BPF_MAP_TYPE_LRU_HASH'', 9),
      (''BPF_MAP_TYPE_RINGBUF'', 27)]"

definition update_flags_common :: "(string \<times> nat) list" where
  "update_flags_common = [(''BPF_ANY'', 0), (''BPF_NOEXIST'', 1), (''BPF_EXIST'', 2), (''BPF_F_LOCK'', 4)]"

definition update_flags_vmlinux :: "(string \<times> nat) list" where
  "update_flags_vmlinux = [(''BPF_ANY'', 0), (''BPF_NOEXIST'', 1), (''BPF_EXIST'', 2), (''BPF_F_LOCK'', 4)]"

definition xdp_action :: "(string \<times> int) list" where
  "xdp_action = [(''XDP_ABORTED'', 0), (''XDP_DROP'', 1), (''XDP_PASS'', 2), (''XDP_TX'', 3),
     (''XDP_REDIRECT'', 4)]"

definition tc_action :: "(string \<times> int) list" where
  "tc_action = [(''TC_ACT_UNSPEC'', -1), (''TC_ACT_OK'', 0), (''TC_ACT_RECLASSIFY'', 1),
     (''TC_ACT_SHOT'', 2), (''TC_ACT_PIPE'', 3), (''TC_ACT_STOLEN'', 4), (''TC_ACT_QUEUED'', 5),
     (''TC_ACT_REPEAT'', 6), (''TC_ACT_REDIRECT'', 7), (''TC_ACT_JUMP'', 0x10000000)]"

text \<open>The registers of x86 in the order of \<open>struct pt_regs\<close> of \<open>common.h\<close>, eight bytes each.\<close>

definition pt_regs_x86 :: "string list" where
  "pt_regs_x86 = [''r15'', ''r14'', ''r13'', ''r12'', ''rbp'', ''rbx'', ''r11'', ''r10'', ''r9'',
     ''r8'', ''rax'', ''rcx'', ''rdx'', ''rsi'', ''rdi'', ''orig_rax'', ''rip'', ''cs'', ''eflags'',
     ''rsp'', ''ss'']"

section \<open>Lemmas\<close>

lemma le_decode_inj:
  fixes x y :: "'a::len word"
  assumes "le_encode n x = le_encode n y" "LENGTH('a) \<le> 8 * n"
  shows "x = y"
  by (metis assms le_decode_encode)

lemma bit_u16_high: "\<not> bit (x :: u16) (16 + n)"
  using bit_imp_le_length [of x "16 + n"] by auto

lemma swab16_bytes: "le_encode 2 (swab16 x) = rev (le_encode 2 x)"
  by (simp add: le_encode_def swab16_def mvb_def upt_rec)
    (auto intro!: bit_word_eqI simp: bit_simps bit_u16_high)

lemma swab32_bytes: "le_encode 4 (swab32 x) = rev (le_encode 4 x)"
  by (simp add: le_encode_def swab32_def mvb_def upt_rec)
    (auto intro!: bit_word_eqI simp: bit_simps)

lemma swab64_bytes: "le_encode 8 (swab64 x) = rev (le_encode 8 x)"
  by (simp add: le_encode_def swab64_def mvb_def upt_rec)
    (auto intro!: bit_word_eqI simp: bit_simps)

lemma builtin_bswap_bytes:
  fixes x :: "'a::len word"
  assumes "LENGTH('a) = 8 * n"
  shows "le_encode n (builtin_bswap n x) = rev (le_encode n x)"
  unfolding builtin_bswap_def using assms by (intro le_encode_decode) simp_all

lemma swab_builtin:
  "swab16 x = builtin_bswap 2 x" "swab32 y = builtin_bswap 4 y" "swab64 z = builtin_bswap 8 z"
proof -
  show "swab16 x = builtin_bswap 2 x"
    by (rule le_decode_inj [of 2]) (simp_all add: swab16_bytes builtin_bswap_bytes)
  show "swab32 y = builtin_bswap 4 y"
    by (rule le_decode_inj [of 4]) (simp_all add: swab32_bytes builtin_bswap_bytes)
  show "swab64 z = builtin_bswap 8 z"
    by (rule le_decode_inj [of 8]) (simp_all add: swab64_bytes builtin_bswap_bytes)
qed

lemma builtin_bswap_twice:
  fixes x :: "'a::len word"
  assumes "LENGTH('a) = 8 * n"
  shows "builtin_bswap n (builtin_bswap n x) = x"
  by (rule le_decode_inj [of n]) (simp_all add: assms builtin_bswap_bytes)

lemma bpf_nth_after:
  assumes "length va \<le> 12" "length xs = 13"
  shows "bpf_nth (y # va @ xs) = xs ! (12 - length va)"
  using assms by (simp add: bpf_nth_def nth_append)

lemma bpf_narg_length: "length va \<le> 12 \<Longrightarrow> bpf_narg va = Inr (length va)"
  by (simp add: bpf_narg_def bpf_nth_after rev_nth nth_append nth_Cons')

lemma bpf_fill_n_spec:
  "length args = n \<Longrightarrow> p + n \<le> length arr \<Longrightarrow>
     bpf_fill_n n arr p args = take p arr @ args @ drop (p + n) arr"
proof (induction n arbitrary: arr p args)
  case (Suc n)
  then obtain x rest where a: "args = x # rest" "length rest = n" by (cases args) auto
  have "take (Suc p) (arr[p := x]) = take p arr @ [x]"
    using Suc.prems by (simp add: take_Suc_conv_app_nth)
  then show ?case using Suc.prems a Suc.IH [of rest "p + 1" "arr[p := x]"] by simp
qed simp

lemma KERNEL_VERSION_sum: "KERNEL_VERSION a b c = a * 65536 + b * 256 + min c 255"
  by (simp add: KERNEL_VERSION_def push_bit_eq_mult min_def)

text \<open>The wrappers of \<open>printk\<close> pass exactly their arguments, up to twelve.\<close>

lemma bpf_params_exact:
  assumes "length args \<le> 12" "length args \<le> length junk"
  shows "bpf_params junk args = Some args"
  using assms by (simp add: bpf_params_def bpf_fill_def bpf_narg_length bpf_fill_n_spec)

lemma bpf_pick_printk_few:
  "length va \<le> 12 \<Longrightarrow> bpf_pick_printk va = Inr (if length va \<le> 3 then Printk else Vprintk)"
  by (auto simp: bpf_pick_printk_def bpf_nth_after nth_append)

text \<open>
  Whatever the number of its arguments, up to twelve, \<open>bpf_printk\<close> passes all of them with at
  most the five arguments of a call.
\<close>

lemma bpf_printk_call:
  assumes "length args \<le> 12" "length args \<le> length junk"
  shows "bpf_printk junk fmt args = Some
    (if length args \<le> 3 then (6, Format fmt # sizeof_fmt fmt # map Number args)
     else (177, [Format fmt, sizeof_fmt fmt, Params args, sizeof_params args]))"
  using assms
  by (simp add: bpf_printk_def bpf_pick_printk_few bpf_trace_printk_call_def bpf_vprintk_def
      bpf_params_exact)

lemma bpf_printk_five:
  assumes "length args \<le> 12" "length args \<le> length junk" "bpf_printk junk fmt args = Some (n, as)"
  shows "length as \<le> 5"
  using assms by (auto simp: bpf_printk_call split: if_splits)

text \<open>The enumerations of \<open>vmlinux.h\<close> are part of those of \<open>common.h\<close>, with the same values.\<close>

lemma enumerations_agree:
  "set bpf_map_type_vmlinux \<subseteq> set bpf_map_type_common" "update_flags_vmlinux = update_flags_common"
  by (simp_all add: bpf_map_type_vmlinux_def bpf_map_type_common_def update_flags_vmlinux_def
      update_flags_common_def)

text \<open>Versions compare as they should while the second number is a byte.\<close>

lemma KERNEL_VERSION_less:
  assumes "0 \<le> b" "b < 256" "0 \<le> b'" "b' < 256" "0 \<le> c" "0 \<le> c'" "a < a' \<or> (a = a' \<and> b < b')"
  shows "KERNEL_VERSION a b c < KERNEL_VERSION a' b' c'"
  using assms by (auto simp: KERNEL_VERSION_sum min_def)

end
