(* ===== verification/Bpf_Tracing.thy ===== *)
theory Bpf_Tracing
  imports Bpf_Headers Kernel_Hooks
begin

text \<open>
  \<open>bpf/headers/bpf/bpf_tracing.h\<close>: the choice of the target architecture, the registers of a
  call on each, and the macros that turn the raw context of a program into typed arguments
  (\<open>BPF_PROG\<close>, which declares two of the three hooks of \<open>zask.c\<close>, and the kprobe ones).
\<close>

section \<open>The target\<close>

datatype target = X86 | S390 | Arm | Arm64 | Mips | Powerpc | Sparc | Riscv

text \<open>\<open>def\<close> says which macros are defined; first the architecture asked for, then the compiler's.\<close>

definition bpf_target :: "(string \<Rightarrow> bool) \<Rightarrow> nat \<Rightarrow> target option" where
  "bpf_target def riscv_xlen =
     (if def ''__TARGET_ARCH_x86'' then Some X86
      else if def ''__TARGET_ARCH_s390'' then Some S390
      else if def ''__TARGET_ARCH_arm'' then Some Arm
      else if def ''__TARGET_ARCH_arm64'' then Some Arm64
      else if def ''__TARGET_ARCH_mips'' then Some Mips
      else if def ''__TARGET_ARCH_powerpc'' then Some Powerpc
      else if def ''__TARGET_ARCH_sparc'' then Some Sparc
      else if def ''__TARGET_ARCH_riscv'' then Some Riscv
      else if def ''__x86_64__'' then Some X86
      else if def ''__s390__'' then Some S390
      else if def ''__arm__'' then Some Arm
      else if def ''__aarch64__'' then Some Arm64
      else if def ''__mips__'' then Some Mips
      else if def ''__powerpc__'' then Some Powerpc
      else if def ''__sparc__'' then Some Sparc
      else if def ''__riscv'' \<and> riscv_xlen = 64 then Some Riscv
      else None)"

section \<open>Registers\<close>

datatype selector = Parm1 | Parm2 | Parm3 | Parm4 | Parm5 | Ret | FP | RC | SP | IP

datatype reg =
    Field string
  | Element string nat
  | Named string string
  | Constant_Zero

type_synonym reg_table = "(selector \<times> reg) list"

definition regs_x86_kernel :: reg_table where
  "regs_x86_kernel =
     [(Parm1, Field ''di''), (Parm2, Field ''si''), (Parm3, Field ''dx''),
      (Parm4, Field ''cx''), (Parm5, Field ''r8''), (Ret, Field ''sp''), (FP, Field ''bp''),
      (RC, Field ''ax''), (SP, Field ''sp''), (IP, Field ''ip'')]"

definition regs_x86_kernel_core :: reg_table where
  "regs_x86_kernel_core =
     [(Parm1, Field ''di''), (Parm2, Field ''si''), (Parm3, Field ''dx''),
      (Parm4, Field ''cx''), (Parm5, Field ''r8''), (Ret, Field ''sp''), (FP, Field ''bp''),
      (RC, Field ''ax''), (SP, Field ''sp''), (IP, Field ''ip'')]"

definition regs_x86_i386 :: reg_table where
  "regs_x86_i386 =
     [(Parm1, Field ''eax''), (Parm2, Field ''edx''), (Parm3, Field ''ecx''),
      (Parm4, Constant_Zero), (Parm5, Constant_Zero), (Ret, Field ''esp''),
      (FP, Field ''ebp''), (RC, Field ''eax''), (SP, Field ''esp''), (IP, Field ''eip'')]"

definition regs_x86_i386_core :: reg_table where
  "regs_x86_i386_core =
     [(Parm1, Field ''eax''), (Parm2, Field ''edx''), (Parm3, Field ''ecx''),
      (Parm4, Constant_Zero), (Parm5, Constant_Zero), (Ret, Field ''esp''),
      (FP, Field ''ebp''), (RC, Field ''eax''), (SP, Field ''esp''), (IP, Field ''eip'')]"

definition regs_x86_user :: reg_table where
  "regs_x86_user =
     [(Parm1, Field ''rdi''), (Parm2, Field ''rsi''), (Parm3, Field ''rdx''),
      (Parm4, Field ''rcx''), (Parm5, Field ''r8''), (Ret, Field ''rsp''), (FP, Field ''rbp''),
      (RC, Field ''rax''), (SP, Field ''rsp''), (IP, Field ''rip'')]"

definition regs_x86_user_core :: reg_table where
  "regs_x86_user_core =
     [(Parm1, Field ''rdi''), (Parm2, Field ''rsi''), (Parm3, Field ''rdx''),
      (Parm4, Field ''rcx''), (Parm5, Field ''r8''), (Ret, Field ''rsp''), (FP, Field ''rbp''),
      (RC, Field ''rax''), (SP, Field ''rsp''), (IP, Field ''rip'')]"

definition regs_s390 :: reg_table where
  "regs_s390 =
     [(Parm1, Element ''gprs'' 2), (Parm2, Element ''gprs'' 3), (Parm3, Element ''gprs'' 4),
      (Parm4, Element ''gprs'' 5), (Parm5, Element ''gprs'' 6), (Ret, Element ''gprs'' 14),
      (FP, Element ''gprs'' 11), (RC, Element ''gprs'' 2), (SP, Element ''gprs'' 15),
      (IP, Field ''psw.addr'')]"

definition regs_s390_core :: reg_table where
  "regs_s390_core =
     [(Parm1, Element ''gprs'' 2), (Parm2, Element ''gprs'' 3), (Parm3, Element ''gprs'' 4),
      (Parm4, Element ''gprs'' 5), (Parm5, Element ''gprs'' 6), (Ret, Element ''gprs'' 14),
      (FP, Element ''gprs'' 11), (RC, Element ''gprs'' 2), (SP, Element ''gprs'' 15),
      (IP, Field ''psw.addr'')]"

definition regs_arm :: reg_table where
  "regs_arm =
     [(Parm1, Element ''uregs'' 0), (Parm2, Element ''uregs'' 1), (Parm3, Element ''uregs'' 2),
      (Parm4, Element ''uregs'' 3), (Parm5, Element ''uregs'' 4), (Ret, Element ''uregs'' 14),
      (FP, Element ''uregs'' 11), (RC, Element ''uregs'' 0), (SP, Element ''uregs'' 13),
      (IP, Element ''uregs'' 12)]"

definition regs_arm_core :: reg_table where
  "regs_arm_core =
     [(Parm1, Element ''uregs'' 0), (Parm2, Element ''uregs'' 1), (Parm3, Element ''uregs'' 2),
      (Parm4, Element ''uregs'' 3), (Parm5, Element ''uregs'' 4), (Ret, Element ''uregs'' 14),
      (FP, Element ''uregs'' 11), (RC, Element ''uregs'' 0), (SP, Element ''uregs'' 13),
      (IP, Element ''uregs'' 12)]"

definition regs_arm64 :: reg_table where
  "regs_arm64 =
     [(Parm1, Element ''regs'' 0), (Parm2, Element ''regs'' 1), (Parm3, Element ''regs'' 2),
      (Parm4, Element ''regs'' 3), (Parm5, Element ''regs'' 4), (Ret, Element ''regs'' 30),
      (FP, Element ''regs'' 29), (RC, Element ''regs'' 0), (SP, Field ''sp''),
      (IP, Field ''pc'')]"

definition regs_arm64_core :: reg_table where
  "regs_arm64_core =
     [(Parm1, Element ''regs'' 0), (Parm2, Element ''regs'' 1), (Parm3, Element ''regs'' 2),
      (Parm4, Element ''regs'' 3), (Parm5, Element ''regs'' 4), (Ret, Element ''regs'' 30),
      (FP, Element ''regs'' 29), (RC, Element ''regs'' 0), (SP, Field ''sp''),
      (IP, Field ''pc'')]"

definition regs_mips :: reg_table where
  "regs_mips =
     [(Parm1, Element ''regs'' 4), (Parm2, Element ''regs'' 5), (Parm3, Element ''regs'' 6),
      (Parm4, Element ''regs'' 7), (Parm5, Element ''regs'' 8), (Ret, Element ''regs'' 31),
      (FP, Element ''regs'' 30), (RC, Element ''regs'' 2), (SP, Element ''regs'' 29),
      (IP, Field ''cp0_epc'')]"

definition regs_mips_core :: reg_table where
  "regs_mips_core =
     [(Parm1, Element ''regs'' 4), (Parm2, Element ''regs'' 5), (Parm3, Element ''regs'' 6),
      (Parm4, Element ''regs'' 7), (Parm5, Element ''regs'' 8), (Ret, Element ''regs'' 31),
      (FP, Element ''regs'' 30), (RC, Element ''regs'' 2), (SP, Element ''regs'' 29),
      (IP, Field ''cp0_epc'')]"

definition regs_powerpc :: reg_table where
  "regs_powerpc =
     [(Parm1, Element ''gpr'' 3), (Parm2, Element ''gpr'' 4), (Parm3, Element ''gpr'' 5),
      (Parm4, Element ''gpr'' 6), (Parm5, Element ''gpr'' 7), (RC, Element ''gpr'' 3),
      (SP, Field ''sp''), (IP, Field ''nip'')]"

definition regs_powerpc_core :: reg_table where
  "regs_powerpc_core =
     [(Parm1, Element ''gpr'' 3), (Parm2, Element ''gpr'' 4), (Parm3, Element ''gpr'' 5),
      (Parm4, Element ''gpr'' 6), (Parm5, Element ''gpr'' 7), (RC, Element ''gpr'' 3),
      (SP, Field ''sp''), (IP, Field ''nip'')]"

definition regs_sparc :: reg_table where
  "regs_sparc =
     [(Parm1, Named ''u_regs'' ''UREG_I0''), (Parm2, Named ''u_regs'' ''UREG_I1''),
      (Parm3, Named ''u_regs'' ''UREG_I2''), (Parm4, Named ''u_regs'' ''UREG_I3''),
      (Parm5, Named ''u_regs'' ''UREG_I4''), (Ret, Named ''u_regs'' ''UREG_I7''),
      (RC, Named ''u_regs'' ''UREG_I0''), (SP, Named ''u_regs'' ''UREG_FP'')]"

definition regs_sparc_core :: reg_table where
  "regs_sparc_core =
     [(Parm1, Named ''u_regs'' ''UREG_I0''), (Parm2, Named ''u_regs'' ''UREG_I1''),
      (Parm3, Named ''u_regs'' ''UREG_I2''), (Parm4, Named ''u_regs'' ''UREG_I3''),
      (Parm5, Named ''u_regs'' ''UREG_I4''), (Ret, Named ''u_regs'' ''UREG_I7''),
      (RC, Named ''u_regs'' ''UREG_I0''), (SP, Named ''u_regs'' ''UREG_FP'')]"

definition regs_riscv :: reg_table where
  "regs_riscv =
     [(Parm1, Field ''a0''), (Parm2, Field ''a1''), (Parm3, Field ''a2''),
      (Parm4, Field ''a3''), (Parm5, Field ''a4''), (Ret, Field ''ra''), (FP, Field ''s5''),
      (RC, Field ''a5''), (SP, Field ''sp''), (IP, Field ''epc'')]"

definition regs_riscv_core :: reg_table where
  "regs_riscv_core =
     [(Parm1, Field ''a0''), (Parm2, Field ''a1''), (Parm3, Field ''a2''),
      (Parm4, Field ''a3''), (Parm5, Field ''a4''), (Ret, Field ''ra''), (FP, Field ''fp''),
      (RC, Field ''a5''), (SP, Field ''sp''), (IP, Field ''epc'')]"

definition regs_sparc_ip :: "(string \<Rightarrow> bool) \<Rightarrow> reg_table" where
  "regs_sparc_ip def =
     (if def ''__arch64__'' then [(IP, Field ''tpc'')] else [(IP, Field ''pc'')])"

text \<open>Without a target every accessor is zero and a compile-time error.\<close>

definition regs_missing :: reg_table where
  "regs_missing = map (\<lambda>s. (s, Constant_Zero)) [Parm1, Parm2, Parm3, Parm4, Parm5, Ret, FP, RC, SP, IP]"

definition PT_REGS :: "(string \<Rightarrow> bool) \<Rightarrow> nat \<Rightarrow> selector \<Rightarrow> reg option" where
  "PT_REGS def xlen = map_of
     (case bpf_target def xlen of
        Some X86 \<Rightarrow>
          if def ''__KERNEL__'' \<or> def ''__VMLINUX_H__'' then regs_x86_kernel
          else if def ''__i386__'' then regs_x86_i386 else regs_x86_user
      | Some S390 \<Rightarrow> regs_s390 | Some Arm \<Rightarrow> regs_arm | Some Arm64 \<Rightarrow> regs_arm64
      | Some Mips \<Rightarrow> regs_mips | Some Powerpc \<Rightarrow> regs_powerpc
      | Some Sparc \<Rightarrow> regs_sparc @ regs_sparc_ip def
      | Some Riscv \<Rightarrow> regs_riscv | None \<Rightarrow> regs_missing)"

definition PT_REGS_CORE :: "(string \<Rightarrow> bool) \<Rightarrow> nat \<Rightarrow> selector \<Rightarrow> reg option" where
  "PT_REGS_CORE def xlen = map_of
     (case bpf_target def xlen of
        Some X86 \<Rightarrow>
          if def ''__KERNEL__'' \<or> def ''__VMLINUX_H__'' then regs_x86_kernel_core
          else if def ''__i386__'' then regs_x86_i386_core else regs_x86_user_core
      | Some S390 \<Rightarrow> regs_s390_core | Some Arm \<Rightarrow> regs_arm_core | Some Arm64 \<Rightarrow> regs_arm64_core
      | Some Mips \<Rightarrow> regs_mips_core | Some Powerpc \<Rightarrow> regs_powerpc_core
      | Some Sparc \<Rightarrow> regs_sparc_core @ regs_sparc_ip def
      | Some Riscv \<Rightarrow> regs_riscv_core | None \<Rightarrow> regs_missing)"

section \<open>Arguments of a program\<close>

text \<open>
  The expressions the macros generate: the context itself, an element of it, or one of its
  registers. \<open>n\<close> is \<open>___bpf_narg(args)\<close>.
\<close>

datatype ctx_expr = Ctx | Ctx_Elem nat | Ctx_Reg selector

fun ctx_cast :: "nat \<Rightarrow> ctx_expr list" where
  "ctx_cast 0 = [Ctx]"
| "ctx_cast (Suc n) = ctx_cast n @ [Ctx_Elem n]"

fun kprobe_args :: "nat \<Rightarrow> ctx_expr list option" where
  "kprobe_args n =
     (if n = 0 then Some [Ctx]
      else if n = 1 then Some [Ctx, Ctx_Reg Parm1]
      else if n = 2 then Some [Ctx, Ctx_Reg Parm1, Ctx_Reg Parm2]
      else if n = 3 then Some [Ctx, Ctx_Reg Parm1, Ctx_Reg Parm2, Ctx_Reg Parm3]
      else if n = 4 then Some [Ctx, Ctx_Reg Parm1, Ctx_Reg Parm2, Ctx_Reg Parm3, Ctx_Reg Parm4]
      else if n = 5 then Some [Ctx, Ctx_Reg Parm1, Ctx_Reg Parm2, Ctx_Reg Parm3, Ctx_Reg Parm4,
                               Ctx_Reg Parm5]
      else None)"

definition kretprobe_args :: "nat \<Rightarrow> ctx_expr list option" where
  "kretprobe_args n =
     (if n = 0 then Some [Ctx] else if n = 1 then Some [Ctx, Ctx_Reg RC] else None)"

text \<open>The typed arguments \<open>BPF_PROG\<close> passes on, from the array the context points to.\<close>

definition BPF_PROG_args :: "'a list \<Rightarrow> u64 list \<Rightarrow> u64 list option" where
  "BPF_PROG_args params ctx =
     (case bpf_narg params of
        Inl _ \<Rightarrow> None
      | Inr n \<Rightarrow> Some (map (\<lambda>e. case e of Ctx_Elem i \<Rightarrow> ctx ! i | _ \<Rightarrow> 0) (tl (ctx_cast n))))"

text \<open>The arguments of \<open>BPF_KPROBE\<close> and \<open>BPF_KRETPROBE\<close>: the context, then registers of it.\<close>

definition ctx_value :: "u64 \<Rightarrow> (selector \<Rightarrow> u64) \<Rightarrow> ctx_expr \<Rightarrow> u64" where
  "ctx_value ctx regs e = (case e of Ctx_Reg s \<Rightarrow> regs s | _ \<Rightarrow> ctx)"

definition BPF_KPROBE :: "'a list \<Rightarrow> u64 \<Rightarrow> (selector \<Rightarrow> u64) \<Rightarrow> u64 list option" where
  "BPF_KPROBE params ctx regs =
     (case bpf_narg params of
        Inl _ \<Rightarrow> None
      | Inr n \<Rightarrow> map_option (map (ctx_value ctx regs)) (kprobe_args n))"

definition BPF_KRETPROBE :: "'a list \<Rightarrow> u64 \<Rightarrow> (selector \<Rightarrow> u64) \<Rightarrow> u64 list option" where
  "BPF_KRETPROBE params ctx regs =
     (case bpf_narg params of
        Inl _ \<Rightarrow> None
      | Inr n \<Rightarrow> map_option (map (ctx_value ctx regs)) (kretprobe_args n))"

text \<open>
  Where the return address is: in a register, or in kernel memory some bytes behind the
  address in a register. \<open>size_ip\<close> is the size of the variable it is read into.
\<close>

datatype ret_ip = In_Register "reg option" | In_Memory "reg option" nat

definition BPF_KPROBE_READ_RET_IP :: "(string \<Rightarrow> bool) \<Rightarrow> nat \<Rightarrow> ret_ip option" where
  "BPF_KPROBE_READ_RET_IP def xlen =
     (case bpf_target def xlen of
        Some Powerpc \<Rightarrow> Some (In_Register (Some (Field ''link'')))
      | Some Sparc \<Rightarrow> Some (In_Register (PT_REGS def xlen Ret))
      | Some _ \<Rightarrow> Some (In_Memory (PT_REGS def xlen Ret) 0)
      | None \<Rightarrow> None)"

definition BPF_KRETPROBE_READ_RET_IP :: "(string \<Rightarrow> bool) \<Rightarrow> nat \<Rightarrow> nat \<Rightarrow> ret_ip option" where
  "BPF_KRETPROBE_READ_RET_IP def xlen size_ip =
     (case bpf_target def xlen of
        Some Powerpc \<Rightarrow> BPF_KPROBE_READ_RET_IP def xlen
      | Some Sparc \<Rightarrow> BPF_KPROBE_READ_RET_IP def xlen
      | Some _ \<Rightarrow> Some (In_Memory (PT_REGS def xlen FP) size_ip)
      | None \<Rightarrow> None)"

text \<open>
  The hook \<open>zask_task_kill\<close> as the kernel calls it: four parameters, the target, the signal
  information, the signal number (an \<open>int\<close>) and the credentials.
\<close>

definition task_kill_entry :: "kmem \<Rightarrow> u64 \<Rightarrow> u64 list \<Rightarrow> kmaps \<Rightarrow> int option" where
  "task_kill_entry km pid_tgid ctx st =
     (case BPF_PROG_args [''target'', ''info'', ''sig'', ''cred''] ctx of
        Some [target, info, sig, cred] \<Rightarrow> Some (zask_task_kill km pid_tgid target (ucast sig) st)
      | _ \<Rightarrow> None)"

section \<open>Lemmas\<close>

lemma ctx_cast_elems: "ctx_cast n = Ctx # map Ctx_Elem [0..<n]"
  by (induction n) auto

lemma BPF_PROG_args_eq:
  assumes "length params \<le> 12" "length params \<le> length ctx"
  shows "BPF_PROG_args params ctx = Some (take (length params) ctx)"
proof -
  have "map ((!) ctx) [0..<length params] = take (length params) ctx"
    using assms(2) by (intro nth_equalityI) auto
  then show ?thesis
    using assms(1) by (simp add: BPF_PROG_args_def bpf_narg_length ctx_cast_elems comp_def)
qed

lemma BPF_KPROBE_eq:
  assumes "length params \<le> 12"
  shows "BPF_KPROBE params ctx regs =
    (if length params \<le> 5
     then Some (ctx # map regs (take (length params) [Parm1, Parm2, Parm3, Parm4, Parm5])) else None)"
proof -
  consider "length params = 0" | "length params = 1" | "length params = 2" | "length params = 3"
    | "length params = 4" | "length params = 5" | "length params > 5"
    by linarith
  then show ?thesis
    using assms by cases (auto simp: BPF_KPROBE_def bpf_narg_length ctx_value_def)
qed

lemma BPF_KRETPROBE_eq:
  assumes "length params \<le> 12"
  shows "BPF_KRETPROBE params ctx regs =
    (if length params = 0 then Some [ctx] else if length params = 1 then Some [ctx, regs RC] else None)"
  using assms by (simp add: BPF_KRETPROBE_def bpf_narg_length kretprobe_args_def ctx_value_def)

lemmas reg_tables = regs_x86_kernel_def regs_x86_kernel_core_def regs_x86_i386_def
  regs_x86_i386_core_def regs_x86_user_def regs_x86_user_core_def regs_s390_def regs_s390_core_def
  regs_arm_def regs_arm_core_def regs_arm64_def regs_arm64_core_def regs_mips_def
  regs_mips_core_def regs_powerpc_def regs_powerpc_core_def regs_sparc_def regs_sparc_core_def

lemma core_tables_agree:
  "regs_x86_kernel_core = regs_x86_kernel" "regs_x86_i386_core = regs_x86_i386"
  "regs_x86_user_core = regs_x86_user" "regs_s390_core = regs_s390" "regs_arm_core = regs_arm"
  "regs_arm64_core = regs_arm64" "regs_mips_core = regs_mips" "regs_powerpc_core = regs_powerpc"
  "regs_sparc_core = regs_sparc"
  by (simp_all only: reg_tables)

lemma riscv_tables:
  "map_of regs_riscv_core s = (if s = FP then Some (Field ''fp'') else map_of regs_riscv s)"
  "map_of regs_riscv FP = Some (Field ''s5'')"
  by (cases s; simp add: regs_riscv_def regs_riscv_core_def)+

text \<open>Outside the kernel the registers of x86 are fields of \<open>struct pt_regs\<close> of \<open>common.h\<close>.\<close>

lemma x86_user_fields:
  "list_all (\<lambda>(s, r). case r of Field f \<Rightarrow> List.member pt_regs_x86 f | _ \<Rightarrow> False) regs_x86_user"
  by code_simp

end
