(* ===== verification/Helper_Table.thy ===== *)
theory Helper_Table
  imports Main
begin

text \<open>
  \<open>bpf/headers/bpf/bpf_helper_defs.h\<close>: the helpers of the kernel that a BPF program can call.
  Each is declared as a pointer to a function whose address is the number of the helper;
  the table holds every declaration: the number, the name, the type of the result, the
  parameters, the attribute \<open>bpf_fastcall\<close>, and whether the section "Returns" of its
  comment names NULL as a possible result.
\<close>

section \<open>Types\<close>

datatype ctype =
    Void | Char | C_int | Long | Unsigned_Long | U8 | U16 | U32 | U64 | S32 | S64
  | Be16 | Be32 | Wsum
  | Struct string
  | Const ctype
  | Ptr ctype
  | Variadic

record helper =
  h_id :: nat
  h_name :: string
  h_ret :: ctype
  h_params :: "(ctype \<times> string) list"
  h_fastcall :: bool
  h_null_doc :: bool

definition mk_helper :: "nat \<Rightarrow> string \<Rightarrow> ctype \<Rightarrow> (ctype \<times> string) list \<Rightarrow> bool \<Rightarrow> helper" where
  "mk_helper i n r ps nul = \<lparr>h_id = i, h_name = n, h_ret = r, h_params = ps, h_fastcall = False,
     h_null_doc = nul\<rparr>"

section \<open>Structs declared ahead\<close>

definition forward_structs :: "string list" where
  "forward_structs =
     [''bpf_fib_lookup'', ''bpf_sk_lookup'', ''bpf_perf_event_data'', ''bpf_perf_event_value'',
      ''bpf_pidns_info'', ''bpf_redir_neigh'', ''bpf_sock'', ''bpf_sock_addr'',
      ''bpf_sock_ops'', ''bpf_sock_tuple'', ''bpf_spin_lock'', ''bpf_sysctl'',
      ''bpf_tcp_sock'', ''bpf_tunnel_key'', ''bpf_xfrm_state'', ''linux_binprm'', ''pt_regs'',
      ''sk_reuseport_md'', ''sockaddr'', ''tcphdr'', ''seq_file'', ''tcp6_sock'', ''tcp_sock'',
      ''tcp_timewait_sock'', ''tcp_request_sock'', ''udp6_sock'', ''unix_sock'',
      ''task_struct'', ''cgroup'', ''__sk_buff'', ''sk_msg_md'', ''xdp_md'', ''path'',
      ''btf_ptr'', ''inode'', ''socket'', ''file'', ''bpf_timer'', ''mptcp_sock'',
      ''bpf_dynptr'', ''iphdr'', ''ipv6hdr'']"

section \<open>Declarations\<close>

definition helpers_1_7 :: "helper list" where
  "helpers_1_7 =
    [mk_helper 1 ''bpf_map_lookup_elem'' (Ptr Void)
       [(Ptr Void, ''map''), (Ptr (Const Void), ''key'')] True,
     mk_helper 2 ''bpf_map_update_elem'' Long
       [(Ptr Void, ''map''), (Ptr (Const Void), ''key''), (Ptr (Const Void), ''value''),
        (U64, ''flags'')] False,
     mk_helper 3 ''bpf_map_delete_elem'' Long
       [(Ptr Void, ''map''), (Ptr (Const Void), ''key'')] False,
     mk_helper 4 ''bpf_probe_read'' Long
       [(Ptr Void, ''dst''), (U32, ''size''), (Ptr (Const Void), ''unsafe_ptr'')] False,
     mk_helper 5 ''bpf_ktime_get_ns'' U64
       [] False,
     mk_helper 6 ''bpf_trace_printk'' Long
       [(Ptr (Const Char), ''fmt''), (U32, ''fmt_size''), (Variadic, '''')] False,
     mk_helper 7 ''bpf_get_prandom_u32'' U32
       [] False]"

definition helpers_8_12 :: "helper list" where
  "helpers_8_12 =
    [(mk_helper 8 ''bpf_get_smp_processor_id'' U32
       [] False)\<lparr>h_fastcall := True\<rparr>,
     mk_helper 9 ''bpf_skb_store_bytes'' Long
       [(Ptr (Struct ''__sk_buff''), ''skb''), (U32, ''offset''),
        (Ptr (Const Void), ''from''), (U32, ''len''), (U64, ''flags'')] False,
     mk_helper 10 ''bpf_l3_csum_replace'' Long
       [(Ptr (Struct ''__sk_buff''), ''skb''), (U32, ''offset''), (U64, ''from''),
        (U64, ''to''), (U64, ''size'')] False,
     mk_helper 11 ''bpf_l4_csum_replace'' Long
       [(Ptr (Struct ''__sk_buff''), ''skb''), (U32, ''offset''), (U64, ''from''),
        (U64, ''to''), (U64, ''flags'')] False,
     mk_helper 12 ''bpf_tail_call'' Long
       [(Ptr Void, ''ctx''), (Ptr Void, ''prog_array_map''), (U32, ''index'')] False]"

definition helpers_13_19 :: "helper list" where
  "helpers_13_19 =
    [mk_helper 13 ''bpf_clone_redirect'' Long
       [(Ptr (Struct ''__sk_buff''), ''skb''), (U32, ''ifindex''), (U64, ''flags'')] False,
     mk_helper 14 ''bpf_get_current_pid_tgid'' U64
       [] False,
     mk_helper 15 ''bpf_get_current_uid_gid'' U64
       [] False,
     mk_helper 16 ''bpf_get_current_comm'' Long
       [(Ptr Void, ''buf''), (U32, ''size_of_buf'')] False,
     mk_helper 17 ''bpf_get_cgroup_classid'' U32
       [(Ptr (Struct ''__sk_buff''), ''skb'')] False,
     mk_helper 18 ''bpf_skb_vlan_push'' Long
       [(Ptr (Struct ''__sk_buff''), ''skb''), (Be16, ''vlan_proto''), (U16, ''vlan_tci'')] False,
     mk_helper 19 ''bpf_skb_vlan_pop'' Long
       [(Ptr (Struct ''__sk_buff''), ''skb'')] False]"

definition helpers_20_22 :: "helper list" where
  "helpers_20_22 =
    [mk_helper 20 ''bpf_skb_get_tunnel_key'' Long
       [(Ptr (Struct ''__sk_buff''), ''skb''), (Ptr (Struct ''bpf_tunnel_key''), ''key''),
        (U32, ''size''), (U64, ''flags'')] False,
     mk_helper 21 ''bpf_skb_set_tunnel_key'' Long
       [(Ptr (Struct ''__sk_buff''), ''skb''), (Ptr (Struct ''bpf_tunnel_key''), ''key''),
        (U32, ''size''), (U64, ''flags'')] False,
     mk_helper 22 ''bpf_perf_event_read'' U64
       [(Ptr Void, ''map''), (U64, ''flags'')] False]"

definition helpers_23_26 :: "helper list" where
  "helpers_23_26 =
    [mk_helper 23 ''bpf_redirect'' Long
       [(U32, ''ifindex''), (U64, ''flags'')] False,
     mk_helper 24 ''bpf_get_route_realm'' U32
       [(Ptr (Struct ''__sk_buff''), ''skb'')] False,
     mk_helper 25 ''bpf_perf_event_output'' Long
       [(Ptr Void, ''ctx''), (Ptr Void, ''map''), (U64, ''flags''), (Ptr Void, ''data''),
        (U64, ''size'')] False,
     mk_helper 26 ''bpf_skb_load_bytes'' Long
       [(Ptr (Const Void), ''skb''), (U32, ''offset''), (Ptr Void, ''to''), (U32, ''len'')] False]"

definition helpers_27_31 :: "helper list" where
  "helpers_27_31 =
    [mk_helper 27 ''bpf_get_stackid'' Long
       [(Ptr Void, ''ctx''), (Ptr Void, ''map''), (U64, ''flags'')] False,
     mk_helper 28 ''bpf_csum_diff'' S64
       [(Ptr Be32, ''from''), (U32, ''from_size''), (Ptr Be32, ''to''), (U32, ''to_size''),
        (Wsum, ''seed'')] False,
     mk_helper 29 ''bpf_skb_get_tunnel_opt'' Long
       [(Ptr (Struct ''__sk_buff''), ''skb''), (Ptr Void, ''opt''), (U32, ''size'')] False,
     mk_helper 30 ''bpf_skb_set_tunnel_opt'' Long
       [(Ptr (Struct ''__sk_buff''), ''skb''), (Ptr Void, ''opt''), (U32, ''size'')] False,
     mk_helper 31 ''bpf_skb_change_proto'' Long
       [(Ptr (Struct ''__sk_buff''), ''skb''), (Be16, ''proto''), (U64, ''flags'')] False]"

definition helpers_32_38 :: "helper list" where
  "helpers_32_38 =
    [mk_helper 32 ''bpf_skb_change_type'' Long
       [(Ptr (Struct ''__sk_buff''), ''skb''), (U32, ''type'')] False,
     mk_helper 33 ''bpf_skb_under_cgroup'' Long
       [(Ptr (Struct ''__sk_buff''), ''skb''), (Ptr Void, ''map''), (U32, ''index'')] False,
     mk_helper 34 ''bpf_get_hash_recalc'' U32
       [(Ptr (Struct ''__sk_buff''), ''skb'')] False,
     mk_helper 35 ''bpf_get_current_task'' U64
       [] False,
     mk_helper 36 ''bpf_probe_write_user'' Long
       [(Ptr Void, ''dst''), (Ptr (Const Void), ''src''), (U32, ''len'')] False,
     mk_helper 37 ''bpf_current_task_under_cgroup'' Long
       [(Ptr Void, ''map''), (U32, ''index'')] False,
     mk_helper 38 ''bpf_skb_change_tail'' Long
       [(Ptr (Struct ''__sk_buff''), ''skb''), (U32, ''len''), (U64, ''flags'')] False]"

definition helpers_39_45 :: "helper list" where
  "helpers_39_45 =
    [mk_helper 39 ''bpf_skb_pull_data'' Long
       [(Ptr (Struct ''__sk_buff''), ''skb''), (U32, ''len'')] False,
     mk_helper 40 ''bpf_csum_update'' S64
       [(Ptr (Struct ''__sk_buff''), ''skb''), (Wsum, ''csum'')] False,
     mk_helper 41 ''bpf_set_hash_invalid'' Void
       [(Ptr (Struct ''__sk_buff''), ''skb'')] False,
     mk_helper 42 ''bpf_get_numa_node_id'' Long
       [] False,
     mk_helper 43 ''bpf_skb_change_head'' Long
       [(Ptr (Struct ''__sk_buff''), ''skb''), (U32, ''len''), (U64, ''flags'')] False,
     mk_helper 44 ''bpf_xdp_adjust_head'' Long
       [(Ptr (Struct ''xdp_md''), ''xdp_md''), (C_int, ''delta'')] False,
     mk_helper 45 ''bpf_probe_read_str'' Long
       [(Ptr Void, ''dst''), (U32, ''size''), (Ptr (Const Void), ''unsafe_ptr'')] False]"

definition helpers_46_50 :: "helper list" where
  "helpers_46_50 =
    [mk_helper 46 ''bpf_get_socket_cookie'' U64
       [(Ptr Void, ''ctx'')] False,
     mk_helper 47 ''bpf_get_socket_uid'' U32
       [(Ptr (Struct ''__sk_buff''), ''skb'')] True,
     mk_helper 48 ''bpf_set_hash'' Long
       [(Ptr (Struct ''__sk_buff''), ''skb''), (U32, ''hash'')] False,
     mk_helper 49 ''bpf_setsockopt'' Long
       [(Ptr Void, ''bpf_socket''), (C_int, ''level''), (C_int, ''optname''),
        (Ptr Void, ''optval''), (C_int, ''optlen'')] False,
     mk_helper 50 ''bpf_skb_adjust_room'' Long
       [(Ptr (Struct ''__sk_buff''), ''skb''), (S32, ''len_diff''), (U32, ''mode''),
        (U64, ''flags'')] False]"

definition helpers_51_54 :: "helper list" where
  "helpers_51_54 =
    [mk_helper 51 ''bpf_redirect_map'' Long
       [(Ptr Void, ''map''), (U64, ''key''), (U64, ''flags'')] False,
     mk_helper 52 ''bpf_sk_redirect_map'' Long
       [(Ptr (Struct ''__sk_buff''), ''skb''), (Ptr Void, ''map''), (U32, ''key''),
        (U64, ''flags'')] False,
     mk_helper 53 ''bpf_sock_map_update'' Long
       [(Ptr (Struct ''bpf_sock_ops''), ''skops''), (Ptr Void, ''map''),
        (Ptr Void, ''key''), (U64, ''flags'')] False,
     mk_helper 54 ''bpf_xdp_adjust_meta'' Long
       [(Ptr (Struct ''xdp_md''), ''xdp_md''), (C_int, ''delta'')] False]"

definition helpers_55_58 :: "helper list" where
  "helpers_55_58 =
    [mk_helper 55 ''bpf_perf_event_read_value'' Long
       [(Ptr Void, ''map''), (U64, ''flags''),
        (Ptr (Struct ''bpf_perf_event_value''), ''buf''), (U32, ''buf_size'')] False,
     mk_helper 56 ''bpf_perf_prog_read_value'' Long
       [(Ptr (Struct ''bpf_perf_event_data''), ''ctx''),
        (Ptr (Struct ''bpf_perf_event_value''), ''buf''), (U32, ''buf_size'')] False,
     mk_helper 57 ''bpf_getsockopt'' Long
       [(Ptr Void, ''bpf_socket''), (C_int, ''level''), (C_int, ''optname''),
        (Ptr Void, ''optval''), (C_int, ''optlen'')] False,
     mk_helper 58 ''bpf_override_return'' Long
       [(Ptr (Struct ''pt_regs''), ''regs''), (U64, ''rc'')] False]"

definition helpers_59_62 :: "helper list" where
  "helpers_59_62 =
    [mk_helper 59 ''bpf_sock_ops_cb_flags_set'' Long
       [(Ptr (Struct ''bpf_sock_ops''), ''bpf_sock''), (C_int, ''argval'')] False,
     mk_helper 60 ''bpf_msg_redirect_map'' Long
       [(Ptr (Struct ''sk_msg_md''), ''msg''), (Ptr Void, ''map''), (U32, ''key''),
        (U64, ''flags'')] False,
     mk_helper 61 ''bpf_msg_apply_bytes'' Long
       [(Ptr (Struct ''sk_msg_md''), ''msg''), (U32, ''bytes'')] False,
     mk_helper 62 ''bpf_msg_cork_bytes'' Long
       [(Ptr (Struct ''sk_msg_md''), ''msg''), (U32, ''bytes'')] False]"

definition helpers_63_67 :: "helper list" where
  "helpers_63_67 =
    [mk_helper 63 ''bpf_msg_pull_data'' Long
       [(Ptr (Struct ''sk_msg_md''), ''msg''), (U32, ''start''), (U32, ''end''),
        (U64, ''flags'')] False,
     mk_helper 64 ''bpf_bind'' Long
       [(Ptr (Struct ''bpf_sock_addr''), ''ctx''), (Ptr (Struct ''sockaddr''), ''addr''),
        (C_int, ''addr_len'')] False,
     mk_helper 65 ''bpf_xdp_adjust_tail'' Long
       [(Ptr (Struct ''xdp_md''), ''xdp_md''), (C_int, ''delta'')] False,
     mk_helper 66 ''bpf_skb_get_xfrm_state'' Long
       [(Ptr (Struct ''__sk_buff''), ''skb''), (U32, ''index''),
        (Ptr (Struct ''bpf_xfrm_state''), ''xfrm_state''), (U32, ''size''), (U64, ''flags'')] False,
     mk_helper 67 ''bpf_get_stack'' Long
       [(Ptr Void, ''ctx''), (Ptr Void, ''buf''), (U32, ''size''), (U64, ''flags'')] False]"

definition helpers_68_72 :: "helper list" where
  "helpers_68_72 =
    [mk_helper 68 ''bpf_skb_load_bytes_relative'' Long
       [(Ptr (Const Void), ''skb''), (U32, ''offset''), (Ptr Void, ''to''), (U32, ''len''),
        (U32, ''start_header'')] False,
     mk_helper 69 ''bpf_fib_lookup'' Long
       [(Ptr Void, ''ctx''), (Ptr (Struct ''bpf_fib_lookup''), ''params''),
        (C_int, ''plen''), (U32, ''flags'')] False,
     mk_helper 70 ''bpf_sock_hash_update'' Long
       [(Ptr (Struct ''bpf_sock_ops''), ''skops''), (Ptr Void, ''map''),
        (Ptr Void, ''key''), (U64, ''flags'')] False,
     mk_helper 71 ''bpf_msg_redirect_hash'' Long
       [(Ptr (Struct ''sk_msg_md''), ''msg''), (Ptr Void, ''map''), (Ptr Void, ''key''),
        (U64, ''flags'')] False,
     mk_helper 72 ''bpf_sk_redirect_hash'' Long
       [(Ptr (Struct ''__sk_buff''), ''skb''), (Ptr Void, ''map''), (Ptr Void, ''key''),
        (U64, ''flags'')] False]"

definition helpers_73_77 :: "helper list" where
  "helpers_73_77 =
    [mk_helper 73 ''bpf_lwt_push_encap'' Long
       [(Ptr (Struct ''__sk_buff''), ''skb''), (U32, ''type''), (Ptr Void, ''hdr''),
        (U32, ''len'')] False,
     mk_helper 74 ''bpf_lwt_seg6_store_bytes'' Long
       [(Ptr (Struct ''__sk_buff''), ''skb''), (U32, ''offset''),
        (Ptr (Const Void), ''from''), (U32, ''len'')] False,
     mk_helper 75 ''bpf_lwt_seg6_adjust_srh'' Long
       [(Ptr (Struct ''__sk_buff''), ''skb''), (U32, ''offset''), (S32, ''delta'')] False,
     mk_helper 76 ''bpf_lwt_seg6_action'' Long
       [(Ptr (Struct ''__sk_buff''), ''skb''), (U32, ''action''), (Ptr Void, ''param''),
        (U32, ''param_len'')] False,
     mk_helper 77 ''bpf_rc_repeat'' Long
       [(Ptr Void, ''ctx'')] False]"

definition helpers_78_83 :: "helper list" where
  "helpers_78_83 =
    [mk_helper 78 ''bpf_rc_keydown'' Long
       [(Ptr Void, ''ctx''), (U32, ''protocol''), (U64, ''scancode''), (U32, ''toggle'')] False,
     mk_helper 79 ''bpf_skb_cgroup_id'' U64
       [(Ptr (Struct ''__sk_buff''), ''skb'')] False,
     mk_helper 80 ''bpf_get_current_cgroup_id'' U64
       [] False,
     mk_helper 81 ''bpf_get_local_storage'' (Ptr Void)
       [(Ptr Void, ''map''), (U64, ''flags'')] False,
     mk_helper 82 ''bpf_sk_select_reuseport'' Long
       [(Ptr (Struct ''sk_reuseport_md''), ''reuse''), (Ptr Void, ''map''),
        (Ptr Void, ''key''), (U64, ''flags'')] False,
     mk_helper 83 ''bpf_skb_ancestor_cgroup_id'' U64
       [(Ptr (Struct ''__sk_buff''), ''skb''), (C_int, ''ancestor_level'')] False]"

definition helpers_84_90 :: "helper list" where
  "helpers_84_90 =
    [mk_helper 84 ''bpf_sk_lookup_tcp'' (Ptr (Struct ''bpf_sock''))
       [(Ptr Void, ''ctx''), (Ptr (Struct ''bpf_sock_tuple''), ''tuple''),
        (U32, ''tuple_size''), (U64, ''netns''), (U64, ''flags'')] True,
     mk_helper 85 ''bpf_sk_lookup_udp'' (Ptr (Struct ''bpf_sock''))
       [(Ptr Void, ''ctx''), (Ptr (Struct ''bpf_sock_tuple''), ''tuple''),
        (U32, ''tuple_size''), (U64, ''netns''), (U64, ''flags'')] True,
     mk_helper 86 ''bpf_sk_release'' Long
       [(Ptr Void, ''sock'')] False,
     mk_helper 87 ''bpf_map_push_elem'' Long
       [(Ptr Void, ''map''), (Ptr (Const Void), ''value''), (U64, ''flags'')] False,
     mk_helper 88 ''bpf_map_pop_elem'' Long
       [(Ptr Void, ''map''), (Ptr Void, ''value'')] False,
     mk_helper 89 ''bpf_map_peek_elem'' Long
       [(Ptr Void, ''map''), (Ptr Void, ''value'')] False,
     mk_helper 90 ''bpf_msg_push_data'' Long
       [(Ptr (Struct ''sk_msg_md''), ''msg''), (U32, ''start''), (U32, ''len''),
        (U64, ''flags'')] False]"

definition helpers_91_98 :: "helper list" where
  "helpers_91_98 =
    [mk_helper 91 ''bpf_msg_pop_data'' Long
       [(Ptr (Struct ''sk_msg_md''), ''msg''), (U32, ''start''), (U32, ''len''),
        (U64, ''flags'')] False,
     mk_helper 92 ''bpf_rc_pointer_rel'' Long
       [(Ptr Void, ''ctx''), (S32, ''rel_x''), (S32, ''rel_y'')] False,
     mk_helper 93 ''bpf_spin_lock'' Long
       [(Ptr (Struct ''bpf_spin_lock''), ''lock'')] False,
     mk_helper 94 ''bpf_spin_unlock'' Long
       [(Ptr (Struct ''bpf_spin_lock''), ''lock'')] False,
     mk_helper 95 ''bpf_sk_fullsock'' (Ptr (Struct ''bpf_sock''))
       [(Ptr (Struct ''bpf_sock''), ''sk'')] True,
     mk_helper 96 ''bpf_tcp_sock'' (Ptr (Struct ''bpf_tcp_sock''))
       [(Ptr (Struct ''bpf_sock''), ''sk'')] True,
     mk_helper 97 ''bpf_skb_ecn_set_ce'' Long
       [(Ptr (Struct ''__sk_buff''), ''skb'')] False,
     mk_helper 98 ''bpf_get_listener_sock'' (Ptr (Struct ''bpf_sock''))
       [(Ptr (Struct ''bpf_sock''), ''sk'')] True]"

definition helpers_99_104 :: "helper list" where
  "helpers_99_104 =
    [mk_helper 99 ''bpf_skc_lookup_tcp'' (Ptr (Struct ''bpf_sock''))
       [(Ptr Void, ''ctx''), (Ptr (Struct ''bpf_sock_tuple''), ''tuple''),
        (U32, ''tuple_size''), (U64, ''netns''), (U64, ''flags'')] True,
     mk_helper 100 ''bpf_tcp_check_syncookie'' Long
       [(Ptr Void, ''sk''), (Ptr Void, ''iph''), (U32, ''iph_len''),
        (Ptr (Struct ''tcphdr''), ''th''), (U32, ''th_len'')] False,
     mk_helper 101 ''bpf_sysctl_get_name'' Long
       [(Ptr (Struct ''bpf_sysctl''), ''ctx''), (Ptr Char, ''buf''),
        (Unsigned_Long, ''buf_len''), (U64, ''flags'')] False,
     mk_helper 102 ''bpf_sysctl_get_current_value'' Long
       [(Ptr (Struct ''bpf_sysctl''), ''ctx''), (Ptr Char, ''buf''),
        (Unsigned_Long, ''buf_len'')] False,
     mk_helper 103 ''bpf_sysctl_get_new_value'' Long
       [(Ptr (Struct ''bpf_sysctl''), ''ctx''), (Ptr Char, ''buf''),
        (Unsigned_Long, ''buf_len'')] False,
     mk_helper 104 ''bpf_sysctl_set_new_value'' Long
       [(Ptr (Struct ''bpf_sysctl''), ''ctx''), (Ptr (Const Char), ''buf''),
        (Unsigned_Long, ''buf_len'')] False]"

definition helpers_105_109 :: "helper list" where
  "helpers_105_109 =
    [mk_helper 105 ''bpf_strtol'' Long
       [(Ptr (Const Char), ''buf''), (Unsigned_Long, ''buf_len''), (U64, ''flags''),
        (Ptr Long, ''res'')] False,
     mk_helper 106 ''bpf_strtoul'' Long
       [(Ptr (Const Char), ''buf''), (Unsigned_Long, ''buf_len''), (U64, ''flags''),
        (Ptr Unsigned_Long, ''res'')] False,
     mk_helper 107 ''bpf_sk_storage_get'' (Ptr Void)
       [(Ptr Void, ''map''), (Ptr Void, ''sk''), (Ptr Void, ''value''), (U64, ''flags'')] True,
     mk_helper 108 ''bpf_sk_storage_delete'' Long
       [(Ptr Void, ''map''), (Ptr Void, ''sk'')] False,
     mk_helper 109 ''bpf_send_signal'' Long
       [(U32, ''sig'')] False]"

definition helpers_110_115 :: "helper list" where
  "helpers_110_115 =
    [mk_helper 110 ''bpf_tcp_gen_syncookie'' S64
       [(Ptr Void, ''sk''), (Ptr Void, ''iph''), (U32, ''iph_len''),
        (Ptr (Struct ''tcphdr''), ''th''), (U32, ''th_len'')] False,
     mk_helper 111 ''bpf_skb_output'' Long
       [(Ptr Void, ''ctx''), (Ptr Void, ''map''), (U64, ''flags''), (Ptr Void, ''data''),
        (U64, ''size'')] False,
     mk_helper 112 ''bpf_probe_read_user'' Long
       [(Ptr Void, ''dst''), (U32, ''size''), (Ptr (Const Void), ''unsafe_ptr'')] False,
     mk_helper 113 ''bpf_probe_read_kernel'' Long
       [(Ptr Void, ''dst''), (U32, ''size''), (Ptr (Const Void), ''unsafe_ptr'')] False,
     mk_helper 114 ''bpf_probe_read_user_str'' Long
       [(Ptr Void, ''dst''), (U32, ''size''), (Ptr (Const Void), ''unsafe_ptr'')] False,
     mk_helper 115 ''bpf_probe_read_kernel_str'' Long
       [(Ptr Void, ''dst''), (U32, ''size''), (Ptr (Const Void), ''unsafe_ptr'')] False]"

definition helpers_116_123 :: "helper list" where
  "helpers_116_123 =
    [mk_helper 116 ''bpf_tcp_send_ack'' Long
       [(Ptr Void, ''tp''), (U32, ''rcv_nxt'')] False,
     mk_helper 117 ''bpf_send_signal_thread'' Long
       [(U32, ''sig'')] False,
     mk_helper 118 ''bpf_jiffies64'' U64
       [] False,
     mk_helper 119 ''bpf_read_branch_records'' Long
       [(Ptr (Struct ''bpf_perf_event_data''), ''ctx''), (Ptr Void, ''buf''),
        (U32, ''size''), (U64, ''flags'')] True,
     mk_helper 120 ''bpf_get_ns_current_pid_tgid'' Long
       [(U64, ''dev''), (U64, ''ino''), (Ptr (Struct ''bpf_pidns_info''), ''nsdata''),
        (U32, ''size'')] False,
     mk_helper 121 ''bpf_xdp_output'' Long
       [(Ptr Void, ''ctx''), (Ptr Void, ''map''), (U64, ''flags''), (Ptr Void, ''data''),
        (U64, ''size'')] False,
     mk_helper 122 ''bpf_get_netns_cookie'' U64
       [(Ptr Void, ''ctx'')] False,
     mk_helper 123 ''bpf_get_current_ancestor_cgroup_id'' U64
       [(C_int, ''ancestor_level'')] False]"

definition helpers_124_129 :: "helper list" where
  "helpers_124_129 =
    [mk_helper 124 ''bpf_sk_assign'' Long
       [(Ptr Void, ''ctx''), (Ptr Void, ''sk''), (U64, ''flags'')] False,
     mk_helper 125 ''bpf_ktime_get_boot_ns'' U64
       [] False,
     mk_helper 126 ''bpf_seq_printf'' Long
       [(Ptr (Struct ''seq_file''), ''m''), (Ptr (Const Char), ''fmt''),
        (U32, ''fmt_size''), (Ptr (Const Void), ''data''), (U32, ''data_len'')] False,
     mk_helper 127 ''bpf_seq_write'' Long
       [(Ptr (Struct ''seq_file''), ''m''), (Ptr (Const Void), ''data''), (U32, ''len'')] False,
     mk_helper 128 ''bpf_sk_cgroup_id'' U64
       [(Ptr Void, ''sk'')] False,
     mk_helper 129 ''bpf_sk_ancestor_cgroup_id'' U64
       [(Ptr Void, ''sk''), (C_int, ''ancestor_level'')] False]"

definition helpers_130_137 :: "helper list" where
  "helpers_130_137 =
    [mk_helper 130 ''bpf_ringbuf_output'' Long
       [(Ptr Void, ''ringbuf''), (Ptr Void, ''data''), (U64, ''size''), (U64, ''flags'')] False,
     mk_helper 131 ''bpf_ringbuf_reserve'' (Ptr Void)
       [(Ptr Void, ''ringbuf''), (U64, ''size''), (U64, ''flags'')] True,
     mk_helper 132 ''bpf_ringbuf_submit'' Void
       [(Ptr Void, ''data''), (U64, ''flags'')] False,
     mk_helper 133 ''bpf_ringbuf_discard'' Void
       [(Ptr Void, ''data''), (U64, ''flags'')] False,
     mk_helper 134 ''bpf_ringbuf_query'' U64
       [(Ptr Void, ''ringbuf''), (U64, ''flags'')] False,
     mk_helper 135 ''bpf_csum_level'' Long
       [(Ptr (Struct ''__sk_buff''), ''skb''), (U64, ''level'')] False,
     mk_helper 136 ''bpf_skc_to_tcp6_sock'' (Ptr (Struct ''tcp6_sock''))
       [(Ptr Void, ''sk'')] True,
     mk_helper 137 ''bpf_skc_to_tcp_sock'' (Ptr (Struct ''tcp_sock''))
       [(Ptr Void, ''sk'')] True]"

definition helpers_138_142 :: "helper list" where
  "helpers_138_142 =
    [mk_helper 138 ''bpf_skc_to_tcp_timewait_sock'' (Ptr (Struct ''tcp_timewait_sock''))
       [(Ptr Void, ''sk'')] True,
     mk_helper 139 ''bpf_skc_to_tcp_request_sock'' (Ptr (Struct ''tcp_request_sock''))
       [(Ptr Void, ''sk'')] True,
     mk_helper 140 ''bpf_skc_to_udp6_sock'' (Ptr (Struct ''udp6_sock''))
       [(Ptr Void, ''sk'')] True,
     mk_helper 141 ''bpf_get_task_stack'' Long
       [(Ptr (Struct ''task_struct''), ''task''), (Ptr Void, ''buf''), (U32, ''size''),
        (U64, ''flags'')] False,
     mk_helper 142 ''bpf_load_hdr_opt'' Long
       [(Ptr (Struct ''bpf_sock_ops''), ''skops''), (Ptr Void, ''searchby_res''),
        (U32, ''len''), (U64, ''flags'')] False]"

definition helpers_143_148 :: "helper list" where
  "helpers_143_148 =
    [mk_helper 143 ''bpf_store_hdr_opt'' Long
       [(Ptr (Struct ''bpf_sock_ops''), ''skops''), (Ptr (Const Void), ''from''),
        (U32, ''len''), (U64, ''flags'')] False,
     mk_helper 144 ''bpf_reserve_hdr_opt'' Long
       [(Ptr (Struct ''bpf_sock_ops''), ''skops''), (U32, ''len''), (U64, ''flags'')] False,
     mk_helper 145 ''bpf_inode_storage_get'' (Ptr Void)
       [(Ptr Void, ''map''), (Ptr Void, ''inode''), (Ptr Void, ''value''), (U64, ''flags'')] True,
     mk_helper 146 ''bpf_inode_storage_delete'' C_int
       [(Ptr Void, ''map''), (Ptr Void, ''inode'')] False,
     mk_helper 147 ''bpf_d_path'' Long
       [(Ptr (Struct ''path''), ''path''), (Ptr Char, ''buf''), (U32, ''sz'')] False,
     mk_helper 148 ''bpf_copy_from_user'' Long
       [(Ptr Void, ''dst''), (U32, ''size''), (Ptr (Const Void), ''user_ptr'')] False]"

definition helpers_149_155 :: "helper list" where
  "helpers_149_155 =
    [mk_helper 149 ''bpf_snprintf_btf'' Long
       [(Ptr Char, ''str''), (U32, ''str_size''), (Ptr (Struct ''btf_ptr''), ''ptr''),
        (U32, ''btf_ptr_size''), (U64, ''flags'')] False,
     mk_helper 150 ''bpf_seq_printf_btf'' Long
       [(Ptr (Struct ''seq_file''), ''m''), (Ptr (Struct ''btf_ptr''), ''ptr''),
        (U32, ''ptr_size''), (U64, ''flags'')] False,
     mk_helper 151 ''bpf_skb_cgroup_classid'' U64
       [(Ptr (Struct ''__sk_buff''), ''skb'')] False,
     mk_helper 152 ''bpf_redirect_neigh'' Long
       [(U32, ''ifindex''), (Ptr (Struct ''bpf_redir_neigh''), ''params''),
        (C_int, ''plen''), (U64, ''flags'')] False,
     mk_helper 153 ''bpf_per_cpu_ptr'' (Ptr Void)
       [(Ptr (Const Void), ''percpu_ptr''), (U32, ''cpu'')] True,
     mk_helper 154 ''bpf_this_cpu_ptr'' (Ptr Void)
       [(Ptr (Const Void), ''percpu_ptr'')] False,
     mk_helper 155 ''bpf_redirect_peer'' Long
       [(U32, ''ifindex''), (U64, ''flags'')] False]"

definition helpers_156_162 :: "helper list" where
  "helpers_156_162 =
    [mk_helper 156 ''bpf_task_storage_get'' (Ptr Void)
       [(Ptr Void, ''map''), (Ptr (Struct ''task_struct''), ''task''),
        (Ptr Void, ''value''), (U64, ''flags'')] True,
     mk_helper 157 ''bpf_task_storage_delete'' Long
       [(Ptr Void, ''map''), (Ptr (Struct ''task_struct''), ''task'')] False,
     mk_helper 158 ''bpf_get_current_task_btf'' (Ptr (Struct ''task_struct''))
       [] False,
     mk_helper 159 ''bpf_bprm_opts_set'' Long
       [(Ptr (Struct ''linux_binprm''), ''bprm''), (U64, ''flags'')] False,
     mk_helper 160 ''bpf_ktime_get_coarse_ns'' U64
       [] False,
     mk_helper 161 ''bpf_ima_inode_hash'' Long
       [(Ptr (Struct ''inode''), ''inode''), (Ptr Void, ''dst''), (U32, ''size'')] False,
     mk_helper 162 ''bpf_sock_from_file'' (Ptr (Struct ''socket''))
       [(Ptr (Struct ''file''), ''file'')] True]"

definition helpers_163_166 :: "helper list" where
  "helpers_163_166 =
    [mk_helper 163 ''bpf_check_mtu'' Long
       [(Ptr Void, ''ctx''), (U32, ''ifindex''), (Ptr U32, ''mtu_len''),
        (S32, ''len_diff''), (U64, ''flags'')] False,
     mk_helper 164 ''bpf_for_each_map_elem'' Long
       [(Ptr Void, ''map''), (Ptr Void, ''callback_fn''), (Ptr Void, ''callback_ctx''),
        (U64, ''flags'')] False,
     mk_helper 165 ''bpf_snprintf'' Long
       [(Ptr Char, ''str''), (U32, ''str_size''), (Ptr (Const Char), ''fmt''),
        (Ptr U64, ''data''), (U32, ''data_len'')] False,
     mk_helper 166 ''bpf_sys_bpf'' Long
       [(U32, ''cmd''), (Ptr Void, ''attr''), (U32, ''attr_size'')] False]"

definition helpers_167_174 :: "helper list" where
  "helpers_167_174 =
    [mk_helper 167 ''bpf_btf_find_by_name_kind'' Long
       [(Ptr Char, ''name''), (C_int, ''name_sz''), (U32, ''kind''), (C_int, ''flags'')] False,
     mk_helper 168 ''bpf_sys_close'' Long
       [(U32, ''fd'')] False,
     mk_helper 169 ''bpf_timer_init'' Long
       [(Ptr (Struct ''bpf_timer''), ''timer''), (Ptr Void, ''map''), (U64, ''flags'')] False,
     mk_helper 170 ''bpf_timer_set_callback'' Long
       [(Ptr (Struct ''bpf_timer''), ''timer''), (Ptr Void, ''callback_fn'')] False,
     mk_helper 171 ''bpf_timer_start'' Long
       [(Ptr (Struct ''bpf_timer''), ''timer''), (U64, ''nsecs''), (U64, ''flags'')] False,
     mk_helper 172 ''bpf_timer_cancel'' Long
       [(Ptr (Struct ''bpf_timer''), ''timer'')] False,
     mk_helper 173 ''bpf_get_func_ip'' U64
       [(Ptr Void, ''ctx'')] False,
     mk_helper 174 ''bpf_get_attach_cookie'' U64
       [(Ptr Void, ''ctx'')] False]"

definition helpers_175_182 :: "helper list" where
  "helpers_175_182 =
    [mk_helper 175 ''bpf_task_pt_regs'' Long
       [(Ptr (Struct ''task_struct''), ''task'')] False,
     mk_helper 176 ''bpf_get_branch_snapshot'' Long
       [(Ptr Void, ''entries''), (U32, ''size''), (U64, ''flags'')] False,
     mk_helper 177 ''bpf_trace_vprintk'' Long
       [(Ptr (Const Char), ''fmt''), (U32, ''fmt_size''), (Ptr (Const Void), ''data''),
        (U32, ''data_len'')] False,
     mk_helper 178 ''bpf_skc_to_unix_sock'' (Ptr (Struct ''unix_sock''))
       [(Ptr Void, ''sk'')] True,
     mk_helper 179 ''bpf_kallsyms_lookup_name'' Long
       [(Ptr (Const Char), ''name''), (C_int, ''name_sz''), (C_int, ''flags''),
        (Ptr U64, ''res'')] False,
     mk_helper 180 ''bpf_find_vma'' Long
       [(Ptr (Struct ''task_struct''), ''task''), (U64, ''addr''),
        (Ptr Void, ''callback_fn''), (Ptr Void, ''callback_ctx''), (U64, ''flags'')] True,
     mk_helper 181 ''bpf_loop'' Long
       [(U32, ''nr_loops''), (Ptr Void, ''callback_fn''), (Ptr Void, ''callback_ctx''),
        (U64, ''flags'')] False,
     mk_helper 182 ''bpf_strncmp'' Long
       [(Ptr (Const Char), ''s1''), (U32, ''s1_sz''), (Ptr (Const Char), ''s2'')] False]"

definition helpers_183_191 :: "helper list" where
  "helpers_183_191 =
    [mk_helper 183 ''bpf_get_func_arg'' Long
       [(Ptr Void, ''ctx''), (U32, ''n''), (Ptr U64, ''value'')] False,
     mk_helper 184 ''bpf_get_func_ret'' Long
       [(Ptr Void, ''ctx''), (Ptr U64, ''value'')] False,
     mk_helper 185 ''bpf_get_func_arg_cnt'' Long
       [(Ptr Void, ''ctx'')] False,
     mk_helper 186 ''bpf_get_retval'' C_int
       [] False,
     mk_helper 187 ''bpf_set_retval'' C_int
       [(C_int, ''retval'')] False,
     mk_helper 188 ''bpf_xdp_get_buff_len'' U64
       [(Ptr (Struct ''xdp_md''), ''xdp_md'')] False,
     mk_helper 189 ''bpf_xdp_load_bytes'' Long
       [(Ptr (Struct ''xdp_md''), ''xdp_md''), (U32, ''offset''), (Ptr Void, ''buf''),
        (U32, ''len'')] False,
     mk_helper 190 ''bpf_xdp_store_bytes'' Long
       [(Ptr (Struct ''xdp_md''), ''xdp_md''), (U32, ''offset''), (Ptr Void, ''buf''),
        (U32, ''len'')] False,
     mk_helper 191 ''bpf_copy_from_user_task'' Long
       [(Ptr Void, ''dst''), (U32, ''size''), (Ptr (Const Void), ''user_ptr''),
        (Ptr (Struct ''task_struct''), ''tsk''), (U64, ''flags'')] False]"

definition helpers_192_200 :: "helper list" where
  "helpers_192_200 =
    [mk_helper 192 ''bpf_skb_set_tstamp'' Long
       [(Ptr (Struct ''__sk_buff''), ''skb''), (U64, ''tstamp''), (U32, ''tstamp_type'')] False,
     mk_helper 193 ''bpf_ima_file_hash'' Long
       [(Ptr (Struct ''file''), ''file''), (Ptr Void, ''dst''), (U32, ''size'')] False,
     mk_helper 194 ''bpf_kptr_xchg'' (Ptr Void)
       [(Ptr Void, ''dst''), (Ptr Void, ''ptr'')] True,
     mk_helper 195 ''bpf_map_lookup_percpu_elem'' (Ptr Void)
       [(Ptr Void, ''map''), (Ptr (Const Void), ''key''), (U32, ''cpu'')] True,
     mk_helper 196 ''bpf_skc_to_mptcp_sock'' (Ptr (Struct ''mptcp_sock''))
       [(Ptr Void, ''sk'')] True,
     mk_helper 197 ''bpf_dynptr_from_mem'' Long
       [(Ptr Void, ''data''), (U32, ''size''), (U64, ''flags''),
        (Ptr (Struct ''bpf_dynptr''), ''ptr'')] False,
     mk_helper 198 ''bpf_ringbuf_reserve_dynptr'' Long
       [(Ptr Void, ''ringbuf''), (U32, ''size''), (U64, ''flags''),
        (Ptr (Struct ''bpf_dynptr''), ''ptr'')] False,
     mk_helper 199 ''bpf_ringbuf_submit_dynptr'' Void
       [(Ptr (Struct ''bpf_dynptr''), ''ptr''), (U64, ''flags'')] False,
     mk_helper 200 ''bpf_ringbuf_discard_dynptr'' Void
       [(Ptr (Struct ''bpf_dynptr''), ''ptr''), (U64, ''flags'')] False]"

definition helpers_201_207 :: "helper list" where
  "helpers_201_207 =
    [mk_helper 201 ''bpf_dynptr_read'' Long
       [(Ptr Void, ''dst''), (U32, ''len''),
        (Ptr (Const (Struct ''bpf_dynptr'')), ''src''), (U32, ''offset''), (U64, ''flags'')] False,
     mk_helper 202 ''bpf_dynptr_write'' Long
       [(Ptr (Const (Struct ''bpf_dynptr'')), ''dst''), (U32, ''offset''),
        (Ptr Void, ''src''), (U32, ''len''), (U64, ''flags'')] False,
     mk_helper 203 ''bpf_dynptr_data'' (Ptr Void)
       [(Ptr (Const (Struct ''bpf_dynptr'')), ''ptr''), (U32, ''offset''), (U32, ''len'')] True,
     mk_helper 204 ''bpf_tcp_raw_gen_syncookie_ipv4'' S64
       [(Ptr (Struct ''iphdr''), ''iph''), (Ptr (Struct ''tcphdr''), ''th''),
        (U32, ''th_len'')] False,
     mk_helper 205 ''bpf_tcp_raw_gen_syncookie_ipv6'' S64
       [(Ptr (Struct ''ipv6hdr''), ''iph''), (Ptr (Struct ''tcphdr''), ''th''),
        (U32, ''th_len'')] False,
     mk_helper 206 ''bpf_tcp_raw_check_syncookie_ipv4'' Long
       [(Ptr (Struct ''iphdr''), ''iph''), (Ptr (Struct ''tcphdr''), ''th'')] False,
     mk_helper 207 ''bpf_tcp_raw_check_syncookie_ipv6'' Long
       [(Ptr (Struct ''ipv6hdr''), ''iph''), (Ptr (Struct ''tcphdr''), ''th'')] False]"

definition helpers_208_211 :: "helper list" where
  "helpers_208_211 =
    [mk_helper 208 ''bpf_ktime_get_tai_ns'' U64
       [] False,
     mk_helper 209 ''bpf_user_ringbuf_drain'' Long
       [(Ptr Void, ''map''), (Ptr Void, ''callback_fn''), (Ptr Void, ''ctx''),
        (U64, ''flags'')] False,
     mk_helper 210 ''bpf_cgrp_storage_get'' (Ptr Void)
       [(Ptr Void, ''map''), (Ptr (Struct ''cgroup''), ''cgroup''), (Ptr Void, ''value''),
        (U64, ''flags'')] True,
     mk_helper 211 ''bpf_cgrp_storage_delete'' Long
       [(Ptr Void, ''map''), (Ptr (Struct ''cgroup''), ''cgroup'')] False]"

definition helper_table :: "helper list" where
  "helper_table =
     helpers_1_7 @
     helpers_8_12 @
     helpers_13_19 @
     helpers_20_22 @
     helpers_23_26 @
     helpers_27_31 @
     helpers_32_38 @
     helpers_39_45 @
     helpers_46_50 @
     helpers_51_54 @
     helpers_55_58 @
     helpers_59_62 @
     helpers_63_67 @
     helpers_68_72 @
     helpers_73_77 @
     helpers_78_83 @
     helpers_84_90 @
     helpers_91_98 @
     helpers_99_104 @
     helpers_105_109 @
     helpers_110_115 @
     helpers_116_123 @
     helpers_124_129 @
     helpers_130_137 @
     helpers_138_142 @
     helpers_143_148 @
     helpers_149_155 @
     helpers_156_162 @
     helpers_163_166 @
     helpers_167_174 @
     helpers_175_182 @
     helpers_183_191 @
     helpers_192_200 @
     helpers_201_207 @
     helpers_208_211"
section \<open>What the table promises\<close>

fun type_structs :: "ctype \<Rightarrow> string list" where
  "type_structs (Struct s) = [s]"
| "type_structs (Const t) = type_structs t"
| "type_structs (Ptr t) = type_structs t"
| "type_structs _ = []"

fun is_pointer :: "ctype \<Rightarrow> bool" where
  "is_pointer (Ptr _) = True"
| "is_pointer _ = False"

definition helper_structs :: "helper \<Rightarrow> string list" where
  "helper_structs h = type_structs (h_ret h) @ concat (map (type_structs \<circ> fst) (h_params h))"

text \<open>The helpers that \<open>bpf/zask.c\<close> calls, by number.\<close>

definition zask_calls :: "nat list" where
  "zask_calls = [1, 2, 3, 14, 15, 35, 80, 112, 113, 114, 115, 131, 132, 193]"

lemma table_ids: "map h_id helper_table = [1..<212]"
  by code_simp

lemma table_args: "list_all (\<lambda>h. length (h_params h) \<le> 5) helper_table"
  by code_simp

lemma table_structs:
  "list_all (\<lambda>h. list_all (List.member forward_structs) (helper_structs h)) helper_table"
  by code_simp

lemma table_pointers:
  "map h_name (filter (\<lambda>h. is_pointer (h_ret h) \<and> \<not> h_null_doc h) helper_table) =
     [''bpf_get_local_storage'', ''bpf_this_cpu_ptr'', ''bpf_get_current_task_btf'']"
  by code_simp

lemma zask_call_names:
  "map h_name (filter (\<lambda>h. List.member zask_calls (h_id h)) helper_table) =
     [''bpf_map_lookup_elem'', ''bpf_map_update_elem'', ''bpf_map_delete_elem'',
      ''bpf_get_current_pid_tgid'', ''bpf_get_current_uid_gid'', ''bpf_get_current_task'',
      ''bpf_get_current_cgroup_id'', ''bpf_probe_read_user'', ''bpf_probe_read_kernel'',
      ''bpf_probe_read_user_str'', ''bpf_probe_read_kernel_str'', ''bpf_ringbuf_reserve'',
      ''bpf_ringbuf_submit'', ''bpf_ima_file_hash'']"
  by code_simp

end
