(* ===== verification/Header_Properties.thy ===== *)
theory Header_Properties
  imports Bpf_Tracing Helper_Table Scenarios
begin

text \<open>
  The properties of the headers the BPF program is compiled with: byte order, the arguments
  of the hooks, the register accessors and the table of helpers.
\<close>

text \<open>
  The conversions between host and network order are inverse to each other on either
  byte order, whichever of the two is a compile-time constant, and on a little-endian
  target the result has the bytes of its argument in the other order.
\<close>
theorem byte_order_conversions:
  "bpf_ntohs little c (bpf_htons little c' x) = x
   \<and> bpf_ntohl little c (bpf_htonl little c' y) = y
   \<and> bpf_be64_to_cpu little c (bpf_cpu_to_be64 little c' z) = z
   \<and> le_encode 2 (bpf_htons True c x) = rev (le_encode 2 x)
   \<and> le_encode 4 (bpf_htonl True c y) = rev (le_encode 4 y)
   \<and> le_encode 8 (bpf_cpu_to_be64 True c z) = rev (le_encode 8 z)"
  by (simp add: bpf_htons_def bpf_ntohs_def bpf_htonl_def bpf_ntohl_def bpf_cpu_to_be64_def
      bpf_be64_to_cpu_def swab_builtin builtin_bswap_twice builtin_bswap_bytes)

text \<open>
  \<open>BPF_PROG\<close> hands a program with up to twelve parameters the elements of its context
  in the order of the declaration; the hook \<open>zask_task_kill\<close> gets the target from the first
  and the signal from the third.
\<close>
theorem hook_arguments:
  assumes "length params \<le> 12" "length params \<le> length ctx"
  shows "BPF_PROG_args params ctx = Some (take (length params) ctx)
    \<and> task_kill_entry km pid_tgid [target, info, sig, cred] st
        = Some (zask_task_kill km pid_tgid target (ucast sig) st)"
  using assms by (simp add: BPF_PROG_args_eq task_kill_entry_def)

lemma hook_arguments_witness:
  "BPF_PROG_args [''bprm''] [0x10, 0x20] = Some (take (length [''bprm'']) [0x10, 0x20])
    \<and> task_kill_entry (sc_mem 11 10) 0 [1, 2, 9, 4] (fresh_kmaps 1)
        = Some (zask_task_kill (sc_mem 11 10) 0 1 (ucast (9 :: u64)) (fresh_kmaps 1))"
  by (rule hook_arguments) simp_all

text \<open>
  The direct and the CO-RE accessors name the same register on every target, with one
  exception: the frame pointer of RISC-V is \<open>s5\<close> for the one and \<open>fp\<close> for the other.
\<close>
theorem core_accessors_agree:
  "PT_REGS_CORE def xlen s =
     (if bpf_target def xlen = Some Riscv \<and> s = FP then Some (Field ''fp'')
      else PT_REGS def xlen s)"
  by (auto simp: PT_REGS_CORE_def PT_REGS_def core_tables_agree riscv_tables
      split: option.split target.split)


end
