(* ===== verification/Loader_Lifecycle.thy ===== *)
theory Loader_Lifecycle
  imports Process_Identity
begin

text \<open>
  The life of the kernel side in \<open>internal/ebpf/loader.go\<close>: \<open>NewLoader\<close> recovers or migrates
  the pinned verdict map, loads the objects, pins the map and attaches the three programs;
  \<open>Close\<close> detaches them. The host is what survives a daemon: the file at the pin path, the
  objects that live in the kernel and the hooks that are attached. One daemon runs at a time.

  The library \<open>cilium/ebpf\<close> is an argument: which objects \<open>LoadZaskObjects\<close> returns for a
  map replacement (\<open>load\<close>), whether \<open>Pin\<close> succeeds on a path in a given state (\<open>le_pin\<close>) and
  the results of the other calls. What its documentation says of the first two are the
  predicates \<open>load_documented\<close> and \<open>pin_documented\<close>.
\<close>

section \<open>The host\<close>

text \<open>
  A pinned map is a verdict map or, from older versions, a map with keys of another size.
  While objects are loaded that use the pinned map, the file is that map (\<open>Pin_Loaded\<close>), so
  whatever the kernel and the daemon write to it is in the file.
\<close>

datatype pinned_map = Verdicts "(exec_key, u32) bpf_map" | Old_Map nat

fun KeySize :: "pinned_map \<Rightarrow> nat" where
  "KeySize (Verdicts m) = 2 * HASH_SIZE"
| "KeySize (Old_Map n) = n"

datatype pin_file = No_Pin | Pin_Map pinned_map | Pin_Loaded

record host =
  ho_pin :: pin_file
  ho_objs :: "kmaps option"
  ho_bprm :: bool
  ho_kill :: bool
  ho_exit :: bool

definition pinned :: "host \<Rightarrow> pinned_map option" where
  "pinned ho =
     (case ho_pin ho of
        No_Pin \<Rightarrow> None
      | Pin_Map m \<Rightarrow> Some m
      | Pin_Loaded \<Rightarrow> map_option (\<lambda>st. Verdicts (verdict_map st)) (ho_objs ho))"

definition hooked :: "host \<Rightarrow> bool" where
  "hooked ho \<longleftrightarrow> ho_bprm ho \<or> ho_kill ho \<or> ho_exit ho"

text \<open>No daemon runs and nothing of an earlier one is left in the kernel but the pin.\<close>

definition idle :: "host \<Rightarrow> bool" where
  "idle ho \<longleftrightarrow> ho_objs ho = None \<and> \<not> hooked ho \<and> ho_pin ho \<noteq> Pin_Loaded"

section \<open>Loader\<close>

definition oldInodeKeySize :: nat where "oldInodeKeySize = 16"
definition oldHashKeySize :: nat where "oldHashKeySize = 32"

record Loader =
  ld_bprmLink :: bool
  ld_killLink :: bool
  ld_exitLink :: bool
  ld_pinPath :: string

datatype start_error = Load_Objects | Pin_Verdicts | Attach_Bprm | Attach_Kill | Attach_Exit

text \<open>The results of the system calls during one start.\<close>

record loader_env =
  le_stat :: bool
  le_open :: bool
  le_info :: bool
  le_remove :: bool
  le_pin :: "pin_file \<Rightarrow> bool"
  le_bprm :: bool
  le_kill :: bool
  le_exit :: bool

definition pin_documented :: "loader_env \<Rightarrow> bool" where
  "pin_documented env \<longleftrightarrow> \<not> le_pin env Pin_Loaded \<and> (\<forall>m. \<not> le_pin env (Pin_Map m))"

definition load_documented :: "nat \<Rightarrow> (pinned_map option \<Rightarrow> kmaps option) \<Rightarrow> bool" where
  "load_documented n load \<longleftrightarrow>
     load None \<in> {None, Some (fresh_kmaps n)}
     \<and> (\<forall>m. load (Some (Verdicts m)) \<in> {None, Some ((fresh_kmaps n)\<lparr>verdict_map := m\<rparr>)})
     \<and> (\<forall>k. load (Some (Old_Map k)) = None)"

text \<open>
  Recovery: the map to use instead of a new one, if any. A map with the key size of an older
  version is removed; a map whose size cannot be read is used.
\<close>

definition recover_pin :: "loader_env \<Rightarrow> string \<Rightarrow> host \<Rightarrow> pinned_map option \<times> host" where
  "recover_pin env pinPath ho =
     (if pinPath = '''' then (None, ho)
      else case pinned ho of
        None \<Rightarrow> (None, ho)
      | Some existing \<Rightarrow>
          if \<not> le_stat env then (None, ho)
          else if \<not> le_open env then (None, ho)
          else if le_info env
              \<and> (KeySize existing = oldInodeKeySize \<or> KeySize existing = oldHashKeySize) then
            (None, if le_remove env then ho\<lparr>ho_pin := No_Pin\<rparr> else ho)
          else (Some existing, ho))"

text \<open>
  Closing the objects. The kernel keeps the maps of programs that are attached; otherwise
  only the pinned map is left.
\<close>

definition Close_objs :: "host \<Rightarrow> host" where
  "Close_objs ho =
     (if hooked ho then ho
      else case ho_objs ho of
        None \<Rightarrow> ho
      | Some st \<Rightarrow> ho\<lparr>ho_objs := None,
          ho_pin := (if ho_pin ho = Pin_Loaded then Pin_Map (Verdicts (verdict_map st))
                     else ho_pin ho)\<rparr>)"

definition NewLoader :: "loader_env \<Rightarrow> (pinned_map option \<Rightarrow> kmaps option) \<Rightarrow> string \<Rightarrow> host
    \<Rightarrow> (start_error + Loader) \<times> host" where
  "NewLoader env load pinPath ho =
     (let (existing, ho1) = recover_pin env pinPath ho;
          pinRecovered = (existing \<noteq> None)
      in case load existing of
           None \<Rightarrow> (Inl Load_Objects, ho1)
         | Some st \<Rightarrow>
             let ho2 = ho1\<lparr>ho_objs := Some st,
                   ho_pin := (if pinRecovered then Pin_Loaded else ho_pin ho1)\<rparr> in
             if pinPath \<noteq> '''' \<and> \<not> pinRecovered \<and> \<not> le_pin env (ho_pin ho2) then
               (Inl Pin_Verdicts, Close_objs ho2)
             else
               let ho3 = (if pinPath \<noteq> '''' \<and> \<not> pinRecovered then ho2\<lparr>ho_pin := Pin_Loaded\<rparr>
                          else ho2) in
               if \<not> le_bprm env then (Inl Attach_Bprm, Close_objs ho3)
               else
                 let ho4 = ho3\<lparr>ho_bprm := True\<rparr> in
                 if \<not> le_kill env then (Inl Attach_Kill, Close_objs (ho4\<lparr>ho_bprm := False\<rparr>))
                 else
                   let ho5 = ho4\<lparr>ho_kill := True\<rparr> in
                   if \<not> le_exit env then
                     (Inl Attach_Exit, Close_objs (ho5\<lparr>ho_kill := False, ho_bprm := False\<rparr>))
                   else (Inr \<lparr>ld_bprmLink = True, ld_killLink = True, ld_exitLink = True,
                              ld_pinPath = pinPath\<rparr>,
                         ho5\<lparr>ho_exit := True\<rparr>))"

datatype close_error = Detach_Exit | Detach_Kill | Detach_Bprm | Close_Objects

text \<open>The results of the calls of \<open>Close\<close>; a link that fails to close stays attached.\<close>

record close_env =
  ce_exit :: bool
  ce_kill :: bool
  ce_bprm :: bool
  ce_objs :: bool

definition first_error :: "bool \<Rightarrow> close_error \<Rightarrow> close_error option \<Rightarrow> close_error option" where
  "first_error failed err firstErr = (if failed \<and> firstErr = None then Some err else firstErr)"

definition Close :: "close_env \<Rightarrow> Loader \<Rightarrow> host \<Rightarrow> close_error option \<times> host" where
  "Close env l ho =
     (let e1 = (if ld_exitLink l \<and> \<not> ce_exit env then Some Detach_Exit else None);
          ho1 = (if ld_exitLink l \<and> ce_exit env then ho\<lparr>ho_exit := False\<rparr> else ho);
          e2 = first_error (ld_killLink l \<and> \<not> ce_kill env) Detach_Kill e1;
          ho2 = (if ld_killLink l \<and> ce_kill env then ho1\<lparr>ho_kill := False\<rparr> else ho1);
          e3 = first_error (ld_bprmLink l \<and> \<not> ce_bprm env) Detach_Bprm e2;
          ho3 = (if ld_bprmLink l \<and> ce_bprm env then ho2\<lparr>ho_bprm := False\<rparr> else ho2);
          e4 = first_error (\<not> ce_objs env) Close_Objects e3
      in (e4, Close_objs ho3))"

section \<open>The machine on a host\<close>

text \<open>An operation reaches the maps when its program is attached; the daemon's always do.\<close>

fun attached :: "kop \<Rightarrow> host \<Rightarrow> bool" where
  "attached (Exec env bprm) ho = ho_bprm ho"
| "attached (Thread_Exit pid_tgid) ho = ho_exit ho"
| "attached (Kill km pid_tgid target sig) ho = ho_kill ho"
| "attached _ ho = True"

definition host_step :: "kop \<Rightarrow> host \<Rightarrow> host" where
  "host_step op ho =
     (if attached op ho then ho\<lparr>ho_objs := map_option (kstep op) (ho_objs ho)\<rparr> else ho)"

definition host_run :: "kop list \<Rightarrow> host \<Rightarrow> host" where
  "host_run ops ho = fold host_step ops ho"

text \<open>What an execution meets: the hook's answer where it is attached.\<close>

definition host_exec :: "hook_env \<Rightarrow> linux_binprm \<Rightarrow> host \<Rightarrow> int" where
  "host_exec env bprm ho =
     (case ho_objs ho of
        Some st \<Rightarrow> if ho_bprm ho then fst (zask_bprm_check env bprm st) else 0
      | None \<Rightarrow> 0)"

section \<open>Lemmas\<close>

lemmas lifecycle_defs = NewLoader_def recover_pin_def Close_objs_def Let_def

lemma Close_objs_idle: "\<not> hooked ho \<Longrightarrow> ho_objs ho \<noteq> None \<Longrightarrow> idle (Close_objs ho)"
  by (auto simp: Close_objs_def idle_def hooked_def split: if_splits)

lemma pinned_Close_objs [simp]: "pinned (Close_objs ho) = pinned ho"
  by (auto simp: pinned_def Close_objs_def split: pin_file.split option.split)

lemma pinned_file [simp]:
  "ho_pin ho = Pin_Map m \<Longrightarrow> pinned ho = Some m"
  "ho_pin ho = No_Pin \<Longrightarrow> pinned ho = None"
  "ho_pin ho = Pin_Loaded \<Longrightarrow> pinned ho = map_option (\<lambda>st. Verdicts (verdict_map st)) (ho_objs ho)"
  by (simp_all add: pinned_def)

lemma recover_pin_frame:
  assumes "recover_pin env p ho = (existing, ho1)"
  shows "ho_objs ho1 = ho_objs ho" "ho_bprm ho1 = ho_bprm ho" "ho_kill ho1 = ho_kill ho"
    "ho_exit ho1 = ho_exit ho"
  using assms by (auto simp: recover_pin_def split: if_splits option.splits)

lemma recover_pin_idle: "recover_pin env p ho = (existing, ho1) \<Longrightarrow> idle ho \<Longrightarrow> idle ho1"
  by (auto simp: recover_pin_def idle_def hooked_def split: if_splits option.splits)

lemma recover_pin_existing: "recover_pin env p ho = (Some m, ho1) \<Longrightarrow> pinned ho = Some m \<and> ho1 = ho \<and> p \<noteq> ''''"
  by (auto simp: recover_pin_def split: if_splits option.splits)

text \<open>A verdict map at the pin path stays there through the recovery.\<close>

lemma recover_pin_verdicts:
  "recover_pin env p ho = (existing, ho1) \<Longrightarrow> pinned ho = Some (Verdicts m) \<Longrightarrow> ho1 = ho"
  by (auto simp: recover_pin_def oldInodeKeySize_def oldHashKeySize_def HASH_SIZE_def
      split: if_splits)

lemma NewLoader_Inr:
  assumes "NewLoader env load p ho = (Inr l, ho')" "recover_pin env p ho = (existing, ho1)"
  shows "ho_bprm ho'" "ho_kill ho'" "ho_exit ho'" "ho_objs ho' = load existing"
    "load existing \<noteq> None" "p \<noteq> '''' \<Longrightarrow> ho_pin ho' = Pin_Loaded"
    "p \<noteq> '''' \<Longrightarrow> existing = None \<Longrightarrow> le_pin env (ho_pin ho1)"
    "l = \<lparr>ld_bprmLink = True, ld_killLink = True, ld_exitLink = True, ld_pinPath = p\<rparr>"
  using assms by (auto simp: NewLoader_def Let_def split: option.splits if_splits)

lemma NewLoader_Inl_idle:
  assumes "NewLoader env load p ho = (Inl e, ho')" "idle ho"
  shows "idle ho'"
proof -
  obtain existing ho1 where r: "recover_pin env p ho = (existing, ho1)" by fastforce
  have "idle ho1" using recover_pin_idle [OF r assms(2)] .
  then show ?thesis
    using assms(1)
    by (auto simp: NewLoader_def Let_def r idle_def hooked_def Close_objs_def
        split: option.splits if_splits)
qed

lemma idle_pinned: "idle ho \<Longrightarrow> pinned ho = Some m \<longleftrightarrow> ho_pin ho = Pin_Map m"
  by (auto simp: idle_def pinned_def split: pin_file.split)

lemma idle_unpinned: "idle ho \<Longrightarrow> pinned ho = None \<longleftrightarrow> ho_pin ho = No_Pin"
  by (auto simp: idle_def pinned_def split: pin_file.split)

lemma idle_Pin_Loaded: "idle ho \<Longrightarrow> ho_pin ho \<noteq> Pin_Loaded"
  by (simp add: idle_def)

text \<open>Pinning to the path of an existing file fails, and the file stays.\<close>

lemma NewLoader_occupied:
  assumes "recover_pin env p ho = (None, ho)" "p \<noteq> ''''" "pinned ho = Some m" "idle ho"
    and "pin_documented env"
  shows "isl (fst (NewLoader env load p ho))" "snd (NewLoader env load p ho) = ho"
proof -
  have f: "ho_pin ho = Pin_Map m" "ho_objs ho = None" "\<not> hooked ho"
    using assms(3,4) by (auto simp: idle_pinned idle_def)
  have pin: "\<not> le_pin env (Pin_Map m)" using assms(5) by (simp add: pin_documented_def)
  show "isl (fst (NewLoader env load p ho))"
    using f assms(1,2) pin by (simp add: NewLoader_def Let_def split: option.split)
  show "snd (NewLoader env load p ho) = ho"
    using f assms(1,2) pin
    by (simp add: NewLoader_def Let_def Close_objs_def hooked_def split: option.split)
qed

text \<open>When a start succeeds, case by case of what is at the pin path.\<close>

lemma NewLoader_isl_iff:
  assumes "idle ho" "load_documented n load" "pin_documented env"
  shows "isl (fst (NewLoader env load p ho)) \<longleftrightarrow>
    \<not> (le_bprm env \<and> le_kill env \<and> le_exit env
       \<and> (if p = '''' then load None \<noteq> None
          else case pinned ho of
            None \<Rightarrow> load None \<noteq> None \<and> le_pin env No_Pin
          | Some (Verdicts m) \<Rightarrow> le_stat env \<and> le_open env \<and> load (Some (Verdicts m)) \<noteq> None
          | Some (Old_Map k) \<Rightarrow> le_stat env \<and> le_open env \<and> le_info env \<and> k \<in> {16, 32}
              \<and> le_remove env \<and> load None \<noteq> None \<and> le_pin env No_Pin))"
proof (cases "pinned ho")
  case None
  then have "ho_pin ho = No_Pin" using assms(1) by (simp add: idle_unpinned)
  with None show ?thesis
    by (auto simp: NewLoader_def recover_pin_def Let_def split: option.splits)
next
  case (Some f)
  have pin: "ho_pin ho = Pin_Map f" using Some assms(1) by (simp add: idle_pinned)
  have no: "\<not> le_pin env (Pin_Map f)" using assms(3) by (simp add: pin_documented_def)
  show ?thesis
  proof (cases f)
    case (Verdicts m)
    show ?thesis
      using Some pin no Verdicts
      by (auto simp: NewLoader_def recover_pin_def Let_def oldInodeKeySize_def oldHashKeySize_def
          HASH_SIZE_def split: option.splits)
  next
    case (Old_Map k)
    have "load (Some (Old_Map k)) = None" using assms(2) by (simp add: load_documented_def)
    then show ?thesis
      using Some pin no Old_Map
      by (auto simp: NewLoader_def recover_pin_def Let_def oldInodeKeySize_def oldHashKeySize_def
          split: option.splits)
  qed
qed

section \<open>A running daemon\<close>

definition running :: "kmaps \<Rightarrow> host \<Rightarrow> bool" where
  "running st ho \<longleftrightarrow> ho_objs ho = Some st \<and> ho_bprm ho \<and> ho_kill ho \<and> ho_exit ho
     \<and> ho_pin ho = Pin_Loaded"

lemma running_attached: "running st ho \<Longrightarrow> attached op ho"
  by (cases op) (simp_all add: running_def)

lemma running_step: "running st ho \<Longrightarrow> running (kstep op st) (host_step op ho)"
  by (simp add: host_step_def running_attached) (simp add: running_def)

lemma running_run: "running st ho \<Longrightarrow> running (krun ops st) (host_run ops ho)"
  unfolding krun_def host_run_def by (induction ops arbitrary: st ho) (auto intro: running_step)

lemma running_exec: "running st ho \<Longrightarrow> host_exec env bprm ho = fst (zask_bprm_check env bprm st)"
  by (simp add: running_def host_exec_def)

definition clean_close :: "close_env \<Rightarrow> bool" where
  "clean_close env \<longleftrightarrow> ce_exit env \<and> ce_kill env \<and> ce_bprm env \<and> ce_objs env"

lemma NewLoader_running:
  assumes "NewLoader env load p ho = (Inr l, ho')" "recover_pin env p ho = (existing, ho1)"
    and "load existing = Some st" "p \<noteq> ''''"
  shows "running st ho'"
  using NewLoader_Inr [OF assms(1,2)] assms(3,4) by (simp add: running_def)

lemma Close_running:
  assumes "running st ho" "clean_close env"
    and "ld_bprmLink l" "ld_killLink l" "ld_exitLink l"
  shows "Close env l ho = (None, ho\<lparr>ho_objs := None, ho_bprm := False, ho_kill := False,
    ho_exit := False, ho_pin := Pin_Map (Verdicts (verdict_map st))\<rparr>)"
  using assms by (simp add: Close_def Let_def clean_close_def running_def first_error_def
      Close_objs_def hooked_def)

lemma recover_verdicts:
  assumes "ho_pin ho = Pin_Map (Verdicts m)" "p \<noteq> ''''" "le_stat env" "le_open env"
  shows "recover_pin env p ho = (Some (Verdicts m), ho)"
  using assms by (simp add: recover_pin_def pinned_def oldInodeKeySize_def oldHashKeySize_def
      HASH_SIZE_def)

end
