(* ===== verification/Ring_Reader.thy ===== *)
theory Ring_Reader
  imports Event_Codec "HOL-Library.Sublist"
begin

text \<open>
  \<open>internal/ebpf/ringbuf.go\<close>: the loop that reads records from the ring buffer, decodes them
  and sends the events to the daemon. The library's reader and the context are inputs: one
  \<open>read_turn\<close> for each iteration of the loop. The loop may run forever, so \<open>Run\<close> works off a
  list of turns and says whether it has returned.
\<close>

section \<open>The loop\<close>

datatype read_result = Record "u8 list" | Err_Closed | Err_Other

text \<open>
  \<open>rt_sent\<close> is the outcome of the second \<open>select\<close>: the channel took the event, or the
  context was over first.
\<close>

record read_turn =
  rt_ctx_done :: bool
  rt_read :: read_result
  rt_sent :: bool

datatype loop_status = Returned | Looping

fun Run :: "read_turn list \<Rightarrow> event list \<Rightarrow> loop_status \<times> event list" where
  "Run [] out = (Looping, out)"
| "Run (t # ts) out =
     (if rt_ctx_done t then (Returned, out)
      else case rt_read t of
        Err_Closed \<Rightarrow> (Returned, out)
      | Err_Other \<Rightarrow> Run ts out
      | Record raw \<Rightarrow>
          (case DecodeEvent raw of
             Inl err \<Rightarrow> Run ts out
           | Inr ev \<Rightarrow> if rt_sent t then Run ts (out @ [ev]) else (Returned, out)))"

section \<open>What the loop is for\<close>

text \<open>The records the library hands out, and the events in them.\<close>

fun records :: "read_turn list \<Rightarrow> u8 list list" where
  "records [] = []"
| "records (t # ts) = (case rt_read t of Record raw \<Rightarrow> raw # records ts | _ \<Rightarrow> records ts)"

fun decoded :: "u8 list list \<Rightarrow> event list" where
  "decoded [] = []"
| "decoded (raw # raws) =
     (case DecodeEvent raw of Inl err \<Rightarrow> decoded raws | Inr ev \<Rightarrow> ev # decoded raws)"

text \<open>A turn in which the loop returns.\<close>

definition stops :: "read_turn \<Rightarrow> bool" where
  "stops t \<longleftrightarrow> rt_ctx_done t \<or> rt_read t = Err_Closed
     \<or> (\<exists>raw ev. rt_read t = Record raw \<and> DecodeEvent raw = Inr ev \<and> \<not> rt_sent t)"

section \<open>Lemmas\<close>

lemma Run_Cons_stops: "stops t \<Longrightarrow> Run (t # ts) out = (Returned, out)"
  by (auto simp: stops_def split: read_result.split sum.split)

lemma Run_Cons_goes_on:
  "\<not> stops t \<Longrightarrow> Run (t # ts) out = Run ts (out @ decoded (records [t]))"
  by (auto simp: stops_def split: read_result.split sum.split)

lemma records_Cons: "records (t # ts) = records [t] @ records ts"
  by (cases "rt_read t") simp_all

lemma decoded_append: "decoded (raws @ raws') = decoded raws @ decoded raws'"
  by (induction raws) (auto split: sum.split)

text \<open>The loop sends what the turns before the first stopping one hold.\<close>

lemma Run_eq:
  "Run ts out = (if list_ex stops ts then Returned else Looping,
     out @ decoded (records (takeWhile (\<lambda>t. \<not> stops t) ts)))"
proof (induction ts arbitrary: out)
  case Nil
  then show ?case by simp
next
  case (Cons t ts)
  show ?case
  proof (cases "stops t")
    case True
    then show ?thesis by (simp add: Run_Cons_stops del: Run.simps)
  next
    case False
    then show ?thesis
      by (simp add: Run_Cons_goes_on Cons.IH records_Cons [of t "takeWhile (\<lambda>t. \<not> stops t) ts"]
          decoded_append del: Run.simps records.simps)
  qed
qed

lemma Run_all:
  "list_all (\<lambda>t. \<not> stops t) ts \<Longrightarrow> Run ts out = (Looping, out @ decoded (records ts))"
proof (induction ts arbitrary: out)
  case Nil
  then show ?case by simp
next
  case (Cons t ts)
  then show ?case
    by (simp add: Run_Cons_goes_on records_Cons [of t ts] decoded_append del: Run.simps records.simps)
qed

lemma records_takeWhile_prefix: "prefix (records (takeWhile P ts)) (records ts)"
  by (induction ts) (auto split: read_result.split)

lemma decoded_prefix: "prefix raws raws' \<Longrightarrow> prefix (decoded raws) (decoded raws')"
  by (auto simp: prefix_def decoded_append)

lemma decoded_events:
  "list_all2 (\<lambda>raw ev. DecodeEvent raw = Inr ev) raws evs \<Longrightarrow> decoded raws = evs"
  by (induction rule: list_all2_induct) simp_all

end
