(* ===== verification/Lifecycle_Properties.thy ===== *)
theory Lifecycle_Properties
  imports Loader_Lifecycle Ring_Reader Channel_Properties
begin

text \<open>
  The properties of start, stop and restart: what a start of the loader leaves behind, when
  it succeeds, what a restart keeps and what it loses; and of the reader that carries the
  events from the ring buffer to the daemon: what it delivers and when it returns.
\<close>

section \<open>Starting\<close>


definition sc_load :: "pinned_map option \<Rightarrow> kmaps option" where
  "sc_load existing =
     (case existing of
        None \<Rightarrow> Some (fresh_kmaps 1)
      | Some (Verdicts m) \<Rightarrow> Some ((fresh_kmaps 1)\<lparr>verdict_map := m\<rparr>)
      | Some (Old_Map k) \<Rightarrow> None)"

definition sc_lenv :: loader_env where
  "sc_lenv = \<lparr>le_stat = True, le_open = True, le_info = True, le_remove = True,
     le_pin = (\<lambda>f. f = No_Pin), le_bprm = True, le_kill = True, le_exit = True\<rparr>"

definition sc_host :: "pin_file \<Rightarrow> host" where
  "sc_host f = \<lparr>ho_pin = f, ho_objs = None, ho_bprm = False, ho_kill = False, ho_exit = False\<rparr>"

lemma sc_load_documented: "load_documented 1 sc_load"
  by (simp add: load_documented_def sc_load_def)

lemma sc_lenv_documented: "pin_documented sc_lenv"
  by (simp add: pin_documented_def sc_lenv_def)

lemma sc_host_idle: "idle (sc_host No_Pin)" "idle (sc_host (Pin_Map m))"
  by (simp_all add: sc_host_def idle_def hooked_def)


text \<open>
  Exactly when a start succeeds. With a verdict map at the pin path it must be readable;
  a map of an older version must be recognised and removed; what cannot be recovered is not
  replaced, as pinning a new map to the occupied path fails.
\<close>
theorem start_decision:
  assumes "idle ho" "load_documented n load" "pin_documented env"
  shows "isl (fst (NewLoader env load p ho)) \<longleftrightarrow>
    \<not> (le_bprm env \<and> le_kill env \<and> le_exit env
       \<and> (if p = '''' then load None \<noteq> None
          else case pinned ho of
            None \<Rightarrow> load None \<noteq> None \<and> le_pin env No_Pin
          | Some (Verdicts m) \<Rightarrow> le_stat env \<and> le_open env \<and> load (Some (Verdicts m)) \<noteq> None
          | Some (Old_Map k) \<Rightarrow> le_stat env \<and> le_open env \<and> le_info env \<and> k \<in> {16, 32}
              \<and> le_remove env \<and> load None \<noteq> None \<and> le_pin env No_Pin))"
  by (rule NewLoader_isl_iff [OF assms])

lemma start_decision_witness:
  "isl (fst (NewLoader (sc_lenv\<lparr>le_info := False\<rparr>) sc_load ''/sys/fs/bpf/v'' (sc_host (Pin_Map (Old_Map 32)))))"
  by (subst start_decision [OF sc_host_idle(2) sc_load_documented])
    (simp_all add: pin_documented_def sc_lenv_def pinned_def sc_host_def)

text \<open>
  A pinned map that cannot be opened, or an old one that cannot be removed, is announced
  as a fresh start, yet every start fails, however often it is repeated: the path stays
  occupied and the new map cannot be pinned there.
\<close>
theorem unusable_pin_stops_every_start:
  assumes "idle ho" "pinned ho = Some f" "p \<noteq> ''''" "pin_documented env"
    and "\<not> le_open env \<or> le_info env \<and> \<not> le_remove env \<and> KeySize f \<in> {16, 32}"
  shows "isl (fst (NewLoader env load p (((\<lambda>h. snd (NewLoader env load p h)) ^^ k) ho)))"
proof -
  have rec: "recover_pin env p ho = (None, ho)"
    using assms(2,3,5) by (auto simp: recover_pin_def oldInodeKeySize_def oldHashKeySize_def)
  have "((\<lambda>h. snd (NewLoader env load p h)) ^^ k) ho = ho"
    by (induction k) (simp_all add: NewLoader_occupied(2) [OF rec assms(3,2,1,4)])
  then show ?thesis
    using NewLoader_occupied(1) [OF rec assms(3,2,1,4)] by simp
qed

lemma unusable_pin_stops_every_start_witness:
  "isl (fst (NewLoader (sc_lenv\<lparr>le_open := False\<rparr>) sc_load ''/sys/fs/bpf/v''
     (((\<lambda>h. snd (NewLoader (sc_lenv\<lparr>le_open := False\<rparr>) sc_load ''/sys/fs/bpf/v'' h)) ^^ 5)
        (sc_host (Pin_Map (Verdicts []))))))"
  by (rule unusable_pin_stops_every_start [OF sc_host_idle(2)])
    (simp_all add: pinned_def sc_host_def pin_documented_def sc_lenv_def)

section \<open>Restarting\<close>

lemma restarted:
  assumes run: "running st ho" and close: "clean_close cenv"
    and l: "ld_bprmLink l" "ld_killLink l" "ld_exitLink l"
    and doc: "load_documented n load" "pin_documented lenv" and p: "p \<noteq> ''''"
    and start: "NewLoader lenv load p (snd (Close cenv l ho)) = (Inr l', ho')"
  shows "running ((fresh_kmaps n)\<lparr>verdict_map := verdict_map st\<rparr>) ho'"
    "snd (Close cenv l ho) = sc_host (Pin_Map (Verdicts (verdict_map st)))"
proof -
  let ?m = "verdict_map st"
  show closed: "snd (Close cenv l ho) = sc_host (Pin_Map (Verdicts ?m))"
    by (simp add: Close_running [OF run close l] sc_host_def)
  note idle = sc_host_idle(2) [of "Verdicts ?m"]
  have pin: "ho_pin (sc_host (Pin_Map (Verdicts ?m))) = Pin_Map (Verdicts ?m)"
    by (simp add: sc_host_def)
  have ok: "le_stat lenv \<and> le_open lenv \<and> load (Some (Verdicts ?m)) \<noteq> None"
    using NewLoader_isl_iff [OF idle doc, of p] start p pin unfolding closed by simp
  then have rec: "recover_pin lenv p (sc_host (Pin_Map (Verdicts ?m)))
      = (Some (Verdicts ?m), sc_host (Pin_Map (Verdicts ?m)))"
    using recover_verdicts [OF pin p] by simp
  have "load (Some (Verdicts ?m)) = Some ((fresh_kmaps n)\<lparr>verdict_map := ?m\<rparr>)"
    using ok doc(1) unfolding load_documented_def by (metis empty_iff insert_iff)
  then show "running ((fresh_kmaps n)\<lparr>verdict_map := ?m\<rparr>) ho'"
    using NewLoader_running [OF start [unfolded closed] rec _ p] by simp
qed

text \<open>
  C16: verdicts survive a restart: after any run of the kernel and the daemon, an orderly
  \<open>Close\<close> and a start that succeeds, the kernel works on exactly the verdicts it had, with
  all other maps as loaded; between the two nothing is denied.
\<close>
theorem restart_keeps_verdicts:
  assumes "running st ho" "clean_close cenv"
    and "ld_bprmLink l" "ld_killLink l" "ld_exitLink l"
    and "load_documented n load" "pin_documented lenv" "p \<noteq> ''''"
    and "NewLoader lenv load p (snd (Close cenv l (host_run ops ho))) = (Inr l', ho')"
  shows "running ((fresh_kmaps n)\<lparr>verdict_map := verdict_map (krun ops st)\<rparr>) ho'
    \<and> host_exec env bprm (snd (Close cenv l (host_run ops ho))) = 0"
  using restarted [OF running_run [OF assms(1)] assms(2-9)]
  by (simp add: host_exec_def sc_host_def)

definition sc_up :: "kmaps \<Rightarrow> host" where
  "sc_up st = \<lparr>ho_pin = Pin_Loaded, ho_objs = Some st, ho_bprm = True, ho_kill = True,
     ho_exit = True\<rparr>"

definition sc_loader :: Loader where
  "sc_loader = \<lparr>ld_bprmLink = True, ld_killLink = True, ld_exitLink = True, ld_pinPath = ''/v''\<rparr>"

definition sc_cenv :: close_env where
  "sc_cenv = \<lparr>ce_exit = True, ce_kill = True, ce_bprm = True, ce_objs = True\<rparr>"

lemma sc_up_running: "running st (sc_up st)"
  by (simp add: running_def sc_up_def)

lemma sc_cenv_clean: "clean_close sc_cenv"
  by (simp add: clean_close_def sc_cenv_def)

lemma sc_loader_links: "ld_bprmLink sc_loader" "ld_killLink sc_loader" "ld_exitLink sc_loader"
  by (simp_all add: sc_loader_def)

definition sc_restart :: "kop list \<Rightarrow> kmaps \<Rightarrow> (start_error + Loader) \<times> host" where
  "sc_restart ops st = NewLoader sc_lenv sc_load ''/v'' (snd (Close sc_cenv sc_loader (host_run ops (sc_up st))))"

lemma sc_restart_ok: "\<exists>l'. fst (sc_restart ops st) = Inr l'"
proof -
  have "snd (Close sc_cenv sc_loader (host_run ops (sc_up st)))
      = sc_host (Pin_Map (Verdicts (verdict_map (krun ops st))))"
    by (simp add: Close_running [OF running_run [OF sc_up_running] sc_cenv_clean sc_loader_links]
        sc_host_def)
  then have "\<not> isl (fst (sc_restart ops st))"
    unfolding sc_restart_def
    by (simp only: NewLoader_isl_iff [OF sc_host_idle(2) sc_load_documented sc_lenv_documented])
      (simp add: sc_host_def sc_lenv_def sc_load_def)
  then show ?thesis by (cases "fst (sc_restart ops st)") auto
qed

lemma restart_keeps_verdicts_witness:
  "running ((fresh_kmaps 1)\<lparr>verdict_map :=
        verdict_map (krun [Block_Exec True (sc_key 1 2)] (fresh_kmaps 1))\<rparr>)
      (snd (sc_restart [Block_Exec True (sc_key 1 2)] (fresh_kmaps 1)))
    \<and> host_exec (sc_exec 11 10 2) sc_bprm
        (snd (Close sc_cenv sc_loader (host_run [Block_Exec True (sc_key 1 2)] (sc_up (fresh_kmaps 1))))) = 0"
proof -
  obtain l' where l': "fst (sc_restart [Block_Exec True (sc_key 1 2)] (fresh_kmaps 1)) = Inr l'"
    using sc_restart_ok by blast
  show ?thesis
    by (rule restart_keeps_verdicts [OF sc_up_running sc_cenv_clean sc_loader_links
          sc_load_documented sc_lenv_documented, where p = "''/v''" and l' = l'])
      (use l' in \<open>simp_all add: sc_restart_def [symmetric] prod_eq_iff\<close>)
qed

text \<open>
  The identities do not survive a restart: a chain that was denied is let through
  afterwards, for as long as the parent process executes nothing itself, unless the chain
  with the unknown parent has a BLOCK verdict of its own.
\<close>
theorem restart_lifts_blocks:
  assumes "running st ho" "clean_close cenv"
    and "ld_bprmLink l" "ld_killLink l" "ld_exitLink l"
    and "load_documented n load" "pin_documented lenv" "p \<noteq> ''''"
    and "NewLoader lenv load p (snd (Close cenv l ho)) = (Inr l', ho')"
    and "host_exec env bprm ho = - EPERM"
    and "unknown = \<lparr>ek_parent = zero_hash, ek_child = child_hash_of env bprm\<rparr>"
    and "bpf_map_lookup_elem (verdict_map st) unknown \<noteq> Some VERDICT_BLOCK"
    and "list_all (\<lambda>op. \<not> execs_as (par_pid env) op \<and> writes_key op \<noteq> Some unknown) ops"
  shows "host_exec env bprm (host_run ops ho') = 0
    \<and> bpf_map_lookup_elem (verdict_map (krun ops st)) unknown
        = bpf_map_lookup_elem (verdict_map st) unknown"
proof -
  let ?st = "(fresh_kmaps n)\<lparr>verdict_map := verdict_map st\<rparr>"
  have ops: "list_all (\<lambda>op. \<not> execs_as (par_pid env) op) ops"
    "list_all (\<lambda>op. writes_key op \<noteq> Some unknown) ops"
    using assms(13) by (auto simp: list_all_iff)
  have "unknown_to (par_pid env) ?st"
    by (simp add: unknown_to_def fresh_kmaps_def bpf_map_lookup_elem_def)
  then have "unknown_to (par_pid env) (krun ops ?st)"
    unfolding krun_def using ops(1) by (rule kunknown.run_inv)
  then have "chain_key env bprm (krun ops ?st) = unknown"
    using assms(11) by (simp add: parent_unknown_key)
  moreover have "host_exec env bprm (host_run ops ho') = fst (zask_bprm_check env bprm (krun ops ?st))"
    by (rule running_exec [OF running_run [OF restarted(1) [OF assms(1-9)]]])
  ultimately show ?thesis
    using assms(12) by (simp add: bprm_check_ret krun_verdict [OF ops(2)])
qed

lemma restart_lifts_blocks_witness:
  "host_exec (sc_exec 11 10 2) sc_bprm (sc_up st_block) = - EPERM
    \<and> host_exec (sc_exec 11 10 2) sc_bprm (host_run [Exec (sc_exec 12 1 3) sc_bprm]
        (snd (sc_restart [] st_block))) = 0"
proof -
  obtain l' where l': "fst (sc_restart [] st_block) = Inr l'" using sc_restart_ok by blast
  have start: "NewLoader sc_lenv sc_load ''/v'' (snd (Close sc_cenv sc_loader (sc_up st_block)))
      = (Inr l', snd (sc_restart [] st_block))"
    using l' by (simp add: sc_restart_def host_run_def prod_eq_iff)
  have denied: "host_exec (sc_exec 11 10 2) sc_bprm (sc_up st_block) = - EPERM"
    by (simp add: running_exec [OF sc_up_running] bprm_check_ret)
  have "host_exec (sc_exec 11 10 2) sc_bprm
      (host_run [Exec (sc_exec 12 1 3) sc_bprm] (snd (sc_restart [] st_block))) = 0
    \<and> bpf_map_lookup_elem (verdict_map (krun [Exec (sc_exec 12 1 3) sc_bprm] st_block)) (sc_key 0 2)
        = bpf_map_lookup_elem (verdict_map st_block) (sc_key 0 2)"
    by (rule restart_lifts_blocks [OF sc_up_running sc_cenv_clean sc_loader_links
          sc_load_documented sc_lenv_documented _ start denied])
      (simp_all add: sc_key_def)
  with denied show ?thesis by simp
qed

section \<open>Reading\<close>

text \<open>The ring buffer hands out the records of these events, in this order.\<close>

definition hands_out :: "read_turn list \<Rightarrow> event list \<Rightarrow> bool" where
  "hands_out ts evs \<longleftrightarrow>
     list_all2 (\<lambda>raw ev. \<exists>pad. length pad = 5 \<and> raw = event_bytes pad ev) (records ts) evs"

lemma hands_out_decoded:
  assumes "hands_out ts evs" "list_all event_wf evs"
  shows "decoded (records ts) = evs"
proof (rule decoded_events)
  have "list_all2 (\<lambda>raw ev. event_wf ev \<and> (\<exists>pad. length pad = 5 \<and> raw = event_bytes pad ev))
      (records ts) evs"
    using assms by (auto simp: hands_out_def list_all2_conv_all_nth list_all_length)
  then show "list_all2 (\<lambda>raw ev. DecodeEvent raw = Inr ev) (records ts) evs"
    by (rule list_all2_mono) (auto dest!: decode_event_bytes [where rest = "[]"])
qed

text \<open>
  C19: the channel is a queue: whatever the kernel programs submit in any run reaches the
  daemon unchanged and in order. The events sent so far are a prefix of the submitted ones,
  whatever reads fail in between, and all of them as long as nothing stops the loop.
\<close>
theorem reader_delivers:
  assumes "reachable n st" "hands_out ts (events st)"
  shows "prefix (snd (Run ts [])) (events st)
    \<and> (list_all (\<lambda>t. \<not> stops t) ts \<longrightarrow> Run ts [] = (Looping, events st))"
proof -
  have d: "decoded (records ts) = events st"
    using hands_out_decoded [OF assms(2)] reachable_kmaps_wf [OF assms(1)]
    by (simp add: kmaps_wf_def)
  have "prefix (snd (Run ts [])) (decoded (records ts))"
    by (simp add: Run_eq decoded_prefix records_takeWhile_prefix)
  moreover have "list_all (\<lambda>t. \<not> stops t) ts \<longrightarrow> Run ts [] = (Looping, decoded (records ts))"
    by (simp add: Run_all)
  ultimately show ?thesis using d by simp
qed

definition sc_turn :: "read_result \<Rightarrow> read_turn" where
  "sc_turn r = \<lparr>rt_ctx_done = False, rt_read = r, rt_sent = True\<rparr>"

definition sc_turns :: "event list \<Rightarrow> read_turn list" where
  "sc_turns evs = sc_turn Err_Other # map (\<lambda>ev. sc_turn (Record (event_bytes [0, 0, 0, 0, 0] ev))) evs"

lemma records_sc_turns: "records (sc_turns evs) = map (event_bytes [0, 0, 0, 0, 0]) evs"
  unfolding sc_turns_def by (induction evs) (simp_all add: sc_turn_def)

lemma sc_turns_go_on: "list_all (\<lambda>t. \<not> stops t) (sc_turns evs)"
  by (auto simp: sc_turns_def stops_def sc_turn_def list_all_iff)

lemma reader_delivers_witness:
  "Run (sc_turns (events (krun sc_ops (fresh_kmaps 1)))) []
     = (Looping, events (krun sc_ops (fresh_kmaps 1)))"
proof -
  have "reachable 1 (krun sc_ops (fresh_kmaps 1))"
    by (rule reachable_krun [OF reachable.loaded]) (simp add: sc_ops_def)
  moreover have "hands_out (sc_turns evs) evs" for evs
    by (auto simp: hands_out_def records_sc_turns list_all2_conv_all_nth
        intro!: exI [of _ "[0, 0, 0, 0, 0]"])
  ultimately show ?thesis
    using reader_delivers [of 1 "krun sc_ops (fresh_kmaps 1)"
        "sc_turns (events (krun sc_ops (fresh_kmaps 1)))"] sc_turns_go_on by blast
qed

text \<open>
  The loop returns exactly when a turn stops it: the context is over at its start or at
  the send, or the reader is closed. What follows is not read. A reader that keeps failing
  otherwise keeps it busy for ever.
\<close>
theorem reader_returns:
  "(fst (Run ts out) = Returned \<longleftrightarrow> list_ex stops ts)
    \<and> (fst (Run ts out) = Returned \<longrightarrow> Run (ts @ ts') out = Run ts out)
    \<and> Run (replicate k \<lparr>rt_ctx_done = False, rt_read = Err_Other, rt_sent = s\<rparr>) out = (Looping, out)"
proof (intro conjI impI)
  show ret: "fst (Run ts out) = Returned \<longleftrightarrow> list_ex stops ts" by (simp add: Run_eq)
  show "Run (ts @ ts') out = Run ts out" if stopped: "fst (Run ts out) = Returned"
  proof -
    obtain t where "t \<in> set ts" "stops t" using stopped ret by (auto simp: list_ex_iff)
    then show ?thesis by (auto simp: Run_eq list_ex_iff)
  qed
  show "Run (replicate k \<lparr>rt_ctx_done = False, rt_read = Err_Other, rt_sent = s\<rparr>) out = (Looping, out)"
    by (induction k) simp_all
qed

lemma reader_returns_witness:
  "Run ([sc_turn Err_Other, sc_turn Err_Closed] @ [sc_turn (Record [])]) []
     = Run [sc_turn Err_Other, sc_turn Err_Closed] []"
  using reader_returns [of "[sc_turn Err_Other, sc_turn Err_Closed]" "[]" "[sc_turn (Record [])]" 0 True]
  by (simp add: sc_turn_def)

end
