(* ===== verification/Audit_Log.thy ===== *)
theory Audit_Log
  imports AI_Verdict Go_Text
begin

text \<open>
  \<open>internal/audit/audit.go\<close>: the audit log. Events are sent to a buffered channel without
  blocking; one goroutine takes them out and hands each to every writer. A writer is a state
  with the operations \<open>Write\<close> and \<open>Close\<close> of the interface \<open>Writer\<close>, which are arguments;
  the text format and the opening of outputs are modelled here, the lines of the JSON log in
  \<open>Audit_Json\<close>; the encoding of Parquet is its library's.
\<close>

section \<open>Events\<close>

text \<open>The zero time is \<open>None\<close>.\<close>

record AuditEvent =
  ae_Timestamp :: "int option"
  ae_Argv :: string
  ae_ScriptPath :: string
  ae_Action :: string
  ae_RuleName :: string
  ae_Mode :: string
  ae_Reasoning :: string
  ae_AIModel :: string
  ae_Hash :: string
  ae_Inode :: u64
  ae_CgroupID :: u64
  ae_AIRisk :: float64
  ae_Pid :: u32
  ae_Ppid :: u32
  ae_Uid :: u32
  ae_DeviceID :: u32
  ae_Tier :: nat

section \<open>The logger\<close>

text \<open>The interface \<open>Writer\<close>: whether the call succeeded, and the writer after it.\<close>

record 'w Writer =
  wr_Write :: "AuditEvent \<Rightarrow> 'w \<Rightarrow> bool \<times> 'w"
  wr_Close :: "'w \<Rightarrow> bool \<times> 'w"

record 'w AuditLogger =
  al_writers :: "'w list"
  al_ch :: "AuditEvent list"
  al_cap :: nat
  al_closed :: bool

definition NewAuditLogger :: "'w list \<Rightarrow> int \<Rightarrow> 'w AuditLogger" where
  "NewAuditLogger writers bufSize0 =
     (let bufSize = (if bufSize0 \<le> 0 then 1024 else bufSize0)
      in \<lparr>al_writers = writers, al_ch = [], al_cap = nat bufSize, al_closed = False\<rparr>)"

definition stamp :: "int \<Rightarrow> AuditEvent \<Rightarrow> AuditEvent" where
  "stamp now ev = (if ae_Timestamp ev = None then ev\<lparr>ae_Timestamp := Some now\<rparr> else ev)"

definition enqueue :: "AuditEvent \<Rightarrow> 'w AuditLogger \<Rightarrow> 'w AuditLogger" where
  "enqueue ev al =
     (if length (al_ch al) < al_cap al then al\<lparr>al_ch := al_ch al @ [ev]\<rparr> else al)"

text \<open>\<open>None\<close> is the panic of a send on a closed channel, which the default does not prevent.\<close>

definition Emit :: "int \<Rightarrow> AuditEvent \<Rightarrow> 'w AuditLogger \<Rightarrow> 'w AuditLogger option" where
  "Emit now ev al = (if al_closed al then None else Some (enqueue (stamp now ev) al))"

text \<open>One turn of \<open>run\<close>: an event goes to every writer, errors are only logged.\<close>

definition write_all :: "'w Writer \<Rightarrow> AuditEvent \<Rightarrow> 'w list \<Rightarrow> 'w list" where
  "write_all W ev ws = map (\<lambda>w. snd (wr_Write W ev w)) ws"

definition run_turn :: "'w Writer \<Rightarrow> 'w AuditLogger \<Rightarrow> 'w AuditLogger" where
  "run_turn W al =
     (case al_ch al of
        [] \<Rightarrow> al
      | ev # rest \<Rightarrow> al\<lparr>al_ch := rest, al_writers := write_all W ev (al_writers al)\<rparr>)"

text \<open>What \<open>run\<close> does until the closed channel is empty.\<close>

fun drain_all :: "'w Writer \<Rightarrow> AuditEvent list \<Rightarrow> 'w list \<Rightarrow> 'w list" where
  "drain_all W [] ws = ws"
| "drain_all W (ev # evs) ws = drain_all W evs (write_all W ev ws)"

text \<open>The loop of \<open>Close\<close> over the writers, with the position of the first that failed.\<close>

fun close_writers :: "'w Writer \<Rightarrow> nat \<Rightarrow> nat option \<Rightarrow> 'w list \<Rightarrow> nat option \<times> 'w list" where
  "close_writers W i firstErr [] = (firstErr, [])"
| "close_writers W i firstErr (w # ws) =
     (let (ok, w') = wr_Close W w;
          err = (if \<not> ok \<and> firstErr = None then Some i else firstErr);
          (final, ws') = close_writers W (i + 1) err ws
      in (final, w' # ws'))"

definition Close_logger :: "'w Writer \<Rightarrow> 'w AuditLogger \<Rightarrow> (nat option \<times> 'w AuditLogger) option" where
  "Close_logger W al =
     (if al_closed al then None
      else let ws = drain_all W (al_ch al) (al_writers al);
               (err, ws') = close_writers W 0 None ws
           in Some (err, al\<lparr>al_ch := [], al_closed := True, al_writers := ws'\<rparr>))"

text \<open>The engine's sends and the goroutine's turns, in any order.\<close>

datatype audit_op = Emit_Op int AuditEvent | Run_Turn

fun audit_step :: "'w Writer \<Rightarrow> audit_op \<Rightarrow> 'w AuditLogger \<Rightarrow> 'w AuditLogger" where
  "audit_step W (Emit_Op now ev) al = (case Emit now ev al of None \<Rightarrow> al | Some al' \<Rightarrow> al')"
| "audit_step W Run_Turn al = run_turn W al"

section \<open>Text\<close>

text \<open>\<open>%-ns\<close> pads to \<open>n\<close> runes.\<close>

definition pad_right :: "nat \<Rightarrow> string \<Rightarrow> string" where
  "pad_right n s = s @ replicate (n - length (runes_of s)) (CHR '' '')"

definition text_prefix :: "string \<Rightarrow> AuditEvent \<Rightarrow> string" where
  "text_prefix timestamp ev = timestamp @ ''  '' @ pad_right 8 (ae_Action ev)
     @ ''  tier='' @ decimal (ae_Tier ev) @ ''  pid='' @ pad_right 6 (decimal (unat (ae_Pid ev)))
     @ ''  uid='' @ pad_right 5 (decimal (unat (ae_Uid ev))) @ ''  argv=''"

text \<open>The line \<open>TextWriter\<close> writes; \<open>timestamp\<close> is the time in RFC 3339.\<close>

definition text_line :: "string \<Rightarrow> AuditEvent \<Rightarrow> string" where
  "text_line timestamp ev =
     (let script = (if ae_ScriptPath ev \<noteq> '''' then '' script='' @ ae_ScriptPath ev else '''');
          rule = (if ae_RuleName ev \<noteq> '''' then '' rule='' @ ae_RuleName ev else '''')
      in text_prefix timestamp ev @ ae_Argv ev @ script @ rule @ ''  mode='' @ ae_Mode ev
         @ [newline])"

section \<open>Outputs\<close>

datatype stream = Stdout | Stderr | Path string

definition openOutput :: "string \<Rightarrow> stream" where
  "openOutput path =
     (if path = ''stdout'' then Stdout else if path = ''stderr'' then Stderr else Path path)"

text \<open>The files as their contents. JSON and text are appended, Parquet truncates.\<close>

type_synonym files = "string \<Rightarrow> string option"

definition open_append :: "string \<Rightarrow> files \<Rightarrow> files" where
  "open_append path fs = (case fs path of None \<Rightarrow> fs(path \<mapsto> '''') | Some _ \<Rightarrow> fs)"

definition open_truncate :: "string \<Rightarrow> files \<Rightarrow> files" where
  "open_truncate path fs = fs(path \<mapsto> '''')"

definition NewTextWriter :: "bool \<Rightarrow> string \<Rightarrow> files \<Rightarrow> (stream \<times> files) option" where
  "NewTextWriter sys_ok path fs =
     (case openOutput path of
        Path p \<Rightarrow> if sys_ok then Some (Path p, open_append p fs) else None
      | s \<Rightarrow> Some (s, fs))"

definition NewParquetWriter :: "bool \<Rightarrow> string \<Rightarrow> files \<Rightarrow> (stream \<times> files) option" where
  "NewParquetWriter sys_ok path fs =
     (if sys_ok then Some (Path path, open_truncate path fs) else None)"

text \<open>
  The writers on their outputs. A call of the system fails or not; the standard streams are
  wrapped so that closing them does nothing.
\<close>

record text_writer =
  tw_stream :: stream
  tw_out :: string
  tw_sys_ok :: bool

definition write_out :: "string \<Rightarrow> text_writer \<Rightarrow> bool \<times> text_writer" where
  "write_out s w = (if tw_sys_ok w then (True, w\<lparr>tw_out := tw_out w @ s\<rparr>) else (False, w))"

definition close_out :: "text_writer \<Rightarrow> bool \<times> text_writer" where
  "close_out w = ((case tw_stream w of Path _ \<Rightarrow> tw_sys_ok w | _ \<Rightarrow> True), w)"

text \<open>The timestamps are formatted by \<open>rfc3339\<close>, the objects encoded by \<open>encode\<close>, which can fail.\<close>

definition TextWriter :: "(int option \<Rightarrow> string) \<Rightarrow> text_writer Writer" where
  "TextWriter rfc3339 =
     \<lparr>wr_Write = (\<lambda>ev. write_out (text_line (rfc3339 (ae_Timestamp ev)) ev)), wr_Close = close_out\<rparr>"

definition JSONWriter :: "(AuditEvent \<Rightarrow> string option) \<Rightarrow> text_writer Writer" where
  "JSONWriter encode =
     \<lparr>wr_Write = (\<lambda>ev w. case encode ev of None \<Rightarrow> (False, w) | Some line \<Rightarrow> write_out line w),
      wr_Close = close_out\<rparr>"

text \<open>The Parquet writer is the library's with its file, which is closed whatever happens.\<close>

record 'p parquet_writer =
  pw_pw :: 'p
  pw_f_open :: bool
  pw_f_close_ok :: bool

definition ParquetWriter :: "'p Writer \<Rightarrow> 'p parquet_writer Writer" where
  "ParquetWriter lib =
     \<lparr>wr_Write = (\<lambda>ev w. let (ok, p) = wr_Write lib ev (pw_pw w) in (ok, w\<lparr>pw_pw := p\<rparr>)),
      wr_Close = (\<lambda>w. let (ok, p) = wr_Close lib (pw_pw w);
                           w' = w\<lparr>pw_pw := p, pw_f_open := False\<rparr>
                       in if \<not> ok then (False, w') else (pw_f_close_ok w, w'))\<rparr>"

section \<open>Lemmas\<close>

interpretation audit_queue: bounded_queue enqueue al_ch al_cap
  by unfold_locales (simp_all add: enqueue_def)

lemma enqueue_frame [simp]:
  "al_writers (enqueue ev al) = al_writers al" "al_closed (enqueue ev al) = al_closed al"
  by (simp_all add: enqueue_def)

text \<open>The writer after the events, each write whether or not it succeeds.\<close>

definition written :: "'w Writer \<Rightarrow> AuditEvent list \<Rightarrow> 'w \<Rightarrow> 'w" where
  "written W evs w = fold (\<lambda>ev w. snd (wr_Write W ev w)) evs w"

lemma written_Nil [simp]: "map (written W []) ws = ws"
  by (induction ws) (simp_all add: written_def)

lemma drain_all_written: "drain_all W evs ws = map (written W evs) ws"
proof (induction evs arbitrary: ws)
qed (simp_all add: written_def write_all_def)

lemma close_writers_snd: "snd (close_writers W i e ws) = map (\<lambda>w. snd (wr_Close W w)) ws"
  by (induction ws arbitrary: i e) (simp_all add: case_prod_unfold Let_def)

lemma close_writers_fst:
  "fst (close_writers W i e ws) = None \<longleftrightarrow> e = None \<and> list_all (\<lambda>w. fst (wr_Close W w)) ws"
  by (induction ws arbitrary: i e) (auto simp: case_prod_unfold Let_def)

text \<open>After the text writer's writes its output is the lines of the events, if no write failed.\<close>

lemma text_written:
  "tw_sys_ok w \<Longrightarrow> written (TextWriter fmt) evs w
     = w\<lparr>tw_out := tw_out w @ concat (map (\<lambda>ev. text_line (fmt (ae_Timestamp ev)) ev) evs)\<rparr>"
  by (induction evs arbitrary: w) (simp_all add: written_def TextWriter_def write_out_def)

lemma parquet_file_closed: "\<not> pw_f_open (snd (wr_Close (ParquetWriter lib) w))"
  by (simp add: ParquetWriter_def Let_def case_prod_unfold)

text \<open>Taken events are written or waiting, in order.\<close>

definition audit_books :: "'w Writer \<Rightarrow> 'w list \<Rightarrow> AuditEvent list \<Rightarrow> 'w AuditLogger \<Rightarrow> bool" where
  "audit_books W ws taken al \<longleftrightarrow>
     (\<exists>evs. taken = evs @ al_ch al \<and> al_writers al = map (written W evs) ws)"

text \<open>The events a run takes: those that find room.\<close>

fun taken_by :: "'w Writer \<Rightarrow> audit_op list \<Rightarrow> 'w AuditLogger \<Rightarrow> AuditEvent list" where
  "taken_by W [] al = []"
| "taken_by W (op # ops) al =
     (case op of
        Emit_Op now ev \<Rightarrow>
          if \<not> al_closed al \<and> length (al_ch al) < al_cap al then [stamp now ev] else []
      | Run_Turn \<Rightarrow> []) @ taken_by W ops (audit_step W op al)"

lemma audit_step_books:
  assumes "audit_books W ws taken al"
  shows "audit_books W ws (taken @ taken_by W [op] al) (audit_step W op al)"
proof (cases op)
  case (Emit_Op now ev)
  then show ?thesis using assms by (auto simp: audit_books_def Emit_def enqueue_def)
next
  case Run_Turn
  show ?thesis
  proof (cases "al_ch al")
    case Nil
    then show ?thesis using assms Run_Turn by (simp add: run_turn_def audit_books_def)
  next
    case (Cons ev rest)
    obtain evs where evs: "taken = evs @ al_ch al" "al_writers al = map (written W evs) ws"
      using assms by (auto simp: audit_books_def)
    then have "taken = (evs @ [ev]) @ rest"
      "write_all W ev (al_writers al) = map (written W (evs @ [ev])) ws"
      using Cons by (simp_all add: write_all_def written_def)
    then show ?thesis using Run_Turn Cons by (auto simp: run_turn_def audit_books_def)
  qed
qed

lemma audit_run_books:
  "audit_books W ws taken al \<Longrightarrow>
     audit_books W ws (taken @ taken_by W ops al) (fold (audit_step W) ops al)"
proof (induction ops arbitrary: taken al)
  case Nil
  then show ?case by simp
next
  case (Cons op ops)
  from Cons.IH [OF audit_step_books [OF Cons.prems, of op]]
  show ?case by simp
qed

lemma audit_step_open: "\<not> al_closed al \<Longrightarrow> \<not> al_closed (audit_step W op al)"
  by (cases op) (auto simp: Emit_def run_turn_def split: list.split)

lemma audit_run_open: "\<not> al_closed al \<Longrightarrow> \<not> al_closed (fold (audit_step W) ops al)"
  by (induction ops arbitrary: al) (auto simp: audit_step_open)

end
