(* ===== verification/Audit_Json.thy ===== *)
theory Audit_Json
  imports Audit_Log Json_Text
begin

text \<open>
  \<open>internal/audit/audit.go\<close>: the lines of the JSON log. \<open>audit_json\<close> is what
  \<open>json.Encoder.Encode\<close> writes for an \<open>AuditEvent\<close>, by the tags of the struct; the printing of
  a time and of a \<open>float64\<close> are arguments. The lemmas read a line, and a log, back.
\<close>

section \<open>Writing\<close>

definition text_member :: "string \<Rightarrow> string \<Rightarrow> string \<times> string" where
  "text_member name s = (name, json_string s)"

text \<open>A member tagged \<open>omitempty\<close>.\<close>

definition omit_empty :: "string \<Rightarrow> string \<Rightarrow> (string \<times> string) list" where
  "omit_empty name s = (if s = '''' then [] else [text_member name s])"

definition word_member :: "string \<Rightarrow> 'a :: len word \<Rightarrow> string \<times> string" where
  "word_member name w = (name, decimal (unat w))"

definition risk_member :: "(rat \<Rightarrow> string) \<Rightarrow> rat \<Rightarrow> (string \<times> string) list" where
  "risk_member fmt x = (if x = 0 then [] else [(''ai_risk'', fmt x)])"

definition event_members :: "(rat \<Rightarrow> string) \<Rightarrow> string \<Rightarrow> rat \<Rightarrow> AuditEvent \<Rightarrow> (string \<times> string) list" where
  "event_members fmt time risk ev =
     [text_member ''timestamp'' time, text_member ''argv'' (ae_Argv ev)]
     @ omit_empty ''script_path'' (ae_ScriptPath ev)
     @ [text_member ''action'' (ae_Action ev)]
     @ omit_empty ''rule_name'' (ae_RuleName ev)
     @ [text_member ''mode'' (ae_Mode ev)]
     @ omit_empty ''reasoning'' (ae_Reasoning ev)
     @ omit_empty ''ai_model'' (ae_AIModel ev)
     @ omit_empty ''hash'' (ae_Hash ev)
     @ [word_member ''inode'' (ae_Inode ev), word_member ''cgroup_id'' (ae_CgroupID ev)]
     @ risk_member fmt risk
     @ [word_member ''pid'' (ae_Pid ev), word_member ''ppid'' (ae_Ppid ev),
        word_member ''uid'' (ae_Uid ev), word_member ''device_id'' (ae_DeviceID ev),
        (''tier'', decimal (ae_Tier ev))]"

text \<open>A time outside the years RFC 3339 has and a risk that is no number are errors.\<close>

definition audit_json :: "(int option \<Rightarrow> string option) \<Rightarrow> (rat \<Rightarrow> string) \<Rightarrow> AuditEvent \<Rightarrow> string option" where
  "audit_json time fmt ev =
     (case (time (ae_Timestamp ev), ae_AIRisk ev) of
        (Some t, Fin risk) \<Rightarrow> Some (json_object (event_members fmt t risk ev) @ [newline])
      | _ \<Rightarrow> None)"

section \<open>Reading\<close>

definition text_value :: "string \<Rightarrow> string \<Rightarrow> string \<times> json" where
  "text_value name s = (name, J_Str (clean s))"

definition omit_empty_value :: "string \<Rightarrow> string \<Rightarrow> (string \<times> json) list" where
  "omit_empty_value name s = (if s = '''' then [] else [text_value name s])"

definition word_value :: "string \<Rightarrow> 'a :: len word \<Rightarrow> string \<times> json" where
  "word_value name w = (name, number_of (unat w))"

definition event_value :: "string \<Rightarrow> rat \<Rightarrow> AuditEvent \<Rightarrow> json" where
  "event_value time risk ev = J_Obj (
     [text_value ''timestamp'' time, text_value ''argv'' (ae_Argv ev)]
     @ omit_empty_value ''script_path'' (ae_ScriptPath ev)
     @ [text_value ''action'' (ae_Action ev)]
     @ omit_empty_value ''rule_name'' (ae_RuleName ev)
     @ [text_value ''mode'' (ae_Mode ev)]
     @ omit_empty_value ''reasoning'' (ae_Reasoning ev)
     @ omit_empty_value ''ai_model'' (ae_AIModel ev)
     @ omit_empty_value ''hash'' (ae_Hash ev)
     @ [word_value ''inode'' (ae_Inode ev), word_value ''cgroup_id'' (ae_CgroupID ev)]
     @ (if risk = 0 then [] else [(''ai_risk'', J_Num (Some risk))])
     @ [word_value ''pid'' (ae_Pid ev), word_value ''ppid'' (ae_Ppid ev),
        word_value ''uid'' (ae_Uid ev), word_value ''device_id'' (ae_DeviceID ev),
        (''tier'', number_of (ae_Tier ev))])"

text \<open>What is documented of the printing of a \<open>float64\<close>: it reads back as the same number.\<close>

definition prints :: "(rat \<Rightarrow> string) \<Rightarrow> rat \<Rightarrow> bool" where
  "prints fmt x \<longleftrightarrow> (\<exists>n. scan_number (fmt x) = Some (n, []) \<and> round64 (number_value n) = Some x)"

section \<open>Lemmas: one line\<close>

lemma list_all2_two: "list_all2 P xs ys \<Longrightarrow> list_all2 P xs' ys' \<Longrightarrow> list_all2 P (xs @ xs') (ys @ ys')"
  by (rule list_all2_appendI)

lemma event_names [simp]:
  "clean ''timestamp'' = ''timestamp''" "clean ''argv'' = ''argv''" "clean ''script_path'' = ''script_path''"
  "clean ''action'' = ''action''" "clean ''rule_name'' = ''rule_name''" "clean ''mode'' = ''mode''"
  "clean ''ai_model'' = ''ai_model''" "clean ''hash'' = ''hash''" "clean ''reasoning'' = ''reasoning''"
  "clean ''inode'' = ''inode''" "clean ''cgroup_id'' = ''cgroup_id''" "clean ''ai_risk'' = ''ai_risk''"
  "clean ''pid'' = ''pid''" "clean ''ppid'' = ''ppid''" "clean ''uid'' = ''uid''"
  "clean ''device_id'' = ''device_id''" "clean ''tier'' = ''tier''"
  by (rule clean_ascii; simp)+

lemma member_texts [simp]:
  "clean name = name \<Longrightarrow> denotes_member 0 (text_member name s) (text_value name s)"
  "clean name = name \<Longrightarrow> list_all2 (denotes_member 0) (omit_empty name s) (omit_empty_value name s)"
  "clean name = name \<Longrightarrow> denotes_member 0 (word_member name w) (word_value name w)"
  "clean name = name \<Longrightarrow> denotes_member 0 (name, decimal n) (name, number_of n)"
  by (simp_all add: text_member_def text_value_def omit_empty_def omit_empty_value_def
      word_member_def word_value_def json_text.member json_number.member)

lemma denotes_event:
  assumes "prints fmt risk"
  shows "denotes 1 (json_object (event_members fmt time risk ev)) (event_value time risk ev)"
proof -
  have "denotes 0 (fmt risk) (J_Num (Some risk))"
    using assms denotes_number by (fastforce simp: prints_def)
  then have "list_all2 (denotes_member 0) (risk_member fmt risk)
      (if risk = 0 then [] else [(''ai_risk'', J_Num (Some risk))])"
    by (simp add: risk_member_def denotes_member_def)
  then show ?thesis
    unfolding event_members_def event_value_def One_nat_def
    by (intro denotes_object list_all2_two) simp_all
qed

lemma one_line_event:
  "one_line (fmt risk) \<Longrightarrow> one_line (json_object (event_members fmt time risk ev))"
  by (rule one_line_object)
    (simp add: event_members_def text_member_def omit_empty_def word_member_def risk_member_def
      one_line_json_string one_line_decimal)

section \<open>Lemmas: a log\<close>

text \<open>The lines of a text that ends with a newline.\<close>

fun text_lines :: "string \<Rightarrow> string list" where
  "text_lines [] = []"
| "text_lines (c # s) =
     (if c = newline then [] # text_lines s
      else case text_lines s of [] \<Rightarrow> [[c]] | l # ls \<Rightarrow> (c # l) # ls)"

lemma text_lines_line: "newline \<notin> set l \<Longrightarrow> text_lines (l @ newline # s) = l # text_lines s"
  by (induction l) auto

lemma text_lines_concat:
  "\<forall>l \<in> set ls. newline \<notin> set l \<Longrightarrow> text_lines (concat (map (\<lambda>l. l @ [newline]) ls)) = ls"
  by (induction ls) (simp_all add: text_lines_line)

lemma one_line_newline: "one_line s \<Longrightarrow> newline \<notin> set s"
  by (auto simp: one_line_def list_all_iff newline_def)

lemma json_written:
  "tw_sys_ok w \<Longrightarrow> written (JSONWriter enc) evs w
     = w\<lparr>tw_out := tw_out w @ concat (map the (filter (\<lambda>l. l \<noteq> None) (map enc evs)))\<rparr>"
  by (induction evs arbitrary: w) (auto simp: written_def JSONWriter_def write_out_def)

end
