(* ===== verification/Health.thy ===== *)
theory Health
  imports Json_Text
begin

text \<open>
  \<open>internal/health/health.go\<close>: the two flags of the health server, the answers of its endpoints
  as they are written to the client, and the start and the end of serving. Arguments are the
  uptime, already a string, and what the network and \<open>http.Server\<close> return.
\<close>

section \<open>The server\<close>

record Server =
  sv_ebpfReady :: bool
  sv_rbReady :: bool

record Status =
  su_Status :: string
  su_Daemon :: string
  su_Uptime :: string
  su_EBPFLoaded :: bool
  su_RingBufActive :: bool

definition NewServer :: Server where
  "NewServer = \<lparr>sv_ebpfReady = False, sv_rbReady = False\<rparr>"

definition SetEBPFReady :: "bool \<Rightarrow> Server \<Rightarrow> Server" where
  "SetEBPFReady ready s = s\<lparr>sv_ebpfReady := ready\<rparr>"

definition SetRingBufReady :: "bool \<Rightarrow> Server \<Rightarrow> Server" where
  "SetRingBufReady ready s = s\<lparr>sv_rbReady := ready\<rparr>"

definition StatusOK :: nat where "StatusOK = 200"
definition StatusServiceUnavailable :: nat where "StatusServiceUnavailable = 503"

definition handleHealthz :: "string \<Rightarrow> Server \<Rightarrow> nat \<times> Status" where
  "handleHealthz uptime s =
     (StatusOK, \<lparr>su_Status = ''ok'', su_Daemon = ''running'', su_Uptime = uptime,
        su_EBPFLoaded = sv_ebpfReady s, su_RingBufActive = sv_rbReady s\<rparr>)"

definition handleReadyz :: "string \<Rightarrow> Server \<Rightarrow> nat \<times> Status" where
  "handleReadyz uptime s =
     (let ebpfOK = sv_ebpfReady s;
          rbOK = sv_rbReady s;
          status = \<lparr>su_Status = ''ok'', su_Daemon = ''running'', su_Uptime = uptime,
            su_EBPFLoaded = ebpfOK, su_RingBufActive = rbOK\<rparr>
      in if \<not> ebpfOK \<or> \<not> rbOK
         then (StatusServiceUnavailable, status\<lparr>su_Status := ''not ready''\<rparr>)
         else (StatusOK, status))"

section \<open>Answers\<close>

definition status_json :: "Status \<Rightarrow> string" where
  "status_json st =
     json_object [(''status'', json_string (su_Status st)), (''daemon'', json_string (su_Daemon st)),
                  (''uptime'', json_string (su_Uptime st)), (''ebpfLoaded'', json_bool (su_EBPFLoaded st)),
                  (''ringBufActive'', json_bool (su_RingBufActive st))]"

record response =
  rp_Code :: nat
  rp_ContentType :: string
  rp_Body :: string

definition write_status :: "nat \<times> Status \<Rightarrow> response" where
  "write_status a = \<lparr>rp_Code = fst a, rp_ContentType = ''application/json'',
     rp_Body = status_json (snd a) @ [newline]\<rparr>"

text \<open>The two patterns of the multiplexer; other paths are answered by the library.\<close>

definition serve_path :: "string \<Rightarrow> Server \<Rightarrow> string \<Rightarrow> response option" where
  "serve_path uptime s path =
     (if path = ''/healthz'' then Some (write_status (handleHealthz uptime s))
      else if path = ''/readyz'' then Some (write_status (handleReadyz uptime s))
      else None)"

section \<open>Start and Shutdown\<close>

text \<open>
  The two phases of \<open>Start\<close>, which blocks while the server serves. Once \<open>http.Server\<close> has
  been shut down, \<open>Serve\<close> returns \<open>ErrServerClosed\<close> (its documentation), also when it is
  called afterwards.
\<close>

datatype serve_err = ErrServerClosed | Serve_Failed
datatype start_err = Listen_Failed | Server_Failed

definition Start_return :: "serve_err option \<Rightarrow> start_err option" where
  "Start_return e =
     (case e of
        None \<Rightarrow> Some Listen_Failed
      | Some err \<Rightarrow> if err \<noteq> ErrServerClosed then Some Server_Failed else None)"

datatype serving = Idle | Serving | Returned "start_err option"

record life =
  lf_start :: serving
  lf_shut :: bool

datatype life_op = Start_Call bool | Serve_Breaks | Shutdown_Call

fun life_step :: "life_op \<Rightarrow> life \<Rightarrow> life" where
  "life_step (Start_Call listen_ok) l =
     (if lf_start l = Idle then
        l\<lparr>lf_start := (if \<not> listen_ok then Returned (Start_return None)
                      else if lf_shut l then Returned (Start_return (Some ErrServerClosed))
                      else Serving)\<rparr>
      else l)"
| "life_step Serve_Breaks l =
     (if lf_start l = Serving then l\<lparr>lf_start := Returned (Start_return (Some Serve_Failed))\<rparr> else l)"
| "life_step Shutdown_Call l =
     l\<lparr>lf_shut := True,
       lf_start := (if lf_start l = Serving then Returned (Start_return (Some ErrServerClosed)) else lf_start l)\<rparr>"

section \<open>Reports\<close>

text \<open>The calls the daemon makes on the server.\<close>

datatype health_op = EBPF bool | RingBuf bool

fun health_step :: "health_op \<Rightarrow> Server \<Rightarrow> Server" where
  "health_step (EBPF b) s = SetEBPFReady b s"
| "health_step (RingBuf b) s = SetRingBufReady b s"

section \<open>Lemmas\<close>

definition status_value :: "Status \<Rightarrow> json" where
  "status_value st =
     J_Obj [(''status'', J_Str (clean (su_Status st))), (''daemon'', J_Str (clean (su_Daemon st))),
            (''uptime'', J_Str (clean (su_Uptime st))), (''ebpfLoaded'', J_Bool (su_EBPFLoaded st)),
            (''ringBufActive'', J_Bool (su_RingBufActive st))]"

lemma clean_status [simp]:
  "clean ''status'' = ''status''" "clean ''daemon'' = ''daemon''" "clean ''uptime'' = ''uptime''"
  "clean ''ebpfLoaded'' = ''ebpfLoaded''" "clean ''ringBufActive'' = ''ringBufActive''"
  "clean ''ok'' = ''ok''" "clean ''running'' = ''running''" "clean ''not ready'' = ''not ready''"
  by (rule clean_ascii; simp)+

interpretation status_format: json_format status_json status_value "Suc 0"
proof unfold_locales
  show "denotes (Suc 0) (status_json st) (status_value st)" for st
    unfolding status_json_def status_value_def
    by (rule denotes_object) (simp add: json_text.member json_flag.member)
qed (simp add: maxNestingDepth_def)

text \<open>The last value set, \<open>d\<close> when there is none.\<close>

fun last_ebpf :: "health_op list \<Rightarrow> bool \<Rightarrow> bool" where
  "last_ebpf [] d = d"
| "last_ebpf (EBPF b # ops) d = last_ebpf ops b"
| "last_ebpf (RingBuf b # ops) d = last_ebpf ops d"

fun last_ringbuf :: "health_op list \<Rightarrow> bool \<Rightarrow> bool" where
  "last_ringbuf [] d = d"
| "last_ringbuf (EBPF b # ops) d = last_ringbuf ops d"
| "last_ringbuf (RingBuf b # ops) d = last_ringbuf ops b"

lemma health_run:
  "sv_ebpfReady (fold health_step ops s) = last_ebpf ops (sv_ebpfReady s)"
  "sv_rbReady (fold health_step ops s) = last_ringbuf ops (sv_rbReady s)"
proof (induction ops arbitrary: s)
  case (Cons op ops)
  { case 1 show ?case by (cases op) (simp_all add: Cons.IH SetEBPFReady_def SetRingBufReady_def) }
  { case 2 show ?case by (cases op) (simp_all add: Cons.IH SetEBPFReady_def SetRingBufReady_def) }
qed simp_all

end
