(* ===== verification/Service_Properties.thy ===== *)
theory Service_Properties
  imports Audit_Json Health
begin

text \<open>
  The properties of what the daemon shows of itself: the audit log (what is written, what is
  dropped, what a text line means) and the health endpoints.
\<close>

section \<open>Audit log\<close>

text \<open>
  C36: after any interleaving of events and turns of the writing goroutine, \<open>Close\<close> leaves
  every writer with the calls \<open>Write\<close> for exactly the events that found room in the channel,
  in their order, whatever calls failed and whatever the other writers did, and then closed;
  it reports an error exactly when a writer failed to close.
\<close>
theorem audit_log_complete:
  "case Close_logger W (fold (audit_step W) ops (NewAuditLogger ws n)) of
     None \<Rightarrow> False
   | Some (err, al) \<Rightarrow>
       al_writers al
         = map (\<lambda>w. snd (wr_Close W (written W (taken_by W ops (NewAuditLogger ws n)) w))) ws
       \<and> (err = None \<longleftrightarrow>
            list_all (\<lambda>w. fst (wr_Close W (written W (taken_by W ops (NewAuditLogger ws n)) w))) ws)"
proof -
  let ?init = "NewAuditLogger ws n"
  let ?final = "fold (audit_step W) ops ?init" and ?taken = "taken_by W ops ?init"
  have "al_ch ?init = []" "al_writers ?init = ws" "\<not> al_closed ?init"
    by (simp_all add: NewAuditLogger_def Let_def)
  note init = this
  have "audit_books W ws [] ?init"
    by (simp add: audit_books_def init written_Nil)
  then have "audit_books W ws ?taken ?final"
    using audit_run_books [of W ws "[]" ?init ops] by simp
  then obtain evs where evs: "?taken = evs @ al_ch ?final" "al_writers ?final = map (written W evs) ws"
    by (auto simp: audit_books_def)
  have drained: "drain_all W (al_ch ?final) (al_writers ?final) = map (written W ?taken) ws"
    unfolding drain_all_written evs by (simp add: written_def)
  show ?thesis
    using audit_run_open [OF init(3), of W ops]
    by (simp add: Close_logger_def Let_def case_prod_unfold drained close_writers_snd
        close_writers_fst list.pred_map o_def)
qed

text \<open>
  Of a burst the goroutine does not keep up with, exactly the first events that fill the
  channel are kept, 1,024 when no size is given; the rest is dropped, and what was kept
  before is never displaced.
\<close>
theorem audit_burst_keeps_first:
  "al_ch (fold enqueue evs (NewAuditLogger ws n)) = take (nat (if n \<le> 0 then 1024 else n)) evs"
  using audit_queue.burst [of "NewAuditLogger ws n" evs]
  by (simp add: NewAuditLogger_def Let_def)

text \<open>
  After \<open>Close\<close> the logger is not silent but fatal: an event emitted by a component that
  still runs, like a second \<open>Close\<close>, panics.
\<close>
theorem emit_after_close_panics:
  assumes "Close_logger W al = Some (err, al')"
  shows "Emit now ev al' = None \<and> Close_logger W al' = None"
proof -
  have "al_closed al'"
    using assms by (auto simp: Close_logger_def Let_def case_prod_unfold split: if_splits)
  then show ?thesis by (simp add: Emit_def Close_logger_def)
qed

definition sc_audit_event :: AuditEvent where
  "sc_audit_event = \<lparr>ae_Timestamp = None, ae_Argv = ''/bin/sh'', ae_ScriptPath = '''',
     ae_Action = ''BLOCK'', ae_RuleName = '''', ae_Mode = ''lockdown'', ae_Reasoning = '''',
     ae_AIModel = '''', ae_Hash = '''', ae_Inode = 0, ae_CgroupID = 0, ae_AIRisk = Fin 0, ae_Pid = 11, ae_Ppid = 10,
     ae_Uid = 0, ae_DeviceID = 0, ae_Tier = 2\<rparr>"

definition sc_text_logger :: "text_writer AuditLogger" where
  "sc_text_logger = NewAuditLogger [\<lparr>tw_stream = Stdout, tw_out = '''', tw_sys_ok = True\<rparr>] 0"

lemma emit_after_close_panics_witness:
  "\<exists>al'. Close_logger (TextWriter (\<lambda>_. ''now'')) sc_text_logger = Some (None, al')
    \<and> Emit 0 sc_audit_event al' = None \<and> Close_logger (TextWriter (\<lambda>_. ''now'')) al' = None"
proof -
  obtain al' where c: "Close_logger (TextWriter (\<lambda>_. ''now'')) sc_text_logger = Some (None, al')"
    by (simp add: Close_logger_def sc_text_logger_def NewAuditLogger_def TextWriter_def close_out_def)
  then show ?thesis using emit_after_close_panics [OF c] by blast
qed

text \<open>
  A line of the text log does not speak for one event only: the path of a binary can hold
  a newline, and one written event is then, byte for byte, the lines of two, the second with
  time, action, process and user of the attacker's choice.
\<close>
theorem text_line_forges_event:
  "text_line ts (ev\<lparr>ae_Argv := a @ ''  mode='' @ m @ [newline] @ text_prefix ts' ev' @ b\<rparr>)
    = text_line ts (ev\<lparr>ae_Argv := a, ae_ScriptPath := '''', ae_RuleName := '''', ae_Mode := m\<rparr>)
      @ text_line ts' (ev'\<lparr>ae_Argv := b, ae_ScriptPath := ae_ScriptPath ev,
          ae_RuleName := ae_RuleName ev, ae_Mode := ae_Mode ev\<rparr>)"
  by (simp add: text_line_def text_prefix_def Let_def)


definition sc_forging_event :: AuditEvent where
  "sc_forging_event = sc_audit_event\<lparr>ae_Argv := ''a'' @ [newline, CHR 0x22], ae_AIRisk := Fin (1 / 2)\<rparr>"


section \<open>Health\<close>

text \<open>
  C38: what a probe reads: after any reports of the loader and of the reader \<open>/readyz\<close> answers
  200 exactly while the last report of each was positive and 503 otherwise, \<open>/healthz\<close> always
  answers 200, and both bodies are documents with the two flags and the matching status.
\<close>
theorem probe_answers:
  "let s = fold health_step ops NewServer;
       ready = (last_ebpf ops False \<and> last_ringbuf ops False);
       status = (\<lambda>word. \<lparr>su_Status = word, su_Daemon = ''running'', su_Uptime = uptime,
                   su_EBPFLoaded = last_ebpf ops False, su_RingBufActive = last_ringbuf ops False\<rparr>)
   in (case serve_path uptime s ''/readyz'' of
         None \<Rightarrow> False
       | Some r \<Rightarrow> rp_Code r = (if ready then 200 else 503)
           \<and> Decode_document (rp_Body r)
               = Document (status_value (status (if ready then ''ok'' else ''not ready''))) False)
    \<and> (case serve_path uptime s ''/healthz'' of
         None \<Rightarrow> False
       | Some r \<Rightarrow> rp_Code r = 200
           \<and> Decode_document (rp_Body r) = Document (status_value (status ''ok'')) False)"
  by (simp add: serve_path_def write_status_def status_format.reads_line handleReadyz_def handleHealthz_def
      health_run NewServer_def StatusOK_def StatusServiceUnavailable_def Let_def)

text \<open>\<open>Start\<close> returns without an error only when the server was shut down, and then it has returned.\<close>

lemma life_shut: "lf_shut (fold life_step ops l) \<longleftrightarrow> lf_shut l \<or> Shutdown_Call \<in> set ops"
proof (induction ops arbitrary: l)
  case (Cons op ops)
  then show ?case by (cases op) auto
qed simp

lemma life_invariant:
  "(lf_start l = Returned None \<longrightarrow> lf_shut l) \<and> (lf_start l = Serving \<longrightarrow> \<not> lf_shut l) \<Longrightarrow>
     (lf_start (fold life_step ops l) = Returned None \<longrightarrow> lf_shut (fold life_step ops l))
     \<and> (lf_start (fold life_step ops l) = Serving \<longrightarrow> \<not> lf_shut (fold life_step ops l))"
proof (induction ops arbitrary: l)
  case (Cons op ops)
  have "(lf_start (life_step op l) = Returned None \<longrightarrow> lf_shut (life_step op l))
      \<and> (lf_start (life_step op l) = Serving \<longrightarrow> \<not> lf_shut (life_step op l))"
    using Cons.prems by (cases op) (auto simp: Start_return_def)
  then show ?case using Cons.IH by simp
qed simp

text \<open>
  \<open>Start\<close> gives up silently only when asked to: it has returned no error only after a
  \<open>Shutdown\<close>, and after a \<open>Shutdown\<close> it is not serving any more.
\<close>
theorem start_ends_with_shutdown:
  "(lf_start (fold life_step ops \<lparr>lf_start = Idle, lf_shut = False\<rparr>) = Returned None
      \<longrightarrow> Shutdown_Call \<in> set ops)
   \<and> (Shutdown_Call \<in> set ops \<longrightarrow> lf_start (fold life_step ops \<lparr>lf_start = Idle, lf_shut = False\<rparr>) \<noteq> Serving)"
  using life_invariant [of "\<lparr>lf_start = Idle, lf_shut = False\<rparr>" ops]
    life_shut [of ops "\<lparr>lf_start = Idle, lf_shut = False\<rparr>"] by auto

text \<open>
  The daemon is ready exactly while both parts are: \<open>/readyz\<close> answers 200 when the last
  reports of the loader and of the reader were positive, 503 otherwise, also before any
  report; \<open>/healthz\<close> always answers 200. Both show the two flags.
\<close>
theorem ready_iff_both_reported:
  "let s = fold health_step ops NewServer;
       (code, st) = handleReadyz uptime s;
       (code', st') = handleHealthz uptime s
   in code = (if last_ebpf ops False \<and> last_ringbuf ops False then 200 else 503)
      \<and> (su_Status st = ''ok'' \<longleftrightarrow> code = 200) \<and> code' = 200 \<and> su_Status st' = ''ok''
      \<and> su_EBPFLoaded st = last_ebpf ops False \<and> su_RingBufActive st = last_ringbuf ops False
      \<and> su_EBPFLoaded st' = last_ebpf ops False \<and> su_RingBufActive st' = last_ringbuf ops False"
  by (simp add: handleReadyz_def handleHealthz_def health_run NewServer_def StatusOK_def
      StatusServiceUnavailable_def Let_def)

end
