(* ===== verification/Wire_Properties.thy ===== *)
theory Wire_Properties
  imports AI_Client
begin

text \<open>
  Properties of the exchange with the AI provider on the bytes that are sent and received: what
  the provider's text is decided on, what the request's text says.
\<close>

section \<open>From the answer's text to the verdict\<close>

text \<open>
  A risk literal of the unit interval, its value, and the \<open>float64\<close> it is read as.
\<close>

definition risk_literal :: "string \<Rightarrow> rat \<Rightarrow> bool" where
  "risk_literal t q \<longleftrightarrow> (\<exists>n. scan_number t = Some (n, []) \<and> number_value n = q) \<and> 0 \<le> q \<and> q \<le> 1"

lemma risk_literalE:
  assumes "risk_literal t q"
  obtains x where "denotes 0 t (J_Num (Some x))" "round64 q = Some x" "0 \<le> x" "x \<le> 1" "valid_text t"
proof -
  obtain n where n: "scan_number t = Some (n, [])" "number_value n = q" "0 \<le> q" "q \<le> 1"
    using assms by (auto simp: risk_literal_def)
  obtain x where x: "round64 q = Some x" "0 \<le> x" "x \<le> 1" by (rule round64_unit [OF n(3,4)])
  have "denotes 0 t (J_Num (Some x))" using denotes_number [OF n(1)] by (simp add: n(2) x(1))
  moreover have "valid_text t"
    using scan_number_chars [OF n(1)] number_char_range
    by (intro valid_ascii) (auto simp: list_all_iff)
  ultimately show ?thesis using that x by blast
qed

definition fin64 :: "rat \<Rightarrow> float64" where
  "fin64 q = (case round64 q of Some x \<Rightarrow> Fin x | None \<Rightarrow> PosInf)"

lemma provider_answer:
  assumes "status < 400" "risk_literal t q" "reasoning \<noteq> ''''"
    and "valid_text lang" "newline \<notin> set lang"
    and "content = verdict_text t reasoning \<or> content = fenced lang (verdict_text t reasoning)"
  shows "doHTTPRequest go_json config_model (Reply status (envelope_text model content) d)
    = Inr \<lparr>ar_Model = (if model = '''' then config_model else clean model),
           ar_Verdict = \<lparr>vd_Reasoning = clean reasoning, vd_Risk = fin64 q\<rparr>, ar_Duration = d\<rparr>"
proof -
  obtain x where x: "denotes 0 t (J_Num (Some x))" "round64 q = Some x" "0 \<le> x" "x \<le> 1" "valid_text t"
    using assms(2) by (rule risk_literalE)
  have clean: "clean content = content"
    using assms(6) valid_verdict [OF x(5)] valid_fenced [OF assms(4)] by (auto intro: clean_valid)
  have strip: "stripCodeFences content = verdict_text t reasoning"
    using assms(5,6) stripCodeFences_object stripCodeFences_plain by (auto simp: verdict_text_def)
  have empty: "clean model = '''' \<longleftrightarrow> model = ''''"
    using clean_nonempty [of model] by (auto simp: clean_ascii)
  show ?thesis
    using assms(1) ParseVerdict_text [OF x(1,3,4) assms(3)]
    by (simp add: doHTTPRequest_def go_json_def Unmarshal_envelope clean strip empty fin64_def x(2))
qed



section \<open>From the literal to the action\<close>

lemma ParseVerdict_literal:
  assumes "risk_literal t q" "ParseVerdict (Decode_document (verdict_text t reasoning)) = Inr v"
  shows "\<exists>x. vd_Risk v = Fin x \<and> round64 q = Some x"
proof -
  obtain x where x: "denotes 0 t (J_Num (Some x))" "round64 q = Some x" "0 \<le> x" "x \<le> 1" "valid_text t"
    using assms(1) by (rule risk_literalE)
  have "reasoning \<noteq> ''''"
  proof
    assume "reasoning = ''''"
    moreover have "Decode_document (verdict_text t '''')
        = Document (J_Obj [(''risk'', J_Num (Some x)), (''reasoning'', J_Str '''')]) False"
      using Decode_denotes [OF denotes_verdict [OF x(1)], of "[]" "''''"] clean_ascii [of "''''"]
      by (simp add: maxNestingDepth_def)
    ultimately show False
      using assms(2) x(3,4)
      by (simp add: ParseVerdict_def decode_verdict_def decode_member_def field_of_def zero_verdict_def)
  qed
  then show ?thesis using ParseVerdict_text [OF x(1,3,4)] assms(2) x(2) by auto
qed

text \<open>Reading a risk as \<open>float64\<close> never reverses a decision: a literal that is not above the
  threshold is allowed, and what is at least as risky as a literal that is blocked is blocked.\<close>

theorem risk_literals_ordered:
  assumes "risk_literal t q" "ParseVerdict (Decode_document (verdict_text t r)) = Inr v"
    and "risk_literal t' q'" "ParseVerdict (Decode_document (verdict_text t' r')) = Inr v'"
    and "round64 threshold = Some threshold"
  shows "(q \<le> threshold \<longrightarrow> Evaluate v (Fin threshold) = AI_Allow)
    \<and> (q \<le> q' \<longrightarrow> Evaluate v (Fin threshold) = AI_Block \<longrightarrow> Evaluate v' (Fin threshold) = AI_Block)"
proof -
  obtain x x' where x: "vd_Risk v = Fin x" "round64 q = Some x" "vd_Risk v' = Fin x'" "round64 q' = Some x'"
    using ParseVerdict_literal assms(1-4) by metis
  have q: "0 \<le> q" using assms(1) by (simp add: risk_literal_def)
  have "x \<le> threshold" if "q \<le> threshold" using round64_mono [OF q that x(2) assms(5)] .
  moreover have "x \<le> x'" if "q \<le> q'" using round64_mono [OF q that x(2,4)] .
  ultimately show ?thesis by (auto simp: Evaluate_def x)
qed

theorem risk_literals_ordered_witness:
  "\<exists>v v'. ParseVerdict (Decode_document (verdict_text ''0.5'' ''a'')) = Inr v
     \<and> ParseVerdict (Decode_document (verdict_text ''7.5e-1'' ''b'')) = Inr v'
     \<and> Evaluate v (Fin (1 / 2)) = AI_Allow \<and> Evaluate v' (Fin (1 / 2)) = AI_Block"
proof -
  have lits: "risk_literal ''0.5'' (1 / 2)" "risk_literal ''7.5e-1'' (3 / 4)"
    by (simp_all add: risk_literal_def number_eval)
  have r: "round64 (1 / 2) = Some (1 / 2)" by (rule round64_exact [of 1 "- 1"]) (simp_all add: pow2_def)
  obtain v where v: "ParseVerdict (Decode_document (verdict_text ''0.5'' ''a'')) = Inr v"
    using ParseVerdict_text risk_literalE [OF lits(1)] by (metis list.distinct(1))
  obtain v' where v': "ParseVerdict (Decode_document (verdict_text ''7.5e-1'' ''b'')) = Inr v'"
    using ParseVerdict_text risk_literalE [OF lits(2)] by (metis list.distinct(1))
  have "round64 (3 / 4) = Some (3 / 4)" by (rule round64_exact [of 3 "- 2"]) (simp_all add: pow2_def)
  then have "Evaluate v' (Fin (1 / 2)) = AI_Block"
    using ParseVerdict_literal [OF lits(2) v'] by (auto simp: Evaluate_def)
  then show ?thesis
    using risk_literals_ordered [OF lits(1) v lits(2) v' r] v v' by blast
qed

section \<open>The request\<close>

lemma request_fields:
  "rq_Model (request_of model sp ctx) = model"
  "rq_Messages (request_of model sp ctx) =
     [\<lparr>ms_Role = ''system'', ms_Content = fst (BuildPrompt ctx sp)\<rparr>,
      \<lparr>ms_Role = ''user'', ms_Content = snd (BuildPrompt ctx sp)\<rparr>]"
  by (simp_all add: request_of_def case_prod_unfold Let_def)



end
