(* ===== verification/Spec2Isabelle.thy ===== *)
theory Spec2Isabelle
  imports AI_Properties Denial_Properties Header_Properties Lifecycle_Properties Prompt_Properties
    Service_Properties Wire_Properties
begin

text \<open>
  ZASK decides about every execution on a Linux machine. A BPF program in the kernel
  (\<open>bpf/zask.c\<close>) sees each \<open>execve\<close>; it allows or denies by a map of verdicts and reports what
  it does not know to a daemon in Go (\<open>internal/\<close>), which judges by a cache, by rules and by
  an AI provider and writes its verdicts back into the map.

  The parts and their theories, in the order of the flow of an event:

  \<^item> \<open>Zask_Prelude\<close>: machine integers, byte buffers, NUL-terminated strings, little-endian
    encoding, the locales for runs of a machine (\<open>step_invariant\<close>, \<open>step_measure\<close>) and for a
    channel that is sent to without blocking (\<open>bounded_queue\<close>: the AI queue, the audit log).
  \<^item> \<open>Kernel_Types\<close>: the constants, structs and maps of \<open>zask.c\<close>, the kernel structures of
    \<open>vmlinux.h\<close>, and the record \<open>hook_env\<close> of what the kernel answers in one invocation (CPU,
    PIDs, memory, the IMA hash, the victims of the LRU map, the reserved ring-buffer record).
  \<^item> \<open>Bpf_Helpers\<close>: the map helpers on association lists with their capacities (10,000
    verdicts, 65,536 identities, 16 protected PIDs), the LRU map with its evictions as an
    input, per-CPU counters, and the reads of kernel and user memory. The locales
    \<open>bpf_hash\<close> and \<open>bpf_stable_hash\<close> state what the hooks rely on.
  \<^item> \<open>Bprm_Check\<close>: the hook \<open>zask_bprm_check\<close> step by step (IMA hash, compound key, verdict,
    event, script argument with its scan of at most 128 bytes); \<open>Argv_Scan\<close>: the lemmas about
    that scan; \<open>Kernel_Hooks\<close>: \<open>zask_process_exit\<close> and \<open>zask_task_kill\<close>.
  \<^item> \<open>Event_Codec\<close>: the 616 bytes of \<open>struct event\<close> and \<open>event.go\<close>, which decodes them;
    the file identities of \<open>resolver.go\<close>.
  \<^item> \<open>Verdict_Loader\<close>: the daemon's operations on the maps (\<open>loader.go\<close>), with the locale
    \<open>verdict_store\<close> for the interface \<open>loaderFace\<close>.
  \<^item> \<open>Kernel_Machine\<close>: hooks and daemon as one machine over the maps; reachability, the
    invariant \<open>kmaps_wf\<close>, the accounting of executions, who writes a verdict.
    \<open>Process_Identity\<close>: the abstract specification of \<open>pid_hash_map\<close> (the hash of the last
    binary each live process executed) and the runs on which the map refines it.
  \<^item> \<open>Loader_Lifecycle\<close>: \<open>NewLoader\<close> and \<open>Close\<close> of \<open>loader.go\<close> on a \<open>host\<close>, which is what
    survives a daemon: the file at the pin path, the objects in the kernel, the hooks.
    \<open>Ring_Reader\<close>: the loop of \<open>ringbuf.go\<close>, one \<open>read_turn\<close> for each iteration.
  \<^item> \<open>Go_Std\<close>, \<open>Go_Text\<close>, \<open>Go_Regexp\<close>: the functions of Go's standard library the daemon uses
    on strings, bytes and runes (UTF-8 with its invalid sequences), and regular expressions
    with their leftmost-first matching. \<open>Go_Float\<close>: \<open>float64\<close> and the rounding of a literal.
    \<open>Go_Json\<close>: the text of JSON as \<open>encoding/json\<close> reads it, token by token on a stack of open
    arrays and objects, and as it writes it; \<open>Json_Text\<close>: what is written is read back
    (\<open>denotes d t v\<close>: wherever a value may stand with \<open>d\<close> levels of nesting left, \<open>t\<close> is read
    as \<open>v\<close>). The locale \<open>json_format\<close> is the contract of a writer of values.
    \<open>Script_Resolver\<close>: \<open>resolver.go\<close>, the script of an interpreter from \<open>/proc\<close>.
  \<^item> \<open>Content_Cache\<close>, \<open>Rule_Engine\<close>, \<open>Policy_Engine\<close>: \<open>internal/engine\<close>, the cache of tier 1,
    the rules of tier 2 with their reload, and \<open>Process\<close>, the cascade. The locale
    \<open>expiring_store\<close> is the cache as its client sees it.
  \<^item> \<open>AI_Verdict\<close>, \<open>AI_Wire\<close>, \<open>AI_Client\<close>, \<open>Worker_Pool\<close>: \<open>internal/ai\<close>, the answers that are
    accepted, the structs exchanged with the provider and their text, the retries around the circuit breaker, and the pool of workers as a step relation, whose workers
    only move on from running to draining to exited.
    \<open>Prompt\<close>: \<open>prompt.go\<close>, the context of an event, its sanitizing and the prompt.
    \<open>Config\<close>: \<open>internal/config\<close>.
  \<^item> \<open>Audit_Log\<close>, \<open>Audit_Json\<close>, \<open>Health\<close>: \<open>internal/audit\<close>, the channel, its goroutine, the
    writers and the lines of the text and the JSON log, and \<open>internal/health\<close>, the answers of the
    two endpoints as a probe reads them, the start and the end of serving.
  \<^item> \<open>Daemon_System\<close>: the kernel, the reader, the engine and the workers as one labelled step
    relation; the labels of a run are the record of what was decided, on which events.
  \<^item> \<open>Daemon_Steps\<close>: the same with the goroutines apart, the engine's (\<open>engine_pc\<close>: at the
    ring buffer, at the rules, at the calls that carry out a verdict) and one for each worker
    (\<open>worker_job\<close>: idle, asking the provider, carrying out the answer). Each call on what they
    share (cache, rules, maps, signals, queue) is a step, in the order of \<open>Process\<close>, \<open>enforce\<close>,
    \<open>processEvent\<close> and \<open>executeBlock\<close>, and the kernel, the others and a reload may come between.
    \<open>Labelled_Runs\<close>: runs of a labelled relation, with the locales for an invariant
    (\<open>labelled_invariant\<close>), a balance of labels and state, the origin of what holds, and a
    weight that every step lowers. \<open>Thread_Invariant\<close>: what a goroutine has still to do belongs to
    a submitted event. \<open>Progress\<close>: the weight of the work that is left, and who can step.
    \<open>Event_Simulation\<close>: a step of \<open>Daemon_System\<close> is a run of the goroutines from rest to rest.
  \<^item> \<open>Helper_Table\<close>, \<open>Bpf_Headers\<close>, \<open>Bpf_Tracing\<close>: the headers the BPF program is compiled
    with: the declarations of the helpers, byte order and counting macros, the choice of the
    target, its registers and the arguments of the hooks.
  \<^item> \<open>Scenarios\<close>: concrete executions on which the properties are evaluated.
  \<^item> \<open>Gate_Properties\<close>, \<open>Channel_Properties\<close>, \<open>Engine_Properties\<close>, \<open>AI_Properties\<close>,
    \<open>Header_Properties\<close>, \<open>Lifecycle_Properties\<close>, \<open>Prompt_Properties\<close>, \<open>Service_Properties\<close>,
    \<open>System_Properties\<close>, \<open>Interleaving_Properties\<close>, \<open>Denial_Properties\<close>, \<open>Wire_Properties\<close> and this theory: the properties, the main ones under a number.

  State and its correspondence. \<open>kmaps\<close> holds the six maps; a step of the kernel or the
  daemon on them is a \<open>kop\<close> and \<open>krun\<close> runs a list of them in any order. \<open>daemon\<close> is what
  the engine and the workers share: the maps, the SIGKILLs sent, the queue of the AI.
  \<open>Engine\<close> and \<open>WorkerPool\<close> carry the fields of the Go structs.

  What comes from outside the repository is an argument: CEL, YAML and the watcher's events,
  the HTTP exchange, the circuit breaker and the rate limiter, the clock, the iteration order
  of Go maps, the results of system calls, and the library that loads, pins and attaches; of
  the latter \<open>load_documented\<close> (new objects are empty, a replaced map is kept) and
  \<open>pin_documented\<close> (no pinning to an occupied path) are hypotheses. Printing a \<open>float64\<close>
  is an argument; that it reads back as the same number is documented.

  What the properties show: the hook denies exactly the chains that have a BLOCK verdict and
  reports them with their key; every execution is an event, a drop or a fast-path hit; the
  daemon reads back what the kernel wrote; a BLOCK by a rule or by the AI denies the chain
  from then on, an ALLOW makes it silent; the cache, the rules, the queue and the client do
  what their contracts say. Composed, in any interleaving, the parts deny and kill only on a
  decision that the record of the run shows, send every signal decided on once, keep a denial
  until the chain is allowed, handle every event once and in order, do no harm in monitor mode,
  and catch up with what was submitted when left alone. What the provider's text says is what is
  decided, down to the denial of the next execution; the request, the JSON log and the health answers
  can be read back whatever bytes they carry. Some properties state where the code departs from its intent:
  identities lost to a thread exit, taken from a denied execution or kept across a
  hashless one, a full map, reloads that do not reach the kernel or are lost on the cache, kills in monitor mode,
  identities and denials lost in a restart, prompts and audit lines a file name can forge,
  sizes the validation does not look at. A start is all or nothing, an orderly restart keeps
  the verdicts, the reader delivers what the kernel submits, the workers drain the queue
  and end, the audit log writes what it took.

  Loops are structural recursions: the scan of \<open>argv[0]\<close> on its 128 iterations, the retries
  on the \<open>maxRetries + 1\<close> attempts, the other loops on the lists they walk. The repetition in
  a regular expression has the length of the rest of the text as fuel, which \<open>iterate_fuel\<close>
  shows to be enough. The reader of the ring buffer may run for ever, so it is run on a list
  of turns and says whether it has returned; the workers are a step relation whose runs after
  the end of the context are bounded by \<open>pool_work\<close>, and those of all goroutines, while the kernel
  submits nothing, by \<open>thread_weight\<close>. Reading JSON needs no fuel, as every token
  consumes text.

  Not modelled: logging, the HTTP library, the bytes of YAML and Parquet, the generated
  bindings, and \<open>main\<close>, which the repository does not contain; that it wires the parts as
  \<open>Daemon_System\<close> has them, and that events with the map-hit flag do not reach \<open>Process\<close>, is
  what the documentation says. Of the goroutines in \<open>Daemon_Steps\<close>, the two counters a worker moves
  when it takes an event go with the receive, and the exchange of the rules goes with the clearing
  of the cache after it; a reload is there one step. The memory model of Go is not modelled: each
  call holds its lock or is a system call.
\<close>

section \<open>The engine, the workers and the kernel together\<close>

lemma chain_key_verdicts_only:
  "verdicts_only st st' \<Longrightarrow> chain_key henv bprm st' = chain_key henv bprm st"
  by (simp add: verdicts_only_def chain_key_def parent_hash_of_def)

text \<open>
  The life of an unknown exec chain in tier 3: the engine allows it in the kernel and
  queues the event, so until the AI answers the chain runs unseen; when a worker takes the
  event and the risk is above the threshold, the process is killed and the chain is denied
  from then on.
\<close>
theorem unknown_chain_until_verdict:
  assumes "en_loader en" "e_hash_available ev \<noteq> 0" "\<not> cached env ev en"
    and "rule_for cel env ev en = None"
    and "AllowExec (pe_sys_ok env) (ExecKey ev) (dm_maps dm) = Inr maps"
    and "en_aiQueue en" "pe_limiter_allow env" "\<not> pe_ctx_done env"
    and "dm_queue dm = []" "0 < dm_queue_cap dm"
    and "pc_Mode (wp_config wp) \<noteq> ''monitor''" "wp_loader wp"
    and "flt (pc_RiskThreshold (wp_config wp)) (vd_Risk (ar_Verdict result))"
  shows "case Process cel env ev en dm of (v, en1, dm1) \<Rightarrow>
    ve_Action v = ActionAIQueue \<and>
    (\<exists>wp2 dm2. receive True (Inr result) wp dm1 = Some (wp2, dm2)
       \<and> dm_kills dm2 = dm_kills dm @ [e_pid ev]
       \<and> (\<forall>henv bprm. hash_available henv bprm \<and> chain_key henv bprm (dm_maps dm) = ExecKey ev \<longrightarrow>
            fst (zask_bprm_check henv bprm (dm_maps dm1)) = 0
            \<and> events (snd (zask_bprm_check henv bprm (dm_maps dm1))) = events (dm_maps dm1)
            \<and> fst (zask_bprm_check henv bprm (dm_maps dm2)) = - EPERM))"
proof -
  let ?ev = "snd (resolve_script env en ev)" and ?key = "ExecKey ev"
  let ?dm1 = "dm\<lparr>dm_maps := maps, dm_queue := [?ev]\<rparr>"
  obtain v en1 where p: "Process cel env ev en dm = (v, en1, ?dm1)" "ve_Action v = ActionAIQueue"
    using assms by (simp add: Process_tiers Let_def promote_def route_def)
  obtain maps2 where b: "BlockExec True ?key maps = Inr maps2"
    using BlockExec_ok_iff [of True ?key maps] AllowExec_verdict [OF assms(5), of ?key] by auto
  define wp1 where "wp1 = wp\<lparr>wp_queueDepth := wp_queueDepth wp - 1\<rparr>"
  let ?r = "processEvent True (Inr result) ?ev wp1 (?dm1\<lparr>dm_queue := []\<rparr>)"
  have "receive True (Inr result) wp ?dm1 = Some ?r"
    by (simp add: receive_def wp1_def)
  moreover have r: "dm_maps (snd ?r) = maps2" "dm_kills (snd ?r) = dm_kills dm @ [e_pid ev]"
    using assms(2,11-13) b
    by (simp_all add: processEvent_def executeBlock_def Evaluate_def Let_def wp1_def)
  moreover have "bpf_map_lookup_elem (verdict_map maps) ?key = Some VERDICT_ALLOW"
    using AllowExec_verdict [OF assms(5)] by simp
  moreover have "bpf_map_lookup_elem (verdict_map maps2) ?key = Some VERDICT_BLOCK"
    by (rule vstore.allow_then_block [OF assms(5) b])
  moreover have "verdicts_only (dm_maps dm) maps" "verdicts_only (dm_maps dm) maps2"
    using AllowExec_frame [OF assms(5)] BlockExec_frame [OF b] by (simp_all add: verdicts_only_def)
  note key = this [THEN chain_key_verdicts_only]
  ultimately have "fst (zask_bprm_check henv bprm maps) = 0
      \<and> events (snd (zask_bprm_check henv bprm maps)) = events maps
      \<and> fst (zask_bprm_check henv bprm maps2) = - EPERM"
    if "hash_available henv bprm" "chain_key henv bprm (dm_maps dm) = ?key" for henv bprm
    using that by (simp add: allowed_silent key bprm_check_ret)
  with \<open>receive True (Inr result) wp ?dm1 = Some ?r\<close> r p show ?thesis
    by (auto intro!: exI [of _ "fst ?r"] exI [of _ "snd ?r"])
qed

lemma unknown_chain_until_verdict_witness:
  "case Process sc_cel sc_penv sc_pevent (sc_engine ''lockdown'' [] []) (sc_daemon st_open)
    of (v, en1, dm1) \<Rightarrow>
    ve_Action v = ActionAIQueue \<and>
    (\<exists>wp2 dm2. receive True (Inr (sc_result (3 / 4))) (sc_pool ''lockdown'' True) dm1 = Some (wp2, dm2)
       \<and> dm_kills dm2 = dm_kills (sc_daemon st_open) @ [e_pid sc_pevent]
       \<and> (\<forall>henv bprm. hash_available henv bprm
            \<and> chain_key henv bprm (dm_maps (sc_daemon st_open)) = ExecKey sc_pevent \<longrightarrow>
            fst (zask_bprm_check henv bprm (dm_maps dm1)) = 0
            \<and> events (snd (zask_bprm_check henv bprm (dm_maps dm1))) = events (dm_maps dm1)
            \<and> fst (zask_bprm_check henv bprm (dm_maps dm2)) = - EPERM))"
  by (rule unknown_chain_until_verdict)
    (simp_all add: sc_not_cached sc_rule_for sc_open_write sc_result_def)

section \<open>From the provider's text to the kernel\<close>


text \<open>An answer at the first attempt, for the event of process 11.\<close>

definition sc_answer :: "nat \<Rightarrow> attempt_env" where
  "sc_answer n = \<lparr>at_wait_cancelled = False,
     at_reply = Reply 200 (envelope_text ''m'' (verdict_text ''0.75'' ''curl'')) 7, at_ctx_err = False\<rparr>"


end
